(* ===== verification/Prelude.thy ===== *)
theory Prelude
  imports Main "HOL-Library.AList" "HOL-Library.Char_ord" "HOL-Library.List_Lexorder"
    "HOL-Library.Multiset"
begin

text \<open>
  What every component of the gateway model shares: the collections of rewrite rules, and
  generic lemmas on association lists (Go maps), result sums and insertion into sorted lists.

  A Go \<open>map[K]V\<close> is an association list with distinct keys. \<open>len(m)\<close> is the length of the
  list, \<open>m[k]\<close> is \<open>map_of m k\<close>, \<open>m[k] = v\<close> is \<open>AList.update k v m\<close> and \<open>delete(m, k)\<close> is
  \<open>AList.delete k m\<close>. Go visits a map in an order of its own choice, so an operation whose
  result depends on that order takes the visiting order as an argument.
\<close>

named_theorems alist_simps \<open>facts about association lists with distinct keys\<close>
named_theorems store_inv \<open>facts that an operation keeps the invariant of its component\<close>

abbreviation keys :: "('k \<times> 'v) list \<Rightarrow> 'k list" where
  "keys m \<equiv> map fst m"

abbreviation distinct_keys :: "('k \<times> 'v) list \<Rightarrow> bool" where
  "distinct_keys m \<equiv> distinct (keys m)"

subsection \<open>Results: \<open>Inl\<close> is the error slot of a Go result, \<open>Inr\<close> its value\<close>

fun is_ok :: "'e + 'a \<Rightarrow> bool" where
  "is_ok (Inl e) = False"
| "is_ok (Inr a) = True"

lemma is_ok_iff: "is_ok r \<longleftrightarrow> (\<exists>a. r = Inr a)"
  by (cases r) auto

lemma not_is_ok_iff: "\<not> is_ok r \<longleftrightarrow> (\<exists>e. r = Inl e)"
  by (cases r) auto

subsection \<open>Association lists with distinct keys\<close>

lemma distinct_keys_update [simp, intro, store_inv]:
  "distinct_keys m \<Longrightarrow> distinct_keys (AList.update k v m)"
  by (rule distinct_update)

lemma keys_update: "set (keys (AList.update k v m)) = insert k (set (keys m))"
  by (induction m) auto

lemma length_update_new:
  "k \<notin> set (keys m) \<Longrightarrow> length (AList.update k v m) = Suc (length m)"
  by (induction m) auto

lemma length_update_old:
  "k \<in> set (keys m) \<Longrightarrow> length (AList.update k v m) = length m"
  by (induction m) auto

lemma length_update: "length (AList.update k v m) =
    (if k \<in> set (keys m) then length m else Suc (length m))"
  by (simp add: length_update_new length_update_old)

lemma distinct_keys_filter [simp, intro, store_inv]:
  "distinct_keys m \<Longrightarrow> distinct_keys (filter P m)"
  by (simp add: distinct_map_filter)

lemma distinct_keys_delete [simp, intro, store_inv]:
  "distinct_keys m \<Longrightarrow> distinct_keys (AList.delete k m)"
  by (rule distinct_delete)

lemma map_of_filter_distinct [alist_simps]:
  assumes "distinct_keys m"
  shows "map_of (filter P m) k = (case map_of m k of
           None \<Rightarrow> None | Some v \<Rightarrow> if P (k, v) then Some v else None)"
  using assms
proof (induction m)
  case Nil
  then show ?case by simp
next
  case (Cons e m)
  obtain k' v' where e: "e = (k', v')" by (cases e)
  have "map_of m k' = None"
    using Cons.prems e by (auto simp: map_of_eq_None_iff)
  with Cons e show ?case
    by (auto split: option.splits)
qed

lemma map_of_in_set [alist_simps]:
  "distinct_keys m \<Longrightarrow> (k, v) \<in> set m \<longleftrightarrow> map_of m k = Some v"
  by simp

lemma length_filter_update_le:
  "length (AList.update k v m) \<le> Suc (length m)"
  by (simp add: length_update)

lemma update_update [simp]: "AList.update k w (AList.update k v m) = AList.update k w m"
  by (induction m) auto

lemma length_delete_present:
  "distinct_keys m \<Longrightarrow> k \<in> set (keys m) \<Longrightarrow> Suc (length (AList.delete k m)) = length m"
proof (induction m)
  case Nil
  then show ?case by simp
next
  case (Cons e m)
  show ?case
  proof (cases "fst e = k")
    case True
    then have "AList.delete k m = m"
      using Cons.prems by (auto intro: delete_idem)
    with True show ?thesis by (cases e) simp
  next
    case False
    with Cons show ?thesis by (cases e) auto
  qed
qed

subsection \<open>Sorting by a key\<close>

text \<open>
  \<open>sort.Slice\<close> and \<open>sort.Strings\<close> are modelled by insertion sort on the comparison key: the
  library's \<open>sort_key\<close>. Any two lists sorted by an injective key with the same elements are equal,
  so the choice of algorithm does not show.
\<close>

lemma sort_key_unique:
  assumes "mset xs = mset ys" and "inj_on f (set xs)"
    and "sorted (map f xs)" and "sorted (map f ys)"
  shows "xs = ys"
proof (rule map_inj_on [of f])
  show "map f xs = map f ys"
    using assms by (metis mset_map properties_for_sort)
  show "inj_on f (set xs \<union> set ys)"
    using assms(1,2) by (metis mset_eq_setD sup.idem)
qed

end
