(* ===== verification/Go_Errors.thy ===== *)
theory Go_Errors
  imports Go_Strings
begin

text \<open>
  The error values that cross the gateway's internal interfaces. Go builds an error as a chain:
  a sentinel (\<open>api/backend.go\<close>), \<open>fmt.Errorf\<close> with \<open>%w\<close> around another error, the \<open>sentinelError\<close>
  of \<open>kubebackend/backend.go\<close> that tags an error with a sentinel, the \<open>StatusError\<close> of
  \<open>kubebackend/rest_client.go\<close>, or an opaque error of the standard library. \<open>err_is\<close> is
  \<open>errors.Is\<close> on that chain, \<open>err_as_status\<close> is \<open>errors.As(err, &se)\<close>, \<open>err_text\<close> is \<open>Error()\<close>.
\<close>

datatype api_error = ErrNotFound | ErrUnsupported | ErrBadRequest

fun api_error_text :: "api_error \<Rightarrow> string" where
  "api_error_text ErrNotFound = ''cluster not found''"
| "api_error_text ErrUnsupported = ''operation not supported by this backend''"
| "api_error_text ErrBadRequest = ''invalid request''"

datatype go_error =
    Sentinel api_error
  | Errorf string go_error string
  | SentinelError api_error go_error
  | StatusError int string string
  | ErrorString string

fun err_is :: "go_error \<Rightarrow> api_error \<Rightarrow> bool" where
  "err_is (Sentinel t) s = (t = s)"
| "err_is (Errorf pre e post) s = err_is e s"
| "err_is (SentinelError t e) s = (t = s \<or> err_is e s)"
| "err_is (StatusError c r m) s = False"
| "err_is (ErrorString t) s = False"

fun err_as_status :: "go_error \<Rightarrow> (int \<times> string \<times> string) option" where
  "err_as_status (Sentinel t) = None"
| "err_as_status (Errorf pre e post) = err_as_status e"
| "err_as_status (SentinelError t e) = err_as_status e"
| "err_as_status (StatusError c r m) = Some (c, r, m)"
| "err_as_status (ErrorString t) = None"

definition status_error_text :: "int \<Rightarrow> string \<Rightarrow> string \<Rightarrow> string" where
  "status_error_text code reason message =
     (let msg = ''kube api returned '' @ show_int code @ '' '' @ reason
      in if message \<noteq> '''' then msg @ '': '' @ message else msg)"

fun err_text :: "go_error \<Rightarrow> string" where
  "err_text (Sentinel t) = api_error_text t"
| "err_text (Errorf pre e post) = pre @ err_text e @ post"
| "err_text (SentinelError t e) = err_text e"
| "err_text (StatusError c r m) = status_error_text c r m"
| "err_text (ErrorString t) = t"

text \<open>\<open>fmt.Errorf("%w: ...", ErrBadRequest, ...)\<close>, the shape of every validation error.\<close>

definition bad_request :: "string \<Rightarrow> go_error" where
  "bad_request detail = Errorf '''' (Sentinel ErrBadRequest) ('': '' @ detail)"

lemma err_is_bad_request [simp]: "err_is (bad_request d) s \<longleftrightarrow> s = ErrBadRequest"
  by (auto simp: bad_request_def)

lemma err_as_status_bad_request [simp]: "err_as_status (bad_request d) = None"
  by (simp add: bad_request_def)

lemma err_text_bad_request: "err_text (bad_request d) = ''invalid request: '' @ d"
  by (simp add: bad_request_def)

lemma err_text_bad_request_nonempty [simp]: "err_text (bad_request d) \<noteq> []"
  by (simp add: err_text_bad_request)

end
