(* ===== verification/Models.thy ===== *)
theory Models
  imports Go_Strings
begin

text \<open>
  The wire types of \<open>api/models.go\<close>, one record per struct. Go reuses field names between structs
  (\<open>ID\<close>, \<open>Name\<close>), so each selector carries a prefix for its record. A \<open>*string\<close> or \<open>*int\<close> is an
  \<open>option\<close>. The phase strings of a drain job, a closed set of constants, are a datatype with their
  wire form.
\<close>

record cluster_profile =
  prof_ID :: string
  prof_Name :: string
  prof_APIServerHost :: string
  prof_EnvironmentLabel :: string
  prof_ConnectionMode :: string

record cluster_node =
  node_ID :: string
  node_Name :: string
  node_Role :: string
  node_Version :: string
  node_Zone :: string
  node_PodCount :: int
  node_Schedulable :: bool
  node_Health :: string
  node_CPUCapacity :: string
  node_MemoryCapacity :: string
  node_OSImage :: string

record cluster_workload =
  wl_ID :: string
  wl_Namespace :: string
  wl_Name :: string
  wl_Kind :: string
  wl_DesiredReplicas :: int
  wl_ReadyReplicas :: int
  wl_NodeIDs :: "string list"
  wl_Health :: string
  wl_Images :: "string list"

record service_port =
  port_Port :: int
  port_TargetPort :: int
  port_Protocol :: string
  port_Name :: "string option"

record cluster_service =
  svc_ID :: string
  svc_Namespace :: string
  svc_Name :: string
  svc_Exposure :: string
  svc_TargetWorkloadIDs :: "string list"
  svc_Ports :: "service_port list"
  svc_Health :: string
  svc_ClusterIP :: "string option"

record cluster_alert =
  alert_ID :: string
  alert_Title :: string
  alert_Summary :: string
  alert_Level :: string
  alert_Scope :: string

record topology_link =
  link_SourceID :: string
  link_TargetID :: string
  link_Kind :: string
  link_Label :: "string option"

record cluster_snapshot =
  snap_Profile :: cluster_profile
  snap_GeneratedAt :: int
  snap_Nodes :: "cluster_node list"
  snap_Workloads :: "cluster_workload list"
  snap_Services :: "cluster_service list"
  snap_Alerts :: "cluster_alert list"
  snap_Links :: "topology_link list"

record cluster_event =
  ev_Type :: string
  ev_Reason :: string
  ev_Message :: string
  ev_LastTimestamp :: int
  ev_Count :: int
  ev_SourceComponent :: "string option"

datatype drain_phase = DrainPhasePending | DrainPhaseRunning | DrainPhaseSucceeded | DrainPhaseFailed

fun drain_phase_wire :: "drain_phase \<Rightarrow> string" where
  "drain_phase_wire DrainPhasePending = ''pending''"
| "drain_phase_wire DrainPhaseRunning = ''running''"
| "drain_phase_wire DrainPhaseSucceeded = ''succeeded''"
| "drain_phase_wire DrainPhaseFailed = ''failed''"

record drain_job =
  dj_ID :: string
  dj_NodeID :: string
  dj_Phase :: drain_phase
  dj_Evicted :: "string list"
  dj_Skipped :: "string list"
  dj_Remaining :: int
  dj_Error :: string
  dj_StartedAt :: int
  dj_UpdatedAt :: int

lemma drain_phase_wire_inj: "drain_phase_wire p = drain_phase_wire q \<longleftrightarrow> p = q"
  by (cases p; cases q) simp_all

end
