(* ===== verification/Backend.thy ===== *)
theory Backend
  imports Go_Errors Models
begin

text \<open>
  \<open>api/backend.go\<close>: the interface between the HTTP layer and a cluster. Go's interface value is a record
  of its methods; a method takes its arguments and the backend's state \<open>'w\<close> (which holds whatever
  the method can see or change: the cluster, its caches, its clock) and returns its result and the
  new state. An \<open>error\<close> result is \<open>Inl\<close>; a method that returns only an error returns \<open>Inr ()\<close> for nil.

  Also here: \<open>backendErrStatus\<close> and \<open>publicErrMessage\<close> of \<open>handlers.go\<close>, which translate what a backend
  returns, and a backend that records the mutations it is asked for, in terms of which the
  properties of the handlers are stated.
\<close>

record 'w cluster_backend =
  ListClusters :: "'w \<Rightarrow> (go_error + cluster_profile list) \<times> 'w"
  LoadSnapshot :: "string \<Rightarrow> 'w \<Rightarrow> (go_error + cluster_snapshot) \<times> 'w"
  LoadEvents :: "string \<Rightarrow> string \<Rightarrow> string \<Rightarrow> string \<Rightarrow> int \<Rightarrow> 'w \<Rightarrow> (go_error + cluster_event list) \<times> 'w"
  ScaleWorkload :: "string \<Rightarrow> string \<Rightarrow> int \<Rightarrow> 'w \<Rightarrow> (go_error + unit) \<times> 'w"
  RestartWorkload :: "string \<Rightarrow> string \<Rightarrow> 'w \<Rightarrow> (go_error + unit) \<times> 'w"
  CordonNode :: "string \<Rightarrow> string \<Rightarrow> bool \<Rightarrow> 'w \<Rightarrow> (go_error + unit) \<times> 'w"
  StartDrain :: "string \<Rightarrow> string \<Rightarrow> 'w \<Rightarrow> (go_error + drain_job) \<times> 'w"
  DrainStatus :: "string \<Rightarrow> string \<Rightarrow> string \<Rightarrow> 'w \<Rightarrow> (go_error + drain_job) \<times> 'w"

subsection \<open>Error translation\<close>

definition backendErrStatus :: "go_error option \<Rightarrow> int" where
  "backendErrStatus err = (case err of
       None \<Rightarrow> 200
     | Some e \<Rightarrow>
         if err_is e ErrNotFound then 404
         else if err_is e ErrUnsupported then 501
         else if err_is e ErrBadRequest then 400
         else 502)"

definition publicErrMessage :: "go_error \<Rightarrow> string" where
  "publicErrMessage e =
     (if err_is e ErrNotFound then ''not found''
      else if err_is e ErrBadRequest \<or> err_is e ErrUnsupported then err_text e
      else ''backend error'')"

text \<open>The message for a backend error leaks nothing the code has not marked as safe: two errors with the
  same sentinels get the same message unless they wrap \<open>ErrBadRequest\<close> or \<open>ErrUnsupported\<close> and not
  \<open>ErrNotFound\<close>; an error without a sentinel is always \<open>backend error\<close> with status 502.\<close>

theorem unmapped_errors_are_opaque:
  assumes "\<And>t. err_is e t = err_is e' t"
    and "err_is e ErrNotFound \<or> \<not> err_is e ErrBadRequest \<and> \<not> err_is e ErrUnsupported"
  shows "publicErrMessage e = publicErrMessage e' \<and> backendErrStatus (Some e) = backendErrStatus (Some e')
    \<and> (\<not> err_is e ErrNotFound \<longrightarrow>
         publicErrMessage e = ''backend error'' \<and> backendErrStatus (Some e) = 502)"
  using assms by (auto simp: publicErrMessage_def backendErrStatus_def)

theorem unmapped_errors_are_opaque_witness:
  "publicErrMessage (Errorf ''a: '' (StatusError 403 ''Forbidden'' ''secret'') []) =
   publicErrMessage (ErrorString ''dial tcp 10.0.0.1'')"
  using unmapped_errors_are_opaque
    [of "Errorf ''a: '' (StatusError 403 ''Forbidden'' ''secret'') []" "ErrorString ''dial tcp 10.0.0.1''"]
  by simp

subsection \<open>Recording the mutations\<close>

datatype mutation_call =
    CallScale string string int
  | CallRestart string string
  | CallCordon string string bool
  | CallDrain string string

text \<open>The error and the state after one mutation.\<close>

fun perform :: "'w cluster_backend \<Rightarrow> mutation_call \<Rightarrow> 'w \<Rightarrow> go_error option \<times> 'w" where
  "perform b (CallScale c t n) w = (case ScaleWorkload b c t n w of
     (Inl e, w) \<Rightarrow> (Some e, w) | (Inr _, w) \<Rightarrow> (None, w))"
| "perform b (CallRestart c t) w = (case RestartWorkload b c t w of
     (Inl e, w) \<Rightarrow> (Some e, w) | (Inr _, w) \<Rightarrow> (None, w))"
| "perform b (CallCordon c n u) w = (case CordonNode b c n u w of
     (Inl e, w) \<Rightarrow> (Some e, w) | (Inr _, w) \<Rightarrow> (None, w))"
| "perform b (CallDrain c n) w = (case StartDrain b c n w of
     (Inl e, w) \<Rightarrow> (Some e, w) | (Inr _, w) \<Rightarrow> (None, w))"

text \<open>The backend \<open>b\<close>, with a log of the mutations it was asked for beside its state.\<close>

definition record_call :: "mutation_call \<Rightarrow> ('w \<Rightarrow> 'a \<times> 'w) \<Rightarrow> 'w \<times> mutation_call list \<Rightarrow>
    'a \<times> 'w \<times> mutation_call list" where
  "record_call c f = (\<lambda>(w, log). let (x, w) = f w in (x, w, log @ [c]))"

definition keep_log :: "('w \<Rightarrow> 'a \<times> 'w) \<Rightarrow> 'w \<times> mutation_call list \<Rightarrow> 'a \<times> 'w \<times> mutation_call list" where
  "keep_log f = (\<lambda>(w, log). let (x, w) = f w in (x, w, log))"

definition recorded :: "'w cluster_backend \<Rightarrow> ('w \<times> mutation_call list) cluster_backend" where
  "recorded b = \<lparr>
     ListClusters = keep_log (ListClusters b),
     LoadSnapshot = (\<lambda>c. keep_log (LoadSnapshot b c)),
     LoadEvents = (\<lambda>c k n ns l. keep_log (LoadEvents b c k n ns l)),
     ScaleWorkload = (\<lambda>c w n. record_call (CallScale c w n) (ScaleWorkload b c w n)),
     RestartWorkload = (\<lambda>c w. record_call (CallRestart c w) (RestartWorkload b c w)),
     CordonNode = (\<lambda>c n u. record_call (CallCordon c n u) (CordonNode b c n u)),
     StartDrain = (\<lambda>c n. record_call (CallDrain c n) (StartDrain b c n)),
     DrainStatus = (\<lambda>c n j. keep_log (DrainStatus b c n j))\<rparr>"

lemma snd_record_call [simp]: "snd (snd (record_call c f w)) = snd w @ [c]"
  by (simp add: record_call_def split: prod.splits)

lemma snd_keep_log [simp]: "snd (snd (keep_log f w)) = snd w"
  by (simp add: keep_log_def split: prod.splits)

lemma recorded_simps [simp]:
  "ListClusters (recorded b) = keep_log (ListClusters b)"
  "LoadSnapshot (recorded b) c = keep_log (LoadSnapshot b c)"
  "LoadEvents (recorded b) c k n ns l = keep_log (LoadEvents b c k n ns l)"
  "ScaleWorkload (recorded b) c w r = record_call (CallScale c w r) (ScaleWorkload b c w r)"
  "RestartWorkload (recorded b) c w = record_call (CallRestart c w) (RestartWorkload b c w)"
  "CordonNode (recorded b) c n u = record_call (CallCordon c n u) (CordonNode b c n u)"
  "StartDrain (recorded b) c n = record_call (CallDrain c n) (StartDrain b c n)"
  "DrainStatus (recorded b) c n j = keep_log (DrainStatus b c n j)"
  by (simp_all add: recorded_def)

text \<open>The recorded backend behaves as \<open>b\<close> and logs exactly the mutation it performs.\<close>

lemma perform_recorded:
  "perform (recorded b) c (w, log) = (let (e, w) = perform b c w in (e, w, log @ [c]))"
  by (cases c) (simp_all add: record_call_def split: prod.splits sum.splits)

lemma perform_recorded_log [simp]: "snd (snd (perform (recorded b) c w)) = snd w @ [c]"
  by (cases w) (simp add: perform_recorded split: prod.splits)

subsection \<open>What the interface documents\<close>

text \<open>
  The promises in the comments of \<open>ClusterBackend\<close>: a cluster id the backend does not know gives an error
  that is \<open>ErrNotFound\<close>, and the state is left alone then. \<open>knows w c\<close> says that cluster \<open>c\<close> is known in \<open>w\<close>.
\<close>

locale documented_backend =
  fixes b :: "'w cluster_backend" and knows :: "'w \<Rightarrow> string \<Rightarrow> bool"
  assumes snapshot_unknown: "\<not> knows w c \<Longrightarrow>
      \<exists>e. LoadSnapshot b c w = (Inl e, w) \<and> err_is e ErrNotFound"
    and listed_known: "ListClusters b w = (Inr ps, w') \<Longrightarrow> p \<in> set ps \<Longrightarrow> knows w (prof_ID p)"
begin

lemma unknown_snapshot_is_404:
  assumes "\<not> knows w c"
  obtains e where "fst (LoadSnapshot b c w) = Inl e" "backendErrStatus (Some e) = 404"
    "publicErrMessage e = ''not found''"
  using snapshot_unknown [OF assms] by (auto simp: backendErrStatus_def publicErrMessage_def)

lemma listed_profile_loads_or_is_known:
  "ListClusters b w = (Inr ps, w') \<Longrightarrow> \<not> knows w c \<Longrightarrow> c \<notin> prof_ID ` set ps"
  using listed_known by blast

end

end
