(* ===== verification/Policy.thy ===== *)
theory Policy
  imports Go_Strings
begin

text \<open>
  \<open>api/policy.go\<close>: the gates in front of the mutations. A gate returns the empty string to let a
  request through and a reason otherwise. A Go nil pointer to a policy is \<open>None\<close>. The locale
  \<open>policy_gate\<close> is what the handlers rely on: a missing policy is open, and the reason is empty
  exactly for the requests the policy permits. It is interpreted on the four gates of the code.
\<close>

record scale_policy =
  MaxReplicas :: int
  AllowedNamespaces :: "string list"

record node_policy =
  AllowedNodes :: "string list"
  ProtectedNodes :: "string list"
  DisableDrain :: bool

fun containsString :: "string list \<Rightarrow> string \<Rightarrow> bool" where
  "containsString [] needle = False"
| "containsString (s # haystack) needle = (if s = needle then True else containsString haystack needle)"

definition EvaluateNamespace :: "scale_policy option \<Rightarrow> string \<Rightarrow> string" where
  "EvaluateNamespace p namespace = (case p of
       None \<Rightarrow> ''''
     | Some p \<Rightarrow>
         if length (AllowedNamespaces p) = 0 then ''''
         else if namespace = '''' then ''workload namespace is empty''
         else if \<not> containsString (AllowedNamespaces p) namespace
              then ''namespace '' @ Quote namespace @ '' not in allowlist''
         else '''')"

definition Evaluate :: "scale_policy option \<Rightarrow> string \<Rightarrow> int \<Rightarrow> string" where
  "Evaluate p namespace replicas = (case p of
       None \<Rightarrow> ''''
     | Some q \<Rightarrow>
         if MaxReplicas q > 0 \<and> replicas > MaxReplicas q
         then ''replicas '' @ show_int replicas @ '' exceeds max '' @ show_int (MaxReplicas q)
         else EvaluateNamespace p namespace)"

definition evaluateNode :: "node_policy \<Rightarrow> string \<Rightarrow> string" where
  "evaluateNode p nodeID =
     (if nodeID = '''' then ''node id is empty''
      else if containsString (ProtectedNodes p) nodeID then ''node '' @ Quote nodeID @ '' is protected''
      else if length (AllowedNodes p) > 0 \<and> \<not> containsString (AllowedNodes p) nodeID
           then ''node '' @ Quote nodeID @ '' not in allowlist''
      else '''')"

definition EvaluateCordon :: "node_policy option \<Rightarrow> string \<Rightarrow> bool \<Rightarrow> string" where
  "EvaluateCordon p nodeID unschedulable = (case p of
       None \<Rightarrow> ''''
     | Some q \<Rightarrow> if \<not> unschedulable then '''' else evaluateNode q nodeID)"

definition EvaluateDrain :: "node_policy option \<Rightarrow> string \<Rightarrow> string" where
  "EvaluateDrain p nodeID = (case p of
       None \<Rightarrow> ''''
     | Some q \<Rightarrow> if DisableDrain q then ''node drain is disabled by policy'' else evaluateNode q nodeID)"

subsection \<open>What a gate promises\<close>

locale policy_gate =
  fixes evaluate :: "'p option \<Rightarrow> 'r \<Rightarrow> string"
    and permits :: "'p \<Rightarrow> 'r \<Rightarrow> bool"
  assumes nil_policy: "evaluate None r = []"
    and exact: "evaluate (Some p) r = [] \<longleftrightarrow> permits p r"
begin

definition allowed :: "'p option \<Rightarrow> 'r \<Rightarrow> bool" where
  "allowed p r \<longleftrightarrow> (case p of None \<Rightarrow> True | Some q \<Rightarrow> permits q r)"

lemma open_iff_allowed: "evaluate p r = [] \<longleftrightarrow> allowed p r"
  by (cases p) (simp_all add: allowed_def nil_policy exact)

lemma reason_iff_denied: "evaluate p r \<noteq> [] \<longleftrightarrow> (\<exists>q. p = Some q \<and> \<not> permits q r)"
  by (cases p) (simp_all add: nil_policy exact)

end

text \<open>The gates permit what their configuration says.\<close>

definition permits_namespace :: "scale_policy \<Rightarrow> string \<Rightarrow> bool" where
  "permits_namespace p namespace \<longleftrightarrow>
     AllowedNamespaces p = [] \<or> namespace \<noteq> [] \<and> namespace \<in> set (AllowedNamespaces p)"

definition permits_scale :: "scale_policy \<Rightarrow> string \<times> int \<Rightarrow> bool" where
  "permits_scale p r \<longleftrightarrow>
     (0 < MaxReplicas p \<longrightarrow> snd r \<le> MaxReplicas p) \<and> permits_namespace p (fst r)"

definition permits_node :: "node_policy \<Rightarrow> string \<Rightarrow> bool" where
  "permits_node p n \<longleftrightarrow> n \<noteq> [] \<and> n \<notin> set (ProtectedNodes p)
     \<and> (AllowedNodes p = [] \<or> n \<in> set (AllowedNodes p))"

lemma containsString_iff [simp]: "containsString xs x \<longleftrightarrow> x \<in> set xs"
  by (induction xs) auto

lemma evaluateNode_iff: "evaluateNode p n = [] \<longleftrightarrow> permits_node p n"
  by (auto simp: evaluateNode_def permits_node_def)

interpretation namespace_gate: policy_gate EvaluateNamespace permits_namespace
  by unfold_locales (auto simp: EvaluateNamespace_def permits_namespace_def)

interpretation scale_gate: policy_gate "\<lambda>p r. Evaluate p (fst r) (snd r)" permits_scale
  by unfold_locales
    (auto simp: Evaluate_def permits_scale_def namespace_gate.exact)

interpretation cordon_gate: policy_gate "\<lambda>p r. EvaluateCordon p (fst r) (snd r)"
  "\<lambda>p r. snd r \<longrightarrow> permits_node p (fst r)"
  by unfold_locales (auto simp: EvaluateCordon_def evaluateNode_iff)

interpretation drain_gate: policy_gate EvaluateDrain "\<lambda>p n. \<not> DisableDrain p \<and> permits_node p n"
  by unfold_locales (auto simp: EvaluateDrain_def evaluateNode_iff)

subsection \<open>What callers rely on\<close>

text \<open>The scale gate opens exactly when no policy is set, or the replica ceiling is off or not exceeded and the namespace
  allowlist is empty or names the (non-empty) namespace; restart's gate is the same without the ceiling.\<close>

lemma scale_gates_exact:
  "(Evaluate p ns n = [] \<longleftrightarrow> (case p of None \<Rightarrow> True | Some q \<Rightarrow>
      (MaxReplicas q \<le> 0 \<or> n \<le> MaxReplicas q)
      \<and> (AllowedNamespaces q = [] \<or> ns \<noteq> [] \<and> ns \<in> set (AllowedNamespaces q))))
   \<and> (EvaluateNamespace p ns = [] \<longleftrightarrow> (case p of None \<Rightarrow> True | Some q \<Rightarrow>
      AllowedNamespaces q = [] \<or> ns \<noteq> [] \<and> ns \<in> set (AllowedNamespaces q)))"
  using scale_gate.nil_policy [of "(ns, n)"] namespace_gate.nil_policy [of ns]
    scale_gate.exact [of _ "(ns, n)"] namespace_gate.exact [of _ ns]
  by (cases p) (auto simp: permits_scale_def permits_namespace_def)

text \<open>An uncordon always passes; a cordon passes exactly when the node is named, not protected and in the allowlist if
  there is one; a drain passes exactly when a cordon of the node would and draining is not switched off.\<close>

lemma node_gates_exact:
  "EvaluateCordon p n False = []
   \<and> (EvaluateCordon p n True = [] \<longleftrightarrow> (case p of None \<Rightarrow> True | Some q \<Rightarrow>
        n \<noteq> [] \<and> n \<notin> set (ProtectedNodes q) \<and> (AllowedNodes q = [] \<or> n \<in> set (AllowedNodes q))))
   \<and> (EvaluateDrain p n = [] \<longleftrightarrow> EvaluateCordon p n True = [] \<and>
        (case p of None \<Rightarrow> True | Some q \<Rightarrow> \<not> DisableDrain q))"
  using cordon_gate.nil_policy [of "(n, True)"] cordon_gate.nil_policy [of "(n, False)"]
    cordon_gate.exact [of _ "(n, True)"] cordon_gate.exact [of _ "(n, False)"]
    drain_gate.nil_policy [of n] drain_gate.exact [of _ n]
  by (cases p) (auto simp: permits_node_def)

end
