(* ===== verification/Float64.thy ===== *)
theory Float64
  imports Complex_Main "HOL-Library.Log_Nat"
begin

text \<open>
  Go's \<open>float64\<close> arithmetic on the range the gateway uses it: every operation is the exact
  operation on reals followed by rounding to nearest, ties to even, to 53 significant bits, with
  the subnormal spacing \<open>2 ^ -1074\<close> as the finest. The exponent is not bounded above: the one place
  where a product could leave the range of a \<open>float64\<close> takes the minimum with a finite value next.

  The locale \<open>rounding\<close> is what the rate limiter relies on; \<open>f64_round\<close> is shown to provide it.
\<close>

definition round_even :: "real \<Rightarrow> int" where
  "round_even x = (let f = \<lfloor>x\<rfloor>; d = x - of_int f in
     if d < 1 / 2 then f else if 1 / 2 < d then f + 1 else if even f then f else f + 1)"

text \<open>The exponent of the unit in the last place of \<open>x\<close>.\<close>

definition ulp_exp :: "real \<Rightarrow> int" where
  "ulp_exp x = max (\<lfloor>log 2 \<bar>x\<bar>\<rfloor> - 52) (- 1074)"

definition f64_round :: "real \<Rightarrow> real" where
  "f64_round x = (if x = 0 then 0
     else of_int (round_even (x / 2 powi (ulp_exp x))) * 2 powi (ulp_exp x))"

text \<open>A code equation that finds the exponent of a rational number by the lengths of integers.\<close>

lemma bitlen_power_bounds:
  assumes "0 < n"
  shows "2 ^ nat (bitlen n - 1) \<le> (of_int n :: real)" and "(of_int n + 1 :: real) \<le> 2 ^ nat (bitlen n)"
    and "1 \<le> bitlen n"
proof -
  have "2 ^ nat (bitlen n - 1) \<le> n" "n + 1 \<le> 2 ^ nat (bitlen n)"
    using bitlen_bounds [OF assms] by linarith+
  then have "of_int (2 ^ nat (bitlen n - 1)) \<le> (of_int n :: real)"
    "of_int (n + 1) \<le> (of_int (2 ^ nat (bitlen n)) :: real)"
    by (simp_all only: of_int_le_iff)
  then show "2 ^ nat (bitlen n - 1) \<le> (of_int n :: real)" "(of_int n + 1 :: real) \<le> 2 ^ nat (bitlen n)"
    by simp_all
  show "1 \<le> bitlen n" using assms by (simp add: bitlen_alt_def)
qed

lemma log2_between:
  assumes "0 < x"
  shows "2 ^ m \<le> x \<Longrightarrow> of_nat m \<le> log 2 x" "x < 2 ^ m \<Longrightarrow> log 2 x < of_nat m"
    "2 ^ m < x \<Longrightarrow> of_nat m < log 2 x" "x \<le> 2 ^ m \<Longrightarrow> log 2 x \<le> of_nat m"
  using assms log_le_cancel_iff [of 2 "2 ^ m" x] log_less_cancel_iff [of 2 x "2 ^ m"]
    log_less_cancel_iff [of 2 "2 ^ m" x] log_le_cancel_iff [of 2 x "2 ^ m"]
  by (simp_all add: log_nat_power)

lemma ceiling_log2:
  assumes "1 < y"
  shows "\<lceil>log 2 y\<rceil> = bitlen (\<lceil>y\<rceil> - 1)"
proof -
  define n where "n = \<lceil>y\<rceil> - 1"
  have n: "0 < n" "of_int n < y" "y \<le> of_int n + 1"
    using assms by (simp_all add: n_def) linarith+
  with bitlen_power_bounds [OF n(1)] have "2 ^ nat (bitlen n - 1) < y" "y \<le> 2 ^ nat (bitlen n)"
    by linarith+
  then have "of_nat (nat (bitlen n - 1)) < log 2 y" "log 2 y \<le> of_nat (nat (bitlen n))"
    using assms by (intro log2_between; simp)+
  then have "\<lceil>log 2 y\<rceil> = bitlen n"
    using bitlen_power_bounds(3) [OF n(1)] by (simp add: ceiling_eq_iff)
  then show ?thesis by (simp add: n_def)
qed

lemma floor_log2:
  assumes "1 \<le> a"
  shows "\<lfloor>log 2 a\<rfloor> = bitlen \<lfloor>a\<rfloor> - 1"
proof -
  define n where "n = \<lfloor>a\<rfloor>"
  have n: "0 < n" "of_int n \<le> a" "a < of_int n + 1"
    using assms by (simp_all add: n_def)
  with bitlen_power_bounds [OF n(1)] have "2 ^ nat (bitlen n - 1) \<le> a" "a < 2 ^ nat (bitlen n)"
    by linarith+
  then have "of_nat (nat (bitlen n - 1)) \<le> log 2 a" "log 2 a < of_nat (nat (bitlen n))"
    using assms by (intro log2_between; simp)+
  then have "\<lfloor>log 2 a\<rfloor> = bitlen n - 1"
    using bitlen_power_bounds(3) [OF n(1)] by (simp add: floor_eq_iff)
  then show ?thesis by (simp add: n_def)
qed

lemma ulp_exp_code [code]:
  "ulp_exp x = (let a = \<bar>x\<bar> in
     max ((if a = 0 then 0 else if 1 \<le> a then bitlen \<lfloor>a\<rfloor> - 1 else - bitlen (\<lceil>1 / a\<rceil> - 1)) - 52) (- 1074))"
proof -
  have "\<lfloor>log 2 a\<rfloor> = - bitlen (\<lceil>1 / a\<rceil> - 1)" if "0 < a" "a < 1" for a :: real
  proof -
    have "\<lceil>- log 2 a\<rceil> = bitlen (\<lceil>1 / a\<rceil> - 1)"
      using that ceiling_log2 [of "1 / a"] by (simp add: log_divide)
    then show ?thesis unfolding ceiling_minus by linarith
  qed
  from this [of "\<bar>x\<bar>"] floor_log2 [of "\<bar>x\<bar>"] show ?thesis
    by (cases "x = 0") (simp_all add: ulp_exp_def Let_def log_def)
qed

lemma round_even_error: "\<bar>of_int (round_even x) - x\<bar> \<le> 1 / 2"
proof -
  have "of_int \<lfloor>x\<rfloor> \<le> x" "x < of_int \<lfloor>x\<rfloor> + 1"
    by (simp_all add: floor_correct)
  then show ?thesis
    unfolding round_even_def Let_def by (auto split: if_splits)
qed

lemma round_even_int [simp]: "round_even (of_int k) = k"
  by (simp add: round_even_def)

lemma round_even_mono: "x \<le> y \<Longrightarrow> round_even x \<le> round_even y"
proof -
  assume le: "x \<le> y"
  have fl: "\<lfloor>x\<rfloor> \<le> \<lfloor>y\<rfloor>" using le by (rule floor_mono)
  show ?thesis
  proof (cases "\<lfloor>x\<rfloor> = \<lfloor>y\<rfloor>")
    case True
    with le show ?thesis by (simp add: round_even_def Let_def)
  next
    case False
    with fl have "\<lfloor>x\<rfloor> + 1 \<le> \<lfloor>y\<rfloor>" by simp
    moreover have "round_even x \<le> \<lfloor>x\<rfloor> + 1" "\<lfloor>y\<rfloor> \<le> round_even y"
      by (simp_all add: round_even_def Let_def)
    ultimately show ?thesis by simp
  qed
qed

lemma ulp_exp_mono: "0 < \<bar>x\<bar> \<Longrightarrow> \<bar>x\<bar> \<le> \<bar>y\<bar> \<Longrightarrow> ulp_exp x \<le> ulp_exp y"
proof -
  assume "0 < \<bar>x\<bar>" "\<bar>x\<bar> \<le> \<bar>y\<bar>"
  then have "\<lfloor>log 2 \<bar>x\<bar>\<rfloor> \<le> \<lfloor>log 2 \<bar>y\<bar>\<rfloor>"
    by (intro floor_mono) simp
  then show ?thesis by (simp add: ulp_exp_def)
qed

lemma floor_log2_bounds:
  assumes "0 < x"
  shows "2 powi \<lfloor>log 2 x\<rfloor> \<le> x" and "x < 2 powi (\<lfloor>log 2 x\<rfloor> + 1)"
proof -
  have "2 powr of_int \<lfloor>log 2 x\<rfloor> \<le> 2 powr (log 2 x)"
    by (intro powr_mono) (simp_all add: floor_correct)
  with assms show "2 powi \<lfloor>log 2 x\<rfloor> \<le> x"
    by (simp add: powr_real_of_int')
  have "2 powr (log 2 x) < 2 powr of_int (\<lfloor>log 2 x\<rfloor> + 1)"
    by (intro powr_less_mono) (simp_all add: floor_correct)
  with assms show "x < 2 powi (\<lfloor>log 2 x\<rfloor> + 1)"
    using powr_real_of_int' [of "2" "\<lfloor>log 2 x\<rfloor> + 1"] by simp
qed

lemma f64_round_0 [simp]: "f64_round 0 = 0"
  by (simp add: f64_round_def)

lemma f64_round_error_ulp: "\<bar>f64_round x - x\<bar> \<le> 2 powi (ulp_exp x) / 2"
proof (cases "x = 0")
  case False
  let ?u = "2 powi (ulp_exp x) :: real"
  have u: "0 < ?u" by simp
  have "f64_round x - x = (of_int (round_even (x / ?u)) - x / ?u) * ?u"
    using False u by (simp add: f64_round_def field_simps)
  then have "\<bar>f64_round x - x\<bar> = \<bar>of_int (round_even (x / ?u)) - x / ?u\<bar> * ?u"
    using u by (simp add: abs_mult)
  also have "\<dots> \<le> 1 / 2 * ?u"
    using round_even_error u by (intro mult_right_mono) simp_all
  finally show ?thesis by simp
qed simp

text \<open>The relative error bound, and an absolute one in the subnormal range.\<close>

definition unit_roundoff :: real where "unit_roundoff = 2 powi (- 53)"
definition tiny :: real where "tiny = 2 powi (- 1075)"

text \<open>The least normal value.\<close>

definition normal_min :: real where "normal_min = 2 powi (- 1022)"

lemma normal_min_le_nano: "normal_min \<le> 1 / 2000000000"
  by (simp add: normal_min_def)

lemma unit_roundoff_bounds:
  "0 < unit_roundoff" "unit_roundoff < 1 / 2 ^ 52" "unit_roundoff < 1 / 8"
  by (simp_all add: unit_roundoff_def)

lemma tiny_pos: "0 < tiny"
  by (simp add: tiny_def)

lemma f64_round_error:
  assumes "0 \<le> x"
  shows "\<bar>f64_round x - x\<bar> \<le> unit_roundoff * x + tiny"
proof (cases "x = 0")
  case False
  with assms have x: "0 < x" by simp
  have "2 powi (ulp_exp x) / 2 \<le> unit_roundoff * x + tiny"
  proof (cases "ulp_exp x = - 1074")
    case True
    have "(2::real) powi (- 1074) / 2 = tiny"
      by (simp add: tiny_def)
    with True x unit_roundoff_bounds show ?thesis by simp
  next
    case False
    then have "ulp_exp x = \<lfloor>log 2 x\<rfloor> - 52"
      using x by (simp add: ulp_exp_def max_def split: if_splits)
    then have "2 powi (ulp_exp x) / 2 = unit_roundoff * 2 powi \<lfloor>log 2 x\<rfloor>"
      by (simp add: power_int_diff power_int_minus unit_roundoff_def)
    also have "\<dots> \<le> unit_roundoff * x"
      using floor_log2_bounds(1) [OF x] unit_roundoff_bounds by (intro mult_left_mono) simp_all
    also have "\<dots> \<le> unit_roundoff * x + tiny" using tiny_pos by simp
    finally show ?thesis .
  qed
  with f64_round_error_ulp [of x] show ?thesis by linarith
qed (use tiny_pos in simp)

text \<open>Rounding does not step over a multiple of the unit in the last place.\<close>

lemma f64_round_le_multiple:
  assumes "x \<noteq> 0" and "x \<le> of_int k * 2 powi (ulp_exp x)"
  shows "f64_round x \<le> of_int k * 2 powi (ulp_exp x)"
proof -
  have "x / 2 powi (ulp_exp x) \<le> of_int k"
    using assms(2) by (simp add: field_simps)
  then have "round_even (x / 2 powi (ulp_exp x)) \<le> k"
    using round_even_mono [of _ "of_int k"] by fastforce
  with assms(1) show ?thesis
    by (simp add: f64_round_def)
qed

lemma f64_round_ge_multiple:
  assumes "x \<noteq> 0" and "of_int k * 2 powi (ulp_exp x) \<le> x"
  shows "of_int k * 2 powi (ulp_exp x) \<le> f64_round x"
proof -
  have "of_int k \<le> x / 2 powi (ulp_exp x)"
    using assms(2) by (simp add: field_simps)
  then have "k \<le> round_even (x / 2 powi (ulp_exp x))"
    using round_even_mono [of "of_int k"] by fastforce
  with assms(1) show ?thesis
    by (simp add: f64_round_def)
qed

lemma f64_round_nonneg: "0 \<le> x \<Longrightarrow> 0 \<le> f64_round x"
  using f64_round_ge_multiple [of x 0] by (cases "x = 0") auto

lemma powi_as_multiple: "q \<le> e \<Longrightarrow> (2::real) powi e = of_int (2 ^ nat (e - q)) * 2 powi q"
proof -
  assume "q \<le> e"
  then have "(2::real) powi e = 2 powi (e - q) * 2 powi q"
    by (simp flip: power_int_add)
  with \<open>q \<le> e\<close> show ?thesis by (simp add: power_int_def)
qed

lemma f64_round_mono:
  assumes "0 \<le> x" and "x \<le> y"
  shows "f64_round x \<le> f64_round y"
proof (cases "x = 0")
  case True
  with assms show ?thesis by (simp add: f64_round_nonneg)
next
  case False
  with assms have xy: "0 < x" "0 < y" by auto
  show ?thesis
  proof (cases "ulp_exp x = ulp_exp y")
    case True
    have "round_even (x / 2 powi (ulp_exp y)) \<le> round_even (y / 2 powi (ulp_exp y))"
      using assms(2) by (intro round_even_mono divide_right_mono) simp_all
    with True xy show ?thesis by (simp add: f64_round_def)
  next
    case False
    with ulp_exp_mono [of x y] xy assms(2) have less: "ulp_exp x < ulp_exp y" by simp
    define e where "e = \<lfloor>log 2 y\<rfloor>"
    have ye: "ulp_exp y = e - 52"
      using less xy by (auto simp: ulp_exp_def e_def max_def split: if_splits)
    have "\<lfloor>log 2 x\<rfloor> < e"
      using less xy by (auto simp: ulp_exp_def e_def)
    then have "2 powi (\<lfloor>log 2 x\<rfloor> + 1) \<le> (2::real) powi e"
      by (intro power_int_increasing) simp_all
    with floor_log2_bounds(2) [OF xy(1)] have xe: "x \<le> 2 powi e" by simp
    have "f64_round x \<le> 2 powi e"
      using f64_round_le_multiple [of x "2 ^ nat (e - ulp_exp x)"] xe xy less ye
        powi_as_multiple [of "ulp_exp x" e] by simp
    also have "\<dots> \<le> f64_round y"
      using f64_round_ge_multiple [of y "2 ^ nat (e - ulp_exp y)"] xy ye
        powi_as_multiple [of "ulp_exp y" e] floor_log2_bounds(1) [OF xy(2)] by (simp add: e_def)
    finally show ?thesis .
  qed
qed

text \<open>A value with at most 53 significant bits is kept: integers up to \<open>2 ^ 53\<close> are.\<close>

lemma f64_round_exact:
  assumes "0 \<le> m" and "m < 2 ^ 53" and "- 1074 \<le> q"
  shows "f64_round (of_int m * 2 powi q) = of_int m * 2 powi q"
proof (cases "m = 0")
  case False
  with assms(1) have m: "0 < m" by simp
  let ?x = "of_int m * 2 powi q :: real"
  have x: "0 < ?x" using m by simp
  have "?x < 2 ^ 53 * 2 powi q"
    using assms(2) by (intro mult_strict_right_mono) (simp_all flip: of_int_less_iff)
  then have "?x < 2 powi (53 + q)" by (simp add: power_int_add)
  with floor_log2_bounds(1) [OF x] have "(2::real) powi \<lfloor>log 2 ?x\<rfloor> < 2 powi (53 + q)"
    by simp
  then have "\<lfloor>log 2 ?x\<rfloor> < 53 + q"
    using power_int_increasing [of "53 + q" "\<lfloor>log 2 ?x\<rfloor>" "2::real"] by linarith
  with assms(3) x have le: "ulp_exp ?x \<le> q"
    by (simp add: ulp_exp_def)
  have "?x = of_int (m * 2 ^ nat (q - ulp_exp ?x)) * 2 powi (ulp_exp ?x)"
    using powi_as_multiple [OF le] by simp
  then have "?x / 2 powi (ulp_exp ?x) = of_int (m * 2 ^ nat (q - ulp_exp ?x))"
    by (simp add: field_simps)
  then show ?thesis
    using x \<open>?x = _\<close> by (metis f64_round_def less_irrefl round_even_int)
qed simp

lemma f64_round_idem:
  assumes "0 \<le> x"
  shows "f64_round (f64_round x) = f64_round x"
proof (cases "x = 0")
  case False
  with assms have x: "0 < x" by simp
  define q where "q = ulp_exp x"
  define k where "k = round_even (x / 2 powi q)"
  have fx: "f64_round x = of_int k * 2 powi q"
    using x by (simp add: f64_round_def q_def k_def)
  have q: "- 1074 \<le> q" "\<lfloor>log 2 x\<rfloor> + 1 \<le> q + 53"
    using x by (auto simp: q_def ulp_exp_def)
  have "x < 2 powi (q + 53)"
    using floor_log2_bounds(2) [OF x] power_int_increasing [OF q(2), of "2::real"] by simp
  then have "x / 2 powi q \<le> of_int (2 ^ 53)"
    by (simp add: power_int_add field_simps)
  then have "k \<le> 2 ^ 53"
    unfolding k_def using round_even_mono [of "x / 2 powi q" "of_int (2 ^ 53)"] round_even_int [of "2 ^ 53"]
    by linarith
  moreover have "0 \<le> k"
    unfolding k_def using round_even_mono [of 0 "x / 2 powi q"] round_even_int [of 0] x by simp
  moreover have "f64_round (of_int (2 ^ 53) * 2 powi q) = of_int (2 ^ 53) * 2 powi q"
    using f64_round_exact [of "2 ^ 52" "q + 1"] q(1) by (simp add: power_int_add)
  ultimately show ?thesis
    using f64_round_exact [of k q] q(1) fx by (cases "k = 2 ^ 53") auto
qed simp

lemma f64_round_of_nat: "n < 2 ^ 53 \<Longrightarrow> f64_round (of_nat n) = of_nat n"
  using f64_round_exact [of "int n" 0] by simp

lemma f64_round_relative:
  assumes "normal_min \<le> x"
  shows "\<bar>f64_round x - x\<bar> \<le> unit_roundoff * x"
proof -
  have x: "0 < x"
    using assms by (rule less_le_trans [rotated]) (simp add: normal_min_def)
  have "(2::real) powi (- 1022) < 2 powi (\<lfloor>log 2 x\<rfloor> + 1)"
    using assms floor_log2_bounds(2) [OF x] unfolding normal_min_def by (rule le_less_trans)
  then have "- 1022 \<le> \<lfloor>log 2 x\<rfloor>"
    using power_int_increasing [of "\<lfloor>log 2 x\<rfloor> + 1" "- 1022" "2::real"] by linarith
  then have "ulp_exp x = \<lfloor>log 2 x\<rfloor> - 52"
    using x unfolding ulp_exp_def by linarith
  then have "2 powi (ulp_exp x) / 2 = unit_roundoff * 2 powi \<lfloor>log 2 x\<rfloor>"
    by (simp add: power_int_diff power_int_minus unit_roundoff_def)
  also have "\<dots> \<le> unit_roundoff * x"
    using floor_log2_bounds(1) [OF x] unit_roundoff_bounds by (intro mult_left_mono) simp_all
  finally show ?thesis
    using f64_round_error_ulp [of x] by linarith
qed

subsection \<open>What a client of the arithmetic relies on\<close>

locale rounding =
  fixes rnd :: "real \<Rightarrow> real"
  assumes rnd_zero: "rnd 0 = 0"
    and rnd_mono: "0 \<le> x \<Longrightarrow> x \<le> y \<Longrightarrow> rnd x \<le> rnd y"
    and rnd_idem: "0 \<le> x \<Longrightarrow> rnd (rnd x) = rnd x"
    and rnd_error: "0 \<le> x \<Longrightarrow> \<bar>rnd x - x\<bar> \<le> unit_roundoff * x + tiny"
    and rnd_relative: "normal_min \<le> x \<Longrightarrow> \<bar>rnd x - x\<bar> \<le> unit_roundoff * x"
    and rnd_nat: "n < 2 ^ 53 \<Longrightarrow> rnd (of_nat n) = of_nat n"
begin

lemma rnd_nonneg: "0 \<le> x \<Longrightarrow> 0 \<le> rnd x"
  using rnd_mono [of 0 x] by (simp add: rnd_zero)

lemma rnd_upper: "0 \<le> x \<Longrightarrow> rnd x \<le> x + unit_roundoff * x + tiny"
  using rnd_error [of x] by linarith

lemma rnd_le_fixed: "0 \<le> x \<Longrightarrow> x \<le> c \<Longrightarrow> rnd c = c \<Longrightarrow> rnd x \<le> c"
  using rnd_mono [of x c] by simp

end

interpretation float64: rounding f64_round
  by unfold_locales
    (auto simp: f64_round_mono f64_round_idem f64_round_error f64_round_of_nat f64_round_relative)

end
