(* ===== verification/Go_Time.thy ===== *)
theory Go_Time
  imports Go_Strings
begin

text \<open>
  Go's \<open>time\<close> package, as far as the gateway uses it. A \<open>time.Time\<close> is its number of nanoseconds
  since the Unix epoch, a \<open>time.Duration\<close> a number of nanoseconds. One clock is modelled, so the
  monotonic reading that Go keeps beside the wall clock is the same number. A component that reads
  the clock several times in one operation takes the readings as a function \<open>nat \<Rightarrow> time\<close>: reading
  number 0, 1, 2 and so on, with no assumption on how they are related.
\<close>

type_synonym time = int
type_synonym duration = int

abbreviation Millisecond :: duration where "Millisecond \<equiv> 1000000"
abbreviation Second :: duration where "Second \<equiv> 1000000000"
abbreviation Minute :: duration where "Minute \<equiv> 60 * Second"
abbreviation Hour :: duration where "Hour \<equiv> 60 * Minute"

text \<open>\<open>time.Time{}\<close>, the zero time: midnight of 1 January of the year 1.\<close>

definition zero_time :: time where
  "zero_time = - 62135596800 * Second"

text \<open>\<open>Time.Sub\<close> saturates at the ends of the 64-bit \<open>Duration\<close>.\<close>

definition time_sub :: "time \<Rightarrow> time \<Rightarrow> duration" where
  "time_sub t u = max int_min (min int_max (t - u))"

text \<open>\<open>Time.UnixMilli\<close> rounds towards minus infinity, as \<open>div\<close> does.\<close>

definition UnixMilli :: "time \<Rightarrow> int" where
  "UnixMilli t = t div Millisecond"

lemma UnixMilli_mono: "t \<le> u \<Longrightarrow> UnixMilli t \<le> UnixMilli u"
  by (simp add: UnixMilli_def zdiv_mono1)

lemma UnixMilli_bounds:
  "UnixMilli t * Millisecond \<le> t" "t < (UnixMilli t + 1) * Millisecond"
  by (simp_all add: UnixMilli_def)

lemma UnixMilli_less: "UnixMilli t < UnixMilli u \<Longrightarrow> t < u"
  using UnixMilli_mono [of u t] by linarith

lemma time_sub_exact:
  "int_min \<le> t - u \<Longrightarrow> t - u \<le> int_max \<Longrightarrow> time_sub t u = t - u"
  by (simp add: time_sub_def)

text \<open>Comparing a difference with a duration is not affected by the saturation.\<close>

lemma time_sub_less_iff:
  "int_min < d \<Longrightarrow> d \<le> int_max \<Longrightarrow> time_sub t u < d \<longleftrightarrow> t - u < d"
  by (auto simp: time_sub_def)

subsection \<open>The layout \<open>time.RFC3339\<close> in UTC\<close>

text \<open>The civil date of a number of days since the epoch, in the proleptic Gregorian calendar.\<close>

definition civil :: "int \<Rightarrow> int \<times> int \<times> int" where
  "civil days =
     (let z = days + 719468;
          era = z div 146097;
          doe = z mod 146097;
          yoe = (doe - doe div 1460 + doe div 36524 - doe div 146096) div 365;
          doy = doe - (365 * yoe + yoe div 4 - yoe div 100);
          mp = (5 * doy + 2) div 153;
          d = doy - (153 * mp + 2) div 5 + 1;
          m = (if mp < 10 then mp + 3 else mp - 9)
      in ((yoe + era * 400) + (if m \<le> 2 then 1 else 0), m, d))"

definition pad :: "nat \<Rightarrow> int \<Rightarrow> string" where
  "pad w i = (let s = show_int i in replicate (w - length s) (CHR ''0'') @ s)"

definition format_RFC3339 :: "time \<Rightarrow> string" where
  "format_RFC3339 t =
     (let secs = t div Second; (y, m, d) = civil (secs div 86400); sod = secs mod 86400
      in pad 4 y @ ''-'' @ pad 2 m @ ''-'' @ pad 2 d @ ''T'' @ pad 2 (sod div 3600) @ '':''
           @ pad 2 (sod mod 3600 div 60) @ '':'' @ pad 2 (sod mod 60) @ ''Z'')"

lemma format_RFC3339_example:
  "format_RFC3339 (1767225599 * Second + 5) = ''2025-12-31T23:59:59Z''"
  by code_simp

end
