(* ===== verification/RateLimit.thy ===== *)
theory RateLimit
  imports Float64 Go_Time
begin

text \<open>
  \<open>api/ratelimit.go\<close>: the token-bucket limiter keyed by a string. The limiter's map of buckets is an
  association list; \<open>Allow\<close> takes the reading of the clock and the order in which Go visits the map
  when it looks for the oldest bucket. \<open>None\<close> is the nil limiter, which allows everything.

  The invariant \<open>limiter_ok\<close> bounds the map and every bucket; \<open>Allow\<close> keeps it. The functional
  lemmas say when a request is admitted and that a visit does not touch another key's bucket. The
  run lemmas bound how many requests of one key a sequence of calls can admit, as long as the calls come from
  no more keys than the map holds.
\<close>

record bucket =
  tokens :: real
  lastSeen :: time

record rate_limiter =
  buckets :: "(string \<times> bucket) list"
  rate :: real
  capacity :: real
  evictAfter :: duration
  lastEvict :: time
  maxBuckets :: int

definition defaultMaxBuckets :: int where
  "defaultMaxBuckets = 10000"

definition NewRateLimiter :: "real \<Rightarrow> real \<Rightarrow> rate_limiter option" where
  "NewRateLimiter rps burst =
     (if rps \<le> 0 \<or> burst \<le> 0 then None
      else Some \<lparr>buckets = [], rate = rps, capacity = burst, evictAfter = 10 * Minute,
                 lastEvict = zero_time, maxBuckets = defaultMaxBuckets\<rparr>)"

text \<open>\<open>Duration.Seconds\<close>: Go's integer division truncates, and the two parts are floats.\<close>

definition quot :: "int \<Rightarrow> int \<Rightarrow> int" where
  "quot a b = sgn a * sgn b * (\<bar>a\<bar> div \<bar>b\<bar>)"

definition rem :: "int \<Rightarrow> int \<Rightarrow> int" where
  "rem a b = a - quot a b * b"

definition Seconds :: "duration \<Rightarrow> real" where
  "Seconds d = f64_round (of_int (quot d Second) + f64_round (of_int (rem d Second) / of_int Second))"

definition maybeEvict :: "time \<Rightarrow> rate_limiter \<Rightarrow> rate_limiter" where
  "maybeEvict now r =
     (if time_sub now (lastEvict r) < evictAfter r then r
      else let cutoff = now - evictAfter r
           in r\<lparr>lastEvict := now, buckets := filter (\<lambda>(k, b). \<not> lastSeen b < cutoff) (buckets r)\<rparr>)"

text \<open>The entries of the map in the order Go visits them.\<close>

definition visited :: "string list \<Rightarrow> (string \<times> 'v) list \<Rightarrow> (string \<times> 'v) list" where
  "visited order m =
     concat (map (\<lambda>k. case map_of m k of None \<Rightarrow> [] | Some b \<Rightarrow> [(k, b)]) order)"

fun oldest :: "(string \<times> bucket) list \<Rightarrow> (string \<times> time) option \<Rightarrow> (string \<times> time) option" where
  "oldest [] found = found"
| "oldest ((k, b) # es) found = (case found of
       None \<Rightarrow> oldest es (Some (k, lastSeen b))
     | Some (oldestKey, oldestTime) \<Rightarrow>
         if lastSeen b < oldestTime then oldest es (Some (k, lastSeen b)) else oldest es found)"

definition forceEvict :: "string list \<Rightarrow> time \<Rightarrow> rate_limiter \<Rightarrow> rate_limiter" where
  "forceEvict order now r =
     (let cutoff = now - evictAfter r;
          r = r\<lparr>lastEvict := now, buckets := filter (\<lambda>(k, b). \<not> lastSeen b < cutoff) (buckets r)\<rparr>
      in if maxBuckets r \<le> 0 \<or> int (length (buckets r)) < maxBuckets r then r
         else case oldest (visited order (buckets r)) None of
                None \<Rightarrow> r
              | Some (oldestKey, _) \<Rightarrow> r\<lparr>buckets := AList.delete oldestKey (buckets r)\<rparr>)"

text \<open>The tokens a bucket holds after the refill at \<open>now\<close>.\<close>

definition refill :: "rate_limiter \<Rightarrow> time \<Rightarrow> bucket \<Rightarrow> bucket" where
  "refill r now b =
     (let elapsed = Seconds (time_sub now (lastSeen b))
      in \<lparr>tokens = min (capacity r) (f64_round (tokens b + f64_round (elapsed * rate r))),
          lastSeen = now\<rparr>)"

text \<open>
  The bucket is a pointer that the map shares, so the decrement reaches the map only while the key
  is still there; \<open>maybeEvict\<close> runs between the refill and the decrement.
\<close>

definition allow_live :: "string list \<Rightarrow> time \<Rightarrow> rate_limiter \<Rightarrow> string \<Rightarrow> bool \<times> rate_limiter" where
  "allow_live order now r key =
     (let (r, b) = (case map_of (buckets r) key of
            Some b \<Rightarrow> (r, b)
          | None \<Rightarrow>
              let r = (if maxBuckets r > 0 \<and> int (length (buckets r)) \<ge> maxBuckets r
                       then forceEvict order now r else r);
                  b = \<lparr>tokens = capacity r, lastSeen = now\<rparr>
              in (r\<lparr>buckets := AList.update key b (buckets r)\<rparr>, b));
          b = refill r now b;
          r = r\<lparr>buckets := AList.update key b (buckets r)\<rparr>;
          r = maybeEvict now r
      in if tokens b < 1 then (False, r)
         else (True, if map_of (buckets r) key = None then r
                     else r\<lparr>buckets := AList.update key
                               (b\<lparr>tokens := f64_round (tokens b - 1)\<rparr>) (buckets r)\<rparr>))"

definition Allow :: "string list \<Rightarrow> time \<Rightarrow> rate_limiter option \<Rightarrow> string \<Rightarrow> bool \<times> rate_limiter option" where
  "Allow order now r key = (case r of
       None \<Rightarrow> (True, None)
     | Some r \<Rightarrow> let (ok, r) = allow_live order now r key in (ok, Some r))"

subsection \<open>The arithmetic of a refill\<close>

lemma quot_nonneg: "0 \<le> a \<Longrightarrow> 0 < b \<Longrightarrow> quot a b = a div b"
  by (cases "a = 0") (simp_all add: quot_def)

lemma rem_nonneg: "0 \<le> a \<Longrightarrow> 0 < b \<Longrightarrow> rem a b = a mod b"
  by (simp add: rem_def quot_nonneg minus_div_mult_eq_mod)

lemma Seconds_0 [simp]: "Seconds 0 = 0"
  by (simp add: Seconds_def quot_def rem_def)

lemma Seconds_mono:
  assumes "0 \<le> d" and "d \<le> e"
  shows "Seconds d \<le> Seconds e"
proof -
  let ?f = "\<lambda>d::int. of_int (d mod Second) / of_int Second :: real"
  have sec: "0 \<le> x \<Longrightarrow> Seconds x = f64_round (of_int (x div Second) + f64_round (?f x))" for x
    by (simp add: Seconds_def quot_nonneg rem_nonneg)
  have f: "0 \<le> ?f x" "?f x \<le> 1" for x
    using pos_mod_bound [of Second x] by (simp_all add: order.strict_implies_order)
  have rnd1: "f64_round (?f x) \<le> 1" for x
    using float64.rnd_le_fixed [OF f(1) f(2), of x] float64.rnd_nat [of 1] by simp
  have "of_int (d div Second) + f64_round (?f d) \<le> of_int (e div Second) + f64_round (?f e)"
  proof (cases "d div Second = e div Second")
    case True
    then have "d mod Second \<le> e mod Second"
      using assms(2) by (metis add_le_cancel_left div_mult_mod_eq)
    then have "f64_round (?f d) \<le> f64_round (?f e)"
      using f by (intro float64.rnd_mono divide_right_mono) simp_all
    with True show ?thesis by simp
  next
    case False
    with assms have "d div Second + 1 \<le> e div Second"
      by (metis add1_zle_eq less_le zdiv_mono1 zero_less_numeral)
    then have "of_int (d div Second) + 1 \<le> (of_int (e div Second) :: real)"
      by (metis of_int_1 of_int_add of_int_le_iff)
    with rnd1 [of d] float64.rnd_nonneg [OF f(1), of e] show ?thesis by linarith
  qed
  moreover have "0 \<le> of_int (d div Second) + f64_round (?f d)"
    using assms(1) float64.rnd_nonneg [OF f(1), of d] by (simp add: pos_imp_zdiv_nonneg_iff)
  ultimately show ?thesis
    using assms by (simp add: sec float64.rnd_mono)
qed

lemma Seconds_nonneg: "0 \<le> d \<Longrightarrow> 0 \<le> Seconds d"
  using Seconds_mono [of 0 d] by simp

subsection \<open>The invariant\<close>

definition bucket_ok :: "rate_limiter \<Rightarrow> time \<Rightarrow> bucket \<Rightarrow> bool" where
  "bucket_ok r now b \<longleftrightarrow> 0 \<le> tokens b \<and> tokens b \<le> capacity r \<and> lastSeen b \<le> now"

definition config_ok :: "rate_limiter \<Rightarrow> bool" where
  "config_ok r \<longleftrightarrow> 0 < rate r \<and> 0 < capacity r \<and> f64_round (capacity r) = capacity r
     \<and> 0 \<le> evictAfter r \<and> evictAfter r \<le> int_max"

definition limiter_ok :: "time \<Rightarrow> rate_limiter \<Rightarrow> bool" where
  "limiter_ok now r \<longleftrightarrow> config_ok r \<and> distinct_keys (buckets r)
     \<and> (\<forall>(k, b) \<in> set (buckets r). bucket_ok r now b)
     \<and> (0 < maxBuckets r \<longrightarrow> int (length (buckets r)) \<le> maxBuckets r)"

text \<open>\<open>order\<close> is a visiting order of a map with at least the keys of \<open>m\<close>.\<close>

definition visits_all :: "string list \<Rightarrow> (string \<times> 'v) list \<Rightarrow> bool" where
  "visits_all order m \<longleftrightarrow> set (keys m) \<subseteq> set order"

lemma bucket_ok_cong [simp]:
  "bucket_ok (r\<lparr>buckets := m\<rparr>) = bucket_ok r" "bucket_ok (r\<lparr>lastEvict := t\<rparr>) = bucket_ok r"
  by (simp_all add: bucket_ok_def fun_eq_iff)

lemma config_ok_cong [simp]:
  "config_ok (r\<lparr>buckets := m\<rparr>) = config_ok r" "config_ok (r\<lparr>lastEvict := t\<rparr>) = config_ok r"
  by (simp_all add: config_ok_def)

lemma refill_cong [simp]:
  "refill (r\<lparr>buckets := m\<rparr>) = refill r" "refill (r\<lparr>lastEvict := t\<rparr>) = refill r"
  by (simp_all add: refill_def fun_eq_iff)

lemma bucket_ok_later: "bucket_ok r t b \<Longrightarrow> t \<le> now \<Longrightarrow> bucket_ok r now b"
  by (simp add: bucket_ok_def)

lemma limiter_ok_later: "limiter_ok t r \<Longrightarrow> t \<le> now \<Longrightarrow> limiter_ok now r"
  by (force simp: limiter_ok_def intro: bucket_ok_later)

lemma limiter_ok_lookup:
  "limiter_ok now r \<Longrightarrow> map_of (buckets r) k = Some b \<Longrightarrow> bucket_ok r now b"
  by (auto simp: limiter_ok_def dest!: map_of_SomeD)

lemma time_sub_elapsed: "t \<le> now \<Longrightarrow> 0 \<le> time_sub now t"
  by (simp add: time_sub_def)

lemma lastSeen_refill [simp]: "lastSeen (refill r now b) = now"
  by (simp add: refill_def Let_def)

lemma refill_grows_nonneg:
  assumes "config_ok r" and "bucket_ok r now b"
  shows "0 \<le> tokens b + f64_round (Seconds (time_sub now (lastSeen b)) * rate r)"
proof -
  have "0 \<le> Seconds (time_sub now (lastSeen b)) * rate r"
    using assms by (intro mult_nonneg_nonneg Seconds_nonneg time_sub_elapsed)
      (simp_all add: bucket_ok_def config_ok_def)
  with assms show ?thesis
    by (simp add: float64.rnd_nonneg bucket_ok_def)
qed

lemma refill_ok [store_inv]:
  assumes "config_ok r" and "bucket_ok r now b"
  shows "bucket_ok r now (refill r now b)"
  using assms float64.rnd_nonneg [OF refill_grows_nonneg [OF assms]]
  by (simp add: bucket_ok_def refill_def Let_def config_ok_def)

lemma take_ok:
  assumes "config_ok r" and "bucket_ok r now b" and "1 \<le> tokens b"
  shows "bucket_ok r now (b\<lparr>tokens := f64_round (tokens b - 1)\<rparr>)"
proof -
  have "f64_round (tokens b - 1) \<le> capacity r"
    using assms by (intro float64.rnd_le_fixed) (simp_all add: bucket_ok_def config_ok_def)
  with assms show ?thesis
    by (simp add: bucket_ok_def float64.rnd_nonneg)
qed

lemma maybeEvict_ok [store_inv]: "limiter_ok now r \<Longrightarrow> limiter_ok now (maybeEvict now r)"
  by (auto simp: limiter_ok_def maybeEvict_def Let_def intro: order_trans [OF _ of_nat_le_iff [THEN iffD2]])
    (metis length_filter_le of_nat_le_iff order_trans)

subsection \<open>Making room\<close>

lemma visited_in: "(k, b) \<in> set (visited order m) \<longleftrightarrow> k \<in> set order \<and> map_of m k = Some b"
  by (force simp: visited_def split: option.splits)

lemma oldest_Some:
  "oldest es (Some (k, t)) = Some (k', t') \<Longrightarrow>
     ((k', t') = (k, t) \<or> (\<exists>b. (k', b) \<in> set es \<and> lastSeen b = t'))
       \<and> t' \<le> t \<and> (\<forall>(j, b) \<in> set es. t' \<le> lastSeen b)"
proof (induction es arbitrary: k t)
  case (Cons e es)
  obtain j b where e: "e = (j, b)" by (cases e)
  show ?case
  proof (cases "lastSeen b < t")
    case True
    with Cons.prems e have "oldest es (Some (j, lastSeen b)) = Some (k', t')" by simp
    from Cons.IH [OF this] True e show ?thesis by auto
  next
    case False
    with Cons.prems e have "oldest es (Some (k, t)) = Some (k', t')" by simp
    from Cons.IH [OF this] False e show ?thesis by auto
  qed
qed simp

lemma oldest_not_None: "oldest es (Some x) \<noteq> None"
  by (induction es arbitrary: x) (auto split: prod.splits)

text \<open>The scan finds an entry of the map that was seen no later than any other.\<close>

lemma oldest_is_least:
  assumes "visits_all order m" and "m \<noteq> []" and "distinct_keys m"
  shows "\<exists>k b. oldest (visited order m) None = Some (k, lastSeen b) \<and> map_of m k = Some b
    \<and> (\<forall>(j, c) \<in> set m. lastSeen b \<le> lastSeen c)"
proof -
  obtain k0 b0 m' where m: "m = (k0, b0) # m'"
    using assms(2) by (cases m) auto
  then have "(k0, b0) \<in> set (visited order m)"
    using assms(1) by (auto simp: visited_in visits_all_def)
  then obtain j c es where v: "visited order m = (j, c) # es"
    by (cases "visited order m") auto
  then obtain k t where o: "oldest (visited order m) None = Some (k, t)"
    using oldest_not_None [of es "(j, lastSeen c)"] by auto
  then have "((k, t) = (j, lastSeen c) \<or> (\<exists>b. (k, b) \<in> set es \<and> lastSeen b = t)) \<and> t \<le> lastSeen c
      \<and> (\<forall>(j, b) \<in> set es. t \<le> lastSeen b)"
    using v by (intro oldest_Some) simp
  then obtain b where b: "(k, b) \<in> set (visited order m)" "lastSeen b = t"
    and least: "\<forall>(j, b) \<in> set (visited order m). t \<le> lastSeen b"
    using v by auto
  have "(i, d) \<in> set (visited order m)" if "(i, d) \<in> set m" for i d
    using that assms(1,3) by (force simp: visited_in visits_all_def)
  with least have "\<forall>(i, d) \<in> set m. t \<le> lastSeen d" by blast
  moreover from b have "map_of m k = Some b" by (simp add: visited_in)
  ultimately show ?thesis using o b(2) by blast
qed

lemma forceEvict_room:
  assumes "visits_all order (buckets r)" and "distinct_keys (buckets r)" and "0 < maxBuckets r"
    and "int (length (buckets r)) \<le> maxBuckets r"
  shows "int (length (buckets (forceEvict order now r))) < maxBuckets r"
proof -
  define m where "m = filter (\<lambda>(k, b). \<not> lastSeen b < now - evictAfter r) (buckets r)"
  have len: "length m \<le> length (buckets r)" by (simp add: m_def)
  show ?thesis
  proof (cases "int (length m) < maxBuckets r")
    case True
    then show ?thesis by (simp add: forceEvict_def Let_def flip: m_def)
  next
    case False
    with assms(3) have ne: "m \<noteq> []" by auto
    have all: "visits_all order m" using assms(1) by (auto simp: visits_all_def m_def)
    have dist: "distinct_keys m" unfolding m_def using assms(2) by (rule distinct_keys_filter)
    obtain k t where o: "oldest (visited order m) None = Some (k, t)" and "map_of m k \<noteq> None"
      using oldest_is_least [OF all ne dist] by auto
    then have "k \<in> set (keys m)" by (simp add: map_of_eq_None_iff)
    from length_delete_present [OF dist this] have "Suc (length (AList.delete k m)) = length m" .
    moreover have "buckets (forceEvict order now r) = AList.delete k m"
      using False o assms(3) by (simp add: forceEvict_def Let_def flip: m_def)
    ultimately show ?thesis using len assms(4) by simp
  qed
qed

lemma forceEvict_sub: "set (buckets (forceEvict order now r)) \<subseteq> set (buckets r)"
  by (auto simp: forceEvict_def Let_def AList.delete_eq split: option.splits)

lemma forceEvict_config [simp]:
  "rate (forceEvict order now r) = rate r" "capacity (forceEvict order now r) = capacity r"
  "maxBuckets (forceEvict order now r) = maxBuckets r"
  "evictAfter (forceEvict order now r) = evictAfter r"
  by (auto simp: forceEvict_def Let_def split: option.splits)

lemma forceEvict_distinct:
  "distinct_keys (buckets r) \<Longrightarrow> distinct_keys (buckets (forceEvict order now r))"
  by (auto simp: forceEvict_def Let_def split: option.splits)

lemma forceEvict_ok [store_inv]: "limiter_ok now r \<Longrightarrow> limiter_ok now (forceEvict order now r)"
proof -
  assume ok: "limiter_ok now r"
  have "length (buckets (forceEvict order now r)) \<le> length (buckets r)"
    by (auto simp: forceEvict_def Let_def intro: order_trans [OF length_delete_le] split: option.splits)
  then have "0 < maxBuckets r \<longrightarrow> int (length (buckets (forceEvict order now r))) \<le> maxBuckets r"
    using ok unfolding limiter_ok_def by linarith
  moreover have "config_ok (forceEvict order now r)"
    using ok by (simp add: limiter_ok_def config_ok_def)
  moreover have "\<forall>(k, b) \<in> set (buckets (forceEvict order now r)). bucket_ok (forceEvict order now r) now b"
    using ok forceEvict_sub [of order now r] by (fastforce simp: limiter_ok_def bucket_ok_def)
  ultimately show ?thesis
    using ok by (simp add: limiter_ok_def forceEvict_distinct)
qed

subsection \<open>One call of \<open>Allow\<close>\<close>

text \<open>The bucket the call works on, and the limiter with room for the key.\<close>

definition current_bucket :: "rate_limiter \<Rightarrow> time \<Rightarrow> string \<Rightarrow> bucket" where
  "current_bucket r now key = (case map_of (buckets r) key of
     Some b \<Rightarrow> b | None \<Rightarrow> \<lparr>tokens = capacity r, lastSeen = now\<rparr>)"

definition with_room :: "string list \<Rightarrow> time \<Rightarrow> rate_limiter \<Rightarrow> string \<Rightarrow> rate_limiter" where
  "with_room order now r key =
     (if map_of (buckets r) key = None \<and> maxBuckets r > 0 \<and> int (length (buckets r)) \<ge> maxBuckets r
      then forceEvict order now r else r)"

definition charge :: "bucket \<Rightarrow> bucket" where
  "charge b = (if tokens b < 1 then b else b\<lparr>tokens := f64_round (tokens b - 1)\<rparr>)"

definition put :: "string \<Rightarrow> bucket \<Rightarrow> rate_limiter \<Rightarrow> rate_limiter" where
  "put key b r = r\<lparr>buckets := AList.update key b (buckets r)\<rparr>"

lemma with_room_config [simp]:
  "rate (with_room order now r key) = rate r" "capacity (with_room order now r key) = capacity r"
  "maxBuckets (with_room order now r key) = maxBuckets r"
  "evictAfter (with_room order now r key) = evictAfter r"
  by (simp_all add: with_room_def)

lemma maybeEvict_config [simp]:
  "rate (maybeEvict now r) = rate r" "capacity (maybeEvict now r) = capacity r"
  "maxBuckets (maybeEvict now r) = maxBuckets r" "evictAfter (maybeEvict now r) = evictAfter r"
  by (simp_all add: maybeEvict_def Let_def)

lemma put_config [simp]:
  "rate (put k b r) = rate r" "capacity (put k b r) = capacity r" "lastEvict (put k b r) = lastEvict r"
  "maxBuckets (put k b r) = maxBuckets r" "evictAfter (put k b r) = evictAfter r"
  "buckets (put k b r) = AList.update k b (buckets r)"
  by (simp_all add: put_def)

lemma refill_of_capacity:
  "rate r = rate r' \<Longrightarrow> capacity r = capacity r' \<Longrightarrow> refill r now b = refill r' now b"
  by (simp add: refill_def)

lemma lastSeen_charge [simp]: "lastSeen (charge b) = lastSeen b"
  by (simp add: charge_def)

lemma map_of_maybeEvict:
  "distinct_keys (buckets r) \<Longrightarrow> map_of (buckets (maybeEvict now r)) k =
     (case map_of (buckets r) k of None \<Rightarrow> None
      | Some b \<Rightarrow> if evictAfter r \<le> time_sub now (lastEvict r) \<and> lastSeen b < now - evictAfter r
                then None else Some b)"
  by (auto simp: maybeEvict_def Let_def map_of_filter_distinct split: option.splits)

text \<open>
  The key of the call survives the pass of \<open>maybeEvict\<close>: it was seen at \<open>now\<close>.
\<close>

lemma maybeEvict_put:
  assumes "0 \<le> evictAfter r" and "distinct_keys (buckets r)" and "lastSeen b = now"
  shows "map_of (buckets (maybeEvict now (put key b r))) key = Some b"
  using assms by (simp add: map_of_maybeEvict update_conv')

lemma update_filter_other:
  "P (key, b) \<Longrightarrow> P (key, c) \<Longrightarrow>
     AList.update key c (filter P (AList.update key b m)) = filter P (AList.update key c m)"
  by (induction m) auto

lemma put_maybeEvict:
  assumes "0 \<le> evictAfter r" and "lastSeen b = now" and "lastSeen c = now"
  shows "put key c (maybeEvict now (put key b r)) = maybeEvict now (put key c r)"
  using assms by (simp add: put_def maybeEvict_def Let_def update_filter_other)

lemma with_room_distinct:
  "distinct_keys (buckets r) \<Longrightarrow> distinct_keys (buckets (with_room order now r key))"
  by (simp add: with_room_def forceEvict_distinct)

lemma allow_live_eq:
  assumes "0 \<le> evictAfter r" and "distinct_keys (buckets r)"
  shows "allow_live order now r key =
    (let b = refill r now (current_bucket r now key)
     in (1 \<le> tokens b, maybeEvict now (put key (charge b) (with_room order now r key))))"
proof -
  define b where "b = refill r now (current_bucket r now key)"
  define r1 where "r1 = with_room order now r key"
  define r2 where "r2 = maybeEvict now (put key b r1)"
  have b: "lastSeen b = now" by (simp add: b_def)
  have live: "map_of (buckets r2) key = Some b"
    unfolding r2_def r1_def using assms b by (intro maybeEvict_put) (simp_all add: with_room_distinct)
  have "allow_live order now r key = (if tokens b < 1 then (False, r2)
      else (True, put key (b\<lparr>tokens := f64_round (tokens b - 1)\<rparr>) r2))"
  proof (cases "map_of (buckets r) key")
    case (Some c)
    then have "current_bucket r now key = c" "r1 = r"
      by (simp_all add: current_bucket_def r1_def with_room_def)
    with Some live show ?thesis
      by (simp add: allow_live_def b_def r2_def put_def Let_def)
  next
    case None
    have room: "(if maxBuckets r > 0 \<and> int (length (buckets r)) \<ge> maxBuckets r
        then forceEvict order now r else r) = r1"
      using None by (simp add: r1_def with_room_def)
    have "capacity r1 = capacity r" by (simp add: r1_def)
    with None have "refill r1 now \<lparr>tokens = capacity r1, lastSeen = now\<rparr> = b"
      by (auto simp: b_def current_bucket_def r1_def intro: refill_of_capacity)
    with live show ?thesis
      unfolding allow_live_def None option.case room Let_def prod.case
      by (simp add: r2_def put_def)
  qed
  moreover have "put key (b\<lparr>tokens := f64_round (tokens b - 1)\<rparr>) r2
      = maybeEvict now (put key (b\<lparr>tokens := f64_round (tokens b - 1)\<rparr>) r1)"
    unfolding r2_def using assms b by (intro put_maybeEvict) (simp_all add: r1_def)
  ultimately show ?thesis
    by (auto simp: r2_def r1_def charge_def b_def [symmetric] Let_def)
qed

lemma with_room_ok [store_inv]: "limiter_ok now r \<Longrightarrow> limiter_ok now (with_room order now r key)"
  by (simp add: with_room_def forceEvict_ok)

lemma charge_ok: "config_ok r \<Longrightarrow> bucket_ok r now b \<Longrightarrow> bucket_ok r now (charge b)"
  by (simp add: charge_def take_ok)

lemma current_bucket_ok:
  "limiter_ok now r \<Longrightarrow> bucket_ok r now (current_bucket r now key)"
  by (auto simp: current_bucket_def limiter_ok_lookup bucket_ok_def limiter_ok_def config_ok_def
      split: option.splits)

lemma put_ok [store_inv]:
  assumes "limiter_ok now r" and "bucket_ok r now b"
    and "0 < maxBuckets r \<Longrightarrow> map_of (buckets r) key = None \<Longrightarrow> int (length (buckets r)) < maxBuckets r"
  shows "limiter_ok now (put key b r)"
proof -
  have "bucket_ok r now c" if "(j, c) \<in> set (AList.update key b (buckets r))" for j c
  proof -
    have "distinct_keys (AList.update key b (buckets r))"
      using assms(1) by (simp add: limiter_ok_def)
    with that have "map_of (AList.update key b (buckets r)) j = Some c" by simp
    with assms(1,2) show ?thesis
      by (auto simp: update_conv' limiter_ok_lookup split: if_splits)
  qed
  with assms show ?thesis
    by (auto simp: limiter_ok_def put_def length_update map_of_eq_None_iff bucket_ok_def config_ok_def)
qed

text \<open>The visiting order matters only when the map is full.\<close>

definition room_or_order :: "string list \<Rightarrow> rate_limiter \<Rightarrow> bool" where
  "room_or_order order r \<longleftrightarrow>
     int (length (buckets r)) < maxBuckets r \<or> visits_all order (buckets r)"

lemma with_room_length:
  assumes "limiter_ok now r" and "room_or_order order r" and "0 < maxBuckets r"
    and "map_of (buckets (with_room order now r key)) key = None"
  shows "int (length (buckets (with_room order now r key))) < maxBuckets r
    \<or> map_of (buckets r) key \<noteq> None"
  using assms forceEvict_room [of order r now]
  by (auto simp: with_room_def limiter_ok_def room_or_order_def)

lemma allow_live_ok [store_inv]:
  assumes "limiter_ok now r" and "room_or_order order r \<or> map_of (buckets r) key \<noteq> None"
  shows "limiter_ok now (snd (allow_live order now r key))"
proof -
  let ?r = "with_room order now r key"
  let ?b = "charge (refill r now (current_bucket r now key))"
  have cfg: "config_ok r" "distinct_keys (buckets r)" "0 \<le> evictAfter r"
    using assms(1) by (simp_all add: limiter_ok_def config_ok_def)
  have "bucket_ok r now ?b"
    using cfg(1) assms(1) by (intro charge_ok refill_ok current_bucket_ok)
  then have "bucket_ok ?r now ?b" by (simp add: bucket_ok_def)
  moreover have "int (length (buckets ?r)) < maxBuckets ?r"
    if "0 < maxBuckets ?r" "map_of (buckets ?r) key = None"
  proof -
    have "room_or_order order r" using assms(2) that(2) by (auto simp: with_room_def split: if_splits)
    from with_room_length [OF assms(1) this _ that(2)] that show ?thesis by (auto simp: with_room_def split: if_splits)
  qed
  ultimately have "limiter_ok now (put key ?b ?r)"
    using assms(1) by (intro put_ok with_room_ok) auto
  then show ?thesis
    using cfg by (simp add: allow_live_eq Let_def maybeEvict_ok)
qed

lemma allow_live_decision:
  "0 \<le> evictAfter r \<Longrightarrow> distinct_keys (buckets r) \<Longrightarrow>
     fst (allow_live order now r key) \<longleftrightarrow> 1 \<le> tokens (refill r now (current_bucket r now key))"
  by (simp add: allow_live_eq Let_def)

lemma allow_live_bucket:
  "0 \<le> evictAfter r \<Longrightarrow> distinct_keys (buckets r) \<Longrightarrow>
     map_of (buckets (snd (allow_live order now r key))) key
       = Some (charge (refill r now (current_bucket r now key)))"
  by (simp add: allow_live_eq Let_def maybeEvict_put with_room_distinct)

lemma allow_live_config [simp]:
  assumes "0 \<le> evictAfter r" and "distinct_keys (buckets r)"
  shows "rate (snd (allow_live order now r key)) = rate r"
    "capacity (snd (allow_live order now r key)) = capacity r"
    "maxBuckets (snd (allow_live order now r key)) = maxBuckets r"
    "evictAfter (snd (allow_live order now r key)) = evictAfter r"
  using assms by (simp_all add: allow_live_eq Let_def)

subsection \<open>The level of a key\<close>

text \<open>
  The exact number of tokens key \<open>k\<close> would have at \<open>now\<close> if buckets filled at \<open>speed\<close> tokens per second, which is
  at least the limiter's rate: what its bucket holds plus \<open>speed\<close> per second since it was last seen, at
  most \<open>capacity\<close>; a key without a bucket has a full one.
\<close>

definition seconds_between :: "time \<Rightarrow> time \<Rightarrow> real" where
  "seconds_between t u = of_int (u - t) / of_int Second"

definition level :: "real \<Rightarrow> rate_limiter \<Rightarrow> string \<Rightarrow> time \<Rightarrow> real" where
  "level speed r k now = (case map_of (buckets r) k of
     None \<Rightarrow> capacity r
   | Some b \<Rightarrow> min (capacity r) (tokens b + speed * seconds_between (lastSeen b) now))"

text \<open>What one call may gain by the rounding of its floating-point operations.\<close>

definition slack :: "rate_limiter \<Rightarrow> real" where
  "slack r = 7 * unit_roundoff * capacity r + 4 * tiny"

lemma level_le_capacity: "level speed r k now \<le> capacity r"
  by (auto simp: level_def split: option.splits)

lemma level_nonneg: "limiter_ok now r \<Longrightarrow> 0 \<le> speed \<Longrightarrow> 0 \<le> level speed r k now"
proof (cases "map_of (buckets r) k")
  case (Some b)
  moreover assume ok: "limiter_ok now r" and "0 \<le> speed"
  ultimately have "bucket_ok r now b" by (simp add: limiter_ok_lookup)
  with ok Some \<open>0 \<le> speed\<close> show ?thesis
    by (simp add: level_def bucket_ok_def limiter_ok_def config_ok_def seconds_between_def)
qed (simp add: level_def limiter_ok_def config_ok_def)

lemma level_growth:
  assumes "0 \<le> speed" and "t \<le> u"
  shows "level speed r k u \<le> level speed r k t + speed * seconds_between t u"
proof (cases "map_of (buckets r) k")
  case (Some b)
  have "seconds_between (lastSeen b) u = seconds_between (lastSeen b) t + seconds_between t u"
    by (simp add: seconds_between_def flip: add_divide_distrib)
  moreover have "0 \<le> speed * seconds_between t u"
    using assms by (simp add: seconds_between_def)
  ultimately show ?thesis
    using Some by (simp add: level_def distrib_left min_def)
qed (use assms in \<open>simp add: level_def seconds_between_def\<close>)

text \<open>
  The seconds that \<open>Duration.Seconds\<close> returns exceed the exact ones by two roundings at most.
\<close>

lemma nanos_rounded:
  assumes "0 \<le> m"
  shows "f64_round (of_int m / of_int Second) \<le> of_int m / of_int Second * (1 + unit_roundoff)"
    and "of_int m / of_int Second * (1 - unit_roundoff) \<le> f64_round (of_int m / of_int Second)"
proof -
  define x where "x = (of_int m / of_int Second :: real)"
  have "\<bar>f64_round x - x\<bar> \<le> unit_roundoff * x"
  proof (cases "m = 0")
    case False
    with assms have "1 / 1000000000 \<le> x" by (simp add: x_def divide_right_mono)
    then show ?thesis
      using normal_min_le_nano by (intro float64.rnd_relative) linarith
  qed (simp add: x_def)
  then have "f64_round x \<le> x * (1 + unit_roundoff)" "x * (1 - unit_roundoff) \<le> f64_round x"
    by (simp_all add: algebra_simps abs_le_iff)
  then show "f64_round (of_int m / of_int Second) \<le> of_int m / of_int Second * (1 + unit_roundoff)"
    and "of_int m / of_int Second * (1 - unit_roundoff) \<le> f64_round (of_int m / of_int Second)"
    by (simp_all only: x_def)
qed

lemma Seconds_upper:
  assumes "0 \<le> d"
  shows "Seconds d \<le> of_int d / of_int Second * (1 + unit_roundoff) ^ 2"
proof (cases "d = 0")
  case False
  define s n y where "s = (of_int (d div Second) :: real)"
    and "n = (of_int (d mod Second) / of_int Second :: real)" and "y = s + f64_round n"
  have "d = d div Second * Second + d mod Second" by simp
  then have "of_int d = s * of_int Second + (of_int (d mod Second) :: real)"
    unfolding s_def by (metis of_int_add of_int_mult)
  then have split: "of_int d / of_int Second = s + n"
    by (simp add: n_def field_simps)
  have s: "0 \<le> s * unit_roundoff"
    using assms unit_roundoff_bounds by (simp add: s_def pos_imp_zdiv_nonneg_iff)
  have nr: "f64_round n \<le> n * (1 + unit_roundoff)" "n * (1 - unit_roundoff) \<le> f64_round n"
    using nanos_rounded [of "d mod Second"] by (simp_all only: n_def pos_mod_sign)
  have y_up: "y \<le> (s + n) * (1 + unit_roundoff)"
    using nr(1) s by (simp add: y_def algebra_simps)
  have "1 / 1000000000 \<le> s + n"
    using False assms unfolding split [symmetric] by (simp add: divide_right_mono)
  moreover have "1 / 2 \<le> 1 - unit_roundoff"
    using unit_roundoff_bounds(3) by simp
  ultimately have "1 / 1000000000 * (1 / 2) \<le> (s + n) * (1 - unit_roundoff)"
    by (intro mult_mono) simp_all
  also have "\<dots> \<le> y"
    using nr(2) s by (simp add: y_def algebra_simps)
  finally have "normal_min \<le> y"
    using normal_min_le_nano by simp
  then have "f64_round y \<le> y * (1 + unit_roundoff)"
    using float64.rnd_relative [of y] by (simp add: algebra_simps abs_le_iff)
  also have "\<dots> \<le> (s + n) * (1 + unit_roundoff) * (1 + unit_roundoff)"
    using y_up unit_roundoff_bounds by (intro mult_right_mono) simp_all
  finally have "f64_round y \<le> (s + n) * (1 + unit_roundoff) ^ 2"
    by (simp only: power2_eq_square mult.assoc)
  moreover have "Seconds d = f64_round y"
    using assms by (simp add: Seconds_def quot_nonneg rem_nonneg y_def s_def n_def)
  ultimately show ?thesis unfolding split by simp
qed simp

text \<open>A refill gives at most the exact level, up to the slack.\<close>

lemma small_power: "(1 + unit_roundoff) ^ 3 \<le> 1 + 4 * unit_roundoff"
proof -
  define u where "u = unit_roundoff"
  have u: "0 < u" "u < 1 / 8" using unit_roundoff_bounds by (simp_all add: u_def)
  then have "u * u \<le> u * (1 / 8)" "u * u \<le> 1 / 8 * (1 / 8)"
    by (intro mult_mono; simp)+
  moreover from this(2) u have "u * (u * u) \<le> u * (1 / 8 * (1 / 8))"
    by (intro mult_left_mono) simp_all
  moreover have "(1 + u) ^ 3 = 1 + 3 * u + 3 * (u * u) + u * (u * u)"
    by (simp add: power3_eq_cube algebra_simps)
  ultimately have "(1 + u) ^ 3 \<le> 1 + 4 * u" using u by linarith
  then show ?thesis by (simp add: u_def)
qed

lemma refill_upper:
  assumes "config_ok r" and "bucket_ok r now b"
  shows "tokens (refill r now b) \<le>
    min (capacity r) (tokens b + rate r * seconds_between (lastSeen b) now)
      + 6 * unit_roundoff * capacity r + 3 * tiny"
proof -
  define c s t where "c = capacity r" and "s = seconds_between (lastSeen b) now" and "t = tokens b"
  define u where "u = unit_roundoff"
  define e where "e = time_sub now (lastSeen b)"
  define p where "p = f64_round (Seconds e * rate r)"
  have c: "0 < c" and rate: "0 < rate r" using assms(1) by (simp_all add: config_ok_def c_def)
  have t: "0 \<le> t" "t \<le> c" and seen: "lastSeen b \<le> now"
    using assms(2) by (simp_all add: bucket_ok_def t_def c_def)
  have u: "0 < u" "u < 1 / 8" using unit_roundoff_bounds by (simp_all add: u_def)
  have s: "0 \<le> s" using seen by (simp add: s_def seconds_between_def)
  have e: "0 \<le> e" "e \<le> now - lastSeen b" using seen by (simp_all add: e_def time_sub_def)
  have tok: "tokens (refill r now b) = min c (f64_round (t + p))"
    by (simp add: refill_def Let_def c_def t_def p_def e_def)
  show ?thesis
  proof (cases "c \<le> t + rate r * s")
    case True
    have "0 \<le> 6 * u * c + 3 * tiny" using c u tiny_pos by simp
    with True tok show ?thesis
      by (simp add: c_def [symmetric] s_def [symmetric] t_def [symmetric] u_def [symmetric])
  next
    case False
    have "of_int e \<le> (of_int (now - lastSeen b) :: real)" using e(2) by (simp only: of_int_le_iff)
    then have "of_int e / of_int Second \<le> s"
      by (simp add: s_def seconds_between_def divide_right_mono)
    then have "Seconds e \<le> s * (1 + u) ^ 2"
      using Seconds_upper [OF e(1)] u by (fold u_def) (smt (verit, best) mult_right_mono zero_le_power2)
    then have sr: "Seconds e * rate r \<le> s * (1 + u) ^ 2 * rate r"
      using rate by (intro mult_right_mono) simp_all
    have sr0: "0 \<le> Seconds e * rate r" using Seconds_nonneg [OF e(1)] rate by simp
    then have p: "0 \<le> p" by (simp add: p_def float64.rnd_nonneg)
    have "p \<le> Seconds e * rate r * (1 + u) + tiny"
      using float64.rnd_upper [OF sr0] by (simp add: p_def u_def algebra_simps)
    also have "\<dots> \<le> s * (1 + u) ^ 2 * rate r * (1 + u) + tiny"
      using mult_right_mono [OF sr, of "1 + u"] u by simp
    also have "\<dots> = rate r * s * (1 + u) ^ 3 + tiny"
      by (simp add: power2_eq_square power3_eq_cube algebra_simps)
    also have "\<dots> \<le> rate r * s * (1 + 4 * u) + tiny"
      using small_power rate s by (intro add_right_mono mult_left_mono) (simp_all add: u_def)
    finally have p_up: "p \<le> rate r * s + 4 * u * (rate r * s) + tiny" by (simp add: algebra_simps)
    have "4 * u * (rate r * s) \<le> 4 * u * c"
      using False t u by (intro mult_left_mono) simp_all
    with p_up have sum: "t + p \<le> t + rate r * s + 4 * u * c + tiny" by simp
    have "f64_round (t + p) \<le> (t + p) + u * (t + p) + tiny"
      using float64.rnd_upper [of "t + p"] t p by (simp add: u_def)
    also have "u * (t + p) \<le> u * (c + 4 * u * c + tiny)"
      using sum False u by (intro mult_left_mono) simp_all
    also have "u * (c + 4 * u * c + tiny) \<le> 2 * u * c + tiny"
    proof -
      have "u * (4 * u * c) \<le> u * c"
        using u c by (simp add: mult_left_mono)
      moreover have "u * tiny \<le> tiny" using u tiny_pos by simp
      ultimately show ?thesis by (simp add: algebra_simps)
    qed
    finally have "f64_round (t + p) \<le> t + rate r * s + 6 * u * c + 3 * tiny"
      using sum by (simp add: algebra_simps)
    with False tok show ?thesis
      by (simp add: c_def s_def t_def u_def min_def)
  qed
qed

text \<open>The call's own key: an admitted request costs one token, up to the slack.\<close>

lemma level_bucket:
  "map_of (buckets r) k = Some b \<Longrightarrow>
     level speed r k now = min (capacity r) (tokens b + speed * seconds_between (lastSeen b) now)"
  by (simp add: level_def)

lemma level_current:
  "level speed r k now = min (capacity r)
     (tokens (current_bucket r now k) + speed * seconds_between (lastSeen (current_bucket r now k)) now)"
  by (simp add: level_def current_bucket_def seconds_between_def split: option.splits)

lemma seconds_between_same [simp]: "seconds_between t t = 0"
  by (simp add: seconds_between_def)

lemma charge_upper:
  assumes "config_ok r" and "bucket_ok r now b"
  shows "tokens (charge b) \<le> tokens b - (if 1 \<le> tokens b then 1 else 0)
    + unit_roundoff * capacity r + tiny"
proof (cases "1 \<le> tokens b")
  case True
  have "f64_round (tokens b - 1) \<le> (tokens b - 1) + unit_roundoff * (tokens b - 1) + tiny"
    using True by (intro float64.rnd_upper) simp
  moreover have "unit_roundoff * (tokens b - 1) \<le> unit_roundoff * capacity r"
    using assms(2) unit_roundoff_bounds(1) by (intro mult_left_mono) (simp_all add: bucket_ok_def)
  ultimately show ?thesis using True by (simp add: charge_def)
next
  case False
  have "0 \<le> unit_roundoff * capacity r"
    using assms unit_roundoff_bounds(1) by (simp add: config_ok_def)
  with False tiny_pos show ?thesis by (simp add: charge_def)
qed

lemma level_own_key:
  assumes "limiter_ok now r" and "rate r \<le> speed"
  shows "level speed (snd (allow_live order now r key)) key now \<le>
    level speed r key now - (if fst (allow_live order now r key) then 1 else 0) + slack r"
proof -
  define c where "c = current_bucket r now key"
  define b where "b = refill r now c"
  have cfg: "config_ok r" "0 \<le> evictAfter r" "distinct_keys (buckets r)"
    using assms(1) by (simp_all add: limiter_ok_def config_ok_def)
  have c: "bucket_ok r now c" unfolding c_def using assms(1) by (rule current_bucket_ok)
  have b: "bucket_ok r now b" unfolding b_def using cfg(1) c by (rule refill_ok)
  have "level speed (snd (allow_live order now r key)) key now \<le> tokens (charge b)"
    using allow_live_bucket [OF cfg(2,3), of order now key] cfg by (simp add: level_bucket b_def c_def)
  moreover have "tokens (charge b) \<le>
      tokens b - (if 1 \<le> tokens b then 1 else 0) + unit_roundoff * capacity r + tiny"
    using cfg(1) b by (rule charge_upper)
  moreover have "tokens b \<le> level speed r key now + 6 * unit_roundoff * capacity r + 3 * tiny"
  proof -
    have "0 \<le> seconds_between (lastSeen c) now" using c by (simp add: bucket_ok_def seconds_between_def)
    then have "rate r * seconds_between (lastSeen c) now \<le> speed * seconds_between (lastSeen c) now"
      using assms(2) by (intro mult_right_mono) simp_all
    with refill_upper [OF cfg(1) c] show ?thesis
      unfolding b_def level_current c_def [symmetric] by (smt (verit))
  qed
  moreover have "fst (allow_live order now r key) \<longleftrightarrow> 1 \<le> tokens b"
    using cfg by (simp add: allow_live_decision b_def c_def)
  ultimately show ?thesis
    by (cases "1 \<le> tokens b") (simp_all add: slack_def)
qed

text \<open>
  Another key: its bucket is left alone or evicted. Eviction gives the key a full bucket back, which
  changes its level only if \<open>evictAfter\<close> is too short to fill a bucket at that speed.
\<close>

definition eviction_fills :: "real \<Rightarrow> rate_limiter \<Rightarrow> bool" where
  "eviction_fills speed r \<longleftrightarrow> capacity r \<le> speed * seconds_between 0 (evictAfter r)"

lemma map_of_other_key:
  assumes "0 \<le> evictAfter r" and "distinct_keys (buckets r)" and "k \<noteq> key"
  shows "map_of (buckets (snd (allow_live order now r key))) k =
    (case map_of (buckets (with_room order now r key)) k of None \<Rightarrow> None
     | Some b \<Rightarrow> if evictAfter r \<le> time_sub now (lastEvict (with_room order now r key))
                  \<and> lastSeen b < now - evictAfter r then None else Some b)"
  using assms
  by (simp add: allow_live_eq Let_def map_of_maybeEvict with_room_distinct update_conv'
      split: option.splits)

lemma level_stale:
  assumes "limiter_ok now r" and "0 \<le> speed" and "eviction_fills speed r" and "map_of (buckets r) k = Some b"
    and "lastSeen b < now - evictAfter r" and "now \<le> u"
  shows "level speed r k u = capacity r"
proof -
  have "0 \<le> tokens b"
    using limiter_ok_lookup [OF assms(1,4)] by (simp add: bucket_ok_def)
  moreover have "seconds_between 0 (evictAfter r) \<le> seconds_between (lastSeen b) u"
    using assms(5,6) by (simp add: seconds_between_def divide_right_mono flip: of_int_diff)
  ultimately have "capacity r \<le> tokens b + speed * seconds_between (lastSeen b) u"
    using assms(2,3) mult_left_mono [of _ _ speed] unfolding eviction_fills_def
    by (smt (verit, best))
  with assms(4) show ?thesis by (simp add: level_bucket)
qed

lemma level_other_key:
  assumes "limiter_ok now r" and "0 \<le> speed" and "eviction_fills speed r" and "with_room order now r key = r"
    and "k \<noteq> key" and "now \<le> u"
  shows "level speed (snd (allow_live order now r key)) k u = level speed r k u"
proof -
  have cfg: "0 \<le> evictAfter r" "distinct_keys (buckets r)"
    using assms(1) by (simp_all add: limiter_ok_def config_ok_def)
  with assms(4,5) show ?thesis
    using level_stale [OF assms(1-3) _ _ assms(6), of k]
    by (auto simp: level_def map_of_other_key split: option.splits)
qed

text \<open>While calls come from a set of keys that fits the map, nothing is ever evicted by force.\<close>

lemma fits_room:
  assumes "limiter_ok now r" and "set (keys (buckets r)) \<subseteq> K" and "key \<in> K" and "finite K"
    and "int (card K) \<le> maxBuckets r"
  shows "with_room order now r key = r" and "room_or_order order r \<or> map_of (buckets r) key \<noteq> None"
proof -
  have "int (length (buckets r)) < maxBuckets r" if "map_of (buckets r) key = None"
  proof -
    have "key \<notin> set (keys (buckets r))" using that by (simp add: map_of_eq_None_iff)
    with assms(2,3) have "set (keys (buckets r)) \<subset> K" by blast
    then have "card (set (keys (buckets r))) < card K" using assms(4) by (rule psubset_card_mono [rotated])
    moreover have "card (set (keys (buckets r))) = length (buckets r)"
      using assms(1) distinct_card [of "keys (buckets r)"] by (simp add: limiter_ok_def)
    ultimately show ?thesis using assms(5) by simp
  qed
  then show "with_room order now r key = r" and "room_or_order order r \<or> map_of (buckets r) key \<noteq> None"
    by (auto simp: with_room_def room_or_order_def)
qed

lemma keys_allow_live:
  assumes "limiter_ok now r" and "with_room order now r key = r"
  shows "set (keys (buckets (snd (allow_live order now r key)))) \<subseteq> insert key (set (keys (buckets r)))"
proof
  fix k
  assume k: "k \<in> set (keys (buckets (snd (allow_live order now r key))))"
  have cfg: "0 \<le> evictAfter r" "distinct_keys (buckets r)"
    using assms(1) by (simp_all add: limiter_ok_def config_ok_def)
  show "k \<in> insert key (set (keys (buckets r)))"
  proof (cases "k = key")
    case False
    from k obtain b where "map_of (buckets (snd (allow_live order now r key))) k = Some b"
      by (metis map_of_eq_None_iff not_None_eq set_map)
    with map_of_other_key [OF cfg False] assms(2) have "map_of (buckets r) k \<noteq> None"
      by (auto split: option.splits if_splits)
    then show ?thesis by (simp add: map_of_eq_None_iff)
  qed simp
qed

subsection \<open>Runs\<close>

text \<open>A run of calls, each with its visiting order, clock reading and key; what key \<open>k\<close> was admitted.\<close>

fun admitted :: "string \<Rightarrow> (string list \<times> time \<times> string) list \<Rightarrow> rate_limiter option \<Rightarrow> nat" where
  "admitted k [] r = 0"
| "admitted k ((order, now, key) # calls) r =
     (let (ok, r') = Allow order now r key
      in (if ok \<and> key = k then 1 else 0) + admitted k calls r')"

fun timed_between :: "time \<Rightarrow> time \<Rightarrow> (string list \<times> time \<times> string) list \<Rightarrow> bool" where
  "timed_between t0 t1 [] \<longleftrightarrow> t0 \<le> t1"
| "timed_between t0 t1 ((order, now, key) # calls) \<longleftrightarrow> t0 \<le> now \<and> timed_between now t1 calls"

abbreviation call_key :: "string list \<times> time \<times> string \<Rightarrow> string" where
  "call_key call \<equiv> snd (snd call)"

lemma admitted_bounded_by_level:
  assumes "limiter_ok t0 r" and "rate r \<le> speed" and "eviction_fills speed r" and "timed_between t0 t1 calls"
    and "set (keys (buckets r)) \<subseteq> K" and "call_key ` set calls \<subseteq> K" and "finite K" and "int (card K) \<le> maxBuckets r"
  shows "of_nat (admitted k calls (Some r))
    \<le> level speed r k t0 + speed * seconds_between t0 t1 + of_nat (length calls) * slack r"
  using assms
proof (induction calls arbitrary: r t0)
  case Nil
  then have "0 \<le> speed" by (simp add: limiter_ok_def config_ok_def)
  moreover from this Nil have "0 \<le> speed * seconds_between t0 t1" by (simp add: seconds_between_def)
  ultimately show ?case using Nil level_nonneg by fastforce
next
  case (Cons call calls)
  obtain order now key where call: "call = (order, now, key)" by (cases call)
  obtain ok r' where live: "allow_live order now r key = (ok, r')" by fastforce
  have t: "t0 \<le> now" and rest: "timed_between now t1 calls" using Cons.prems(4) call by auto
  have inv: "limiter_ok now r" using Cons.prems(1) t by (rule limiter_ok_later)
  then have cfg: "0 < rate r" "0 \<le> evictAfter r" "distinct_keys (buckets r)" "config_ok r"
    by (simp_all add: limiter_ok_def config_ok_def)
  with Cons.prems(2) have speed: "0 \<le> speed" by simp
  have "key \<in> K" using Cons.prems(6) call by simp
  note room = fits_room [OF inv Cons.prems(5) this Cons.prems(7,8), of order]
  have inv': "limiter_ok now r'"
    using allow_live_ok [OF inv room(2)] live by simp
  have same: "rate r' = rate r" "capacity r' = capacity r" "maxBuckets r' = maxBuckets r"
    "evictAfter r' = evictAfter r"
    using allow_live_config [OF cfg(2,3), of order now key] live by simp_all
  have "set (keys (buckets r')) \<subseteq> K"
    using keys_allow_live [OF inv room(1)] live Cons.prems(5) \<open>key \<in> K\<close> by auto
  then have IH: "of_nat (admitted k calls (Some r'))
      \<le> level speed r' k now + speed * seconds_between now t1 + of_nat (length calls) * slack r"
    using Cons.IH [OF inv' _ _ rest] Cons.prems(2,3,6,7,8) same
    by (simp add: eviction_fills_def slack_def)
  have slack: "0 \<le> slack r"
    using cfg(4) unit_roundoff_bounds(1) tiny_pos by (simp add: slack_def config_ok_def)
  have "level speed r' k now \<le> level speed r k now - (if ok \<and> key = k then 1 else 0) + slack r"
  proof (cases "key = k")
    case True
    with level_own_key [OF inv Cons.prems(2), of order key] live show ?thesis by simp
  next
    case False
    with level_other_key [OF inv speed Cons.prems(3) room(1), of k now] live slack show ?thesis
      by simp
  qed
  moreover have "level speed r k now \<le> level speed r k t0 + speed * seconds_between t0 now"
    using level_growth [OF speed t] .
  moreover have "speed * seconds_between t0 t1
      = speed * seconds_between t0 now + speed * seconds_between now t1"
    by (simp add: seconds_between_def flip: distrib_left add_divide_distrib)
  moreover have "real (admitted k (call # calls) (Some r))
      = (if ok \<and> key = k then 1 else 0) + real (admitted k calls (Some r'))"
    using call live by (simp add: Allow_def)
  moreover have "real (length (call # calls)) * slack r = slack r + real (length calls) * slack r"
    by (simp add: distrib_right)
  ultimately show ?case
    using IH by linarith
qed

subsection \<open>What callers rely on\<close>

lemma NewRateLimiter_Some:
  "NewRateLimiter rps burst = Some r \<longleftrightarrow> 0 < rps \<and> 0 < burst \<and>
     r = \<lparr>buckets = [], rate = rps, capacity = burst, evictAfter = 10 * Minute,
          lastEvict = zero_time, maxBuckets = defaultMaxBuckets\<rparr>"
  by (auto simp: NewRateLimiter_def)

lemma NewRateLimiter_ok:
  "NewRateLimiter rps burst = Some r \<Longrightarrow> f64_round burst = burst \<Longrightarrow> limiter_ok t r"
  by (auto simp: NewRateLimiter_Some limiter_ok_def config_ok_def defaultMaxBuckets_def)

text \<open>C16: \<open>Allow\<close> keeps the limiter well-formed: the configuration is unchanged, every bucket holds between
  zero and \<open>capacity\<close> tokens and is no newer than the clock, each key has one bucket, and the map never
  has more than \<open>maxBuckets\<close> of them.\<close>

theorem Allow_keeps_limiter:
  assumes "limiter_ok t r" and "t \<le> now" and "visits_all order (buckets r)"
  shows "\<exists>ok r'. Allow order now (Some r) key = (ok, Some r') \<and> limiter_ok now r'
    \<and> rate r' = rate r \<and> capacity r' = capacity r \<and> maxBuckets r' = maxBuckets r"
proof -
  have ok: "limiter_ok now r" using assms(1,2) by (rule limiter_ok_later)
  then have "0 \<le> evictAfter r" "distinct_keys (buckets r)"
    by (simp_all add: limiter_ok_def config_ok_def)
  moreover have "room_or_order order r" using assms(3) by (simp add: room_or_order_def)
  ultimately show ?thesis
    using allow_live_ok [OF ok] by (simp add: Allow_def split: prod.splits) (metis snd_conv allow_live_config)
qed

definition demo_limiter :: rate_limiter where
  "demo_limiter = \<lparr>buckets = [], rate = 1, capacity = 2, evictAfter = 10 * Minute,
     lastEvict = zero_time, maxBuckets = defaultMaxBuckets\<rparr>"

lemma demo_limiter_new: "NewRateLimiter 1 2 = Some demo_limiter" "f64_round 2 = 2"
  using f64_round_of_nat [of 2] by (simp_all add: NewRateLimiter_def demo_limiter_def)

theorem Allow_keeps_limiter_witness:
  "\<exists>ok r'. Allow [] 5 (Some demo_limiter) ''k'' = (ok, Some r') \<and> limiter_ok 5 r' \<and> capacity r' = 2"
proof -
  have "limiter_ok 0 demo_limiter" using demo_limiter_new by (rule NewRateLimiter_ok)
  from Allow_keeps_limiter [OF this, of 5 "[]" "''k''"] show ?thesis
    by (auto simp: visits_all_def demo_limiter_def)
qed

text \<open>C13: the rate limit. As long as the requests come from at most 10000 keys, the size of the map, one key is
  admitted at most \<open>burst + speed * (t1 - t0)\<close> times from \<open>t0\<close> to \<open>t1\<close>, whatever calls are made for
  whatever of these keys, up to the floating-point rounding of \<open>slack\<close> a call. The speed is \<open>rps\<close> when a
  burst refills within ten minutes at that rate; a slower limiter is bounded by a burst in ten minutes
  only, since a bucket that was idle for so long is evicted and comes back full. With more keys than the
  map holds, the oldest bucket is dropped for a new key, and the bound does not hold.\<close>

theorem rate_bound:
  assumes "NewRateLimiter rps burst = Some r" and "f64_round burst = burst"
    and "timed_between t0 t1 calls" and "card (call_key ` set calls) \<le> 10000"
  shows "of_nat (admitted k calls (Some r))
    \<le> burst + max rps (burst / 600) * seconds_between t0 t1 + of_nat (length calls) * slack r"
proof -
  have r: "buckets r = []" "rate r = rps" "capacity r = burst" "evictAfter r = 600 * Second"
    "maxBuckets r = 10000"
    using assms(1) by (simp_all add: NewRateLimiter_Some defaultMaxBuckets_def)
  then have "eviction_fills (max rps (burst / 600)) r"
    by (simp add: eviction_fills_def seconds_between_def max_def)
  moreover have "level (max rps (burst / 600)) r k t0 = burst" by (simp add: level_def r)
  ultimately show ?thesis
    using admitted_bounded_by_level [OF NewRateLimiter_ok [OF assms(1,2)] _ _ assms(3) _ subset_refl, of "max rps (burst / 600)" k]
      assms(4) r
    by simp
qed

theorem rate_bound_witness:
  "of_nat (admitted ''k'' [([], 0, ''k''), ([], Second, ''k''), ([], Second, ''j'')] (Some demo_limiter))
     \<le> 2 + 1 + 3 * slack demo_limiter"
  using rate_bound [OF demo_limiter_new, of 0 Second "[([], 0, ''k''), ([], Second, ''k''), ([], Second, ''j'')]" "''k''"]
  by (simp add: seconds_between_def)

text \<open>The admission decision. A key with no bucket is admitted exactly when the burst is at least one; a
  known key exactly when its tokens and the refill since its last call make at least one token; no other
  key's bucket has a part in it.\<close>

theorem Allow_decision:
  assumes "limiter_ok t r"
  shows "fst (Allow order now (Some r) key) \<longleftrightarrow>
    (case map_of (buckets r) key of
       None \<Rightarrow> 1 \<le> capacity r
     | Some b \<Rightarrow> 1 \<le> capacity r \<and>
         1 \<le> f64_round (tokens b + f64_round (Seconds (time_sub now (lastSeen b)) * rate r)))"
proof -
  have cfg: "0 \<le> evictAfter r" "distinct_keys (buckets r)" "config_ok r"
    using assms by (simp_all add: limiter_ok_def config_ok_def)
  have "fst (Allow order now (Some r) key) = fst (allow_live order now r key)"
    by (simp add: Allow_def split: prod.splits)
  moreover have "capacity r \<le> f64_round (capacity r + f64_round (Seconds (time_sub now now) * rate r))"
    using cfg(3) by (simp add: config_ok_def time_sub_def)
  ultimately show ?thesis
    using cfg by (auto simp: allow_live_decision current_bucket_def refill_def Let_def split: option.splits)
qed

theorem Allow_decision_witness: "fst (Allow [] 5 (Some demo_limiter) ''k'')"
proof -
  have "limiter_ok 0 demo_limiter" using demo_limiter_new by (rule NewRateLimiter_ok)
  from Allow_decision [OF this, of "[]" 5 "''k''"] show ?thesis by (simp add: demo_limiter_def)
qed

text \<open>Keys are isolated: a call for one key leaves another key's bucket as it is, unless the bucket is
  dropped; and while the map has room it is dropped only when it has been idle for longer than
  \<open>evictAfter\<close>.\<close>

theorem Allow_isolates_keys:
  assumes "limiter_ok t r" and "k \<noteq> key" and "Allow order now (Some r) key = (ok, Some r')"
  shows "map_of (buckets r') k = map_of (buckets r) k
    \<or> map_of (buckets r') k = None \<and>
      (int (length (buckets r)) < maxBuckets r \<longrightarrow>
        (\<exists>b. map_of (buckets r) k = Some b \<and> lastSeen b < now - evictAfter r))"
proof -
  have cfg: "0 \<le> evictAfter r" "distinct_keys (buckets r)"
    using assms(1) by (simp_all add: limiter_ok_def config_ok_def)
  have r': "r' = snd (allow_live order now r key)"
    using assms(3) by (auto simp: Allow_def split: prod.splits)
  have sub: "map_of (buckets (with_room order now r key)) k = Some b \<Longrightarrow> map_of (buckets r) k = Some b" for b
    using forceEvict_sub [of order now r] cfg(2) with_room_distinct [OF cfg(2), of order now key]
    by (auto simp: with_room_def split: if_splits)
  have room: "int (length (buckets r)) < maxBuckets r \<Longrightarrow> with_room order now r key = r"
    by (simp add: with_room_def)
  show ?thesis
    unfolding r' map_of_other_key [OF cfg assms(2)]
    by (cases "map_of (buckets (with_room order now r key)) k") (auto dest: sub simp: room)
qed

theorem Allow_isolates_keys_witness:
  "map_of (buckets (the (snd (Allow [] 5 (Some demo_limiter) ''k'')))) ''j'' = None"
proof -
  obtain ok r' where a: "Allow [] 5 (Some demo_limiter) ''k'' = (ok, Some r')"
    by (cases "allow_live [] 5 demo_limiter ''k''") (simp add: Allow_def)
  have "limiter_ok 0 demo_limiter" using demo_limiter_new by (rule NewRateLimiter_ok)
  from Allow_isolates_keys [OF this _ a, of "''j''"] a show ?thesis by (auto simp: demo_limiter_def)
qed

lemma maybeEvict_capacity [simp]: "capacity (maybeEvict now r) = capacity r"
  by (simp add: maybeEvict_def Let_def)

lemma forceEvict_capacity [simp]: "capacity (forceEvict order now r) = capacity r"
  by (simp add: forceEvict_def Let_def split: option.splits prod.splits)

lemma refill_capacity: "tokens (refill r now b) \<le> capacity r"
  by (simp add: refill_def)

lemma small_capacity_denies:
  assumes "capacity r < 1"
  shows "\<not> fst (allow_live order now r key)" and "capacity (snd (allow_live order now r key)) = capacity r"
  using assms refill_capacity [of r now] refill_capacity [of "forceEvict order now r" now]
  by (auto simp: allow_live_def Let_def not_less split: option.splits if_splits)
    (use order_trans less_le_not_le in \<open>metis forceEvict_capacity\<close>)+

text \<open>A limiter with a burst below one admits nothing, ever: the constructor accepts it, every bucket stays
  below one token, and every request of every key is refused whatever the rate.\<close>

theorem burst_below_one_denies_all:
  assumes "NewRateLimiter rps burst = Some r" and "burst < 1"
  shows "admitted k calls (Some r) = 0"
proof -
  have "capacity r < 1" using assms by (simp add: NewRateLimiter_Some)
  then show ?thesis
  proof (induction calls arbitrary: r)
    case (Cons call calls)
    obtain order now key where call: "call = (order, now, key)" by (cases call)
    obtain ok r' where live: "allow_live order now r key = (ok, r')" by fastforce
    have "\<not> ok" "capacity r' < 1"
      using small_capacity_denies [OF Cons.prems, of order now key] live Cons.prems by simp_all
    with Cons.IH show ?case by (simp add: call Allow_def live)
  qed simp
qed

theorem burst_below_one_denies_all_witness:
  "admitted ''k'' [([], 0, ''k''), ([], Hour, ''k'')]
     (Some \<lparr>buckets = [], rate = 100, capacity = 1 / 2, evictAfter = 10 * Minute,
        lastEvict = zero_time, maxBuckets = defaultMaxBuckets\<rparr>) = 0"
  by (rule burst_below_one_denies_all [of 100 "1 / 2"]) (simp_all add: NewRateLimiter_def)

text \<open>
  A limiter of one request in 1024 seconds. After 601 seconds the bucket of a client is less than two
  thirds full.
\<close>

definition slow_limiter :: "rate_limiter option" where
  "slow_limiter = NewRateLimiter (1 / 1024) 1"

definition slow_used :: rate_limiter where
  "slow_used = \<lparr>buckets = [(''a'', \<lparr>tokens = 0, lastSeen = 0\<rparr>)], rate = 1 / 1024, capacity = 1,
     evictAfter = 10 * Minute, lastEvict = 0, maxBuckets = defaultMaxBuckets\<rparr>"

lemma f64_1 [simp]: "f64_round 1 = 1" using f64_round_of_nat [of 1] by simp

lemma Seconds_601: "Seconds (601 * Second) = 601"
  using f64_round_of_nat [of 601] by (simp add: Seconds_def quot_nonneg rem_nonneg)

lemma refill_601: "f64_round (f64_round (601 * (1 / 1024))) < 1"
proof -
  have three: "f64_round (3 / 4) = 3 / 4"
    using f64_round_exact [of 3 "- 2"] by simp
  have "f64_round (601 * (1 / 1024)) \<le> 3 / 4"
    by (rule float64.rnd_le_fixed [OF _ _ three]) simp_all
  moreover have "0 \<le> f64_round (601 * (1 / 1024))"
    by (rule float64.rnd_nonneg) simp
  ultimately have "f64_round (f64_round (601 * (1 / 1024))) \<le> 3 / 4"
    by (rule float64.rnd_le_fixed [OF _ _ three, rotated])
  then show ?thesis by simp
qed

lemma slow_first: "Allow [] 0 slow_limiter ''a'' = (True, Some slow_used)"
  by (simp add: slow_limiter_def NewRateLimiter_def Allow_def allow_live_def refill_def slow_used_def
      maybeEvict_def Let_def time_sub_def zero_time_def defaultMaxBuckets_def)

text \<open>Eviction can give a client a full bucket early. With one request in 1024 seconds, a client that used
  its token is refused 601 seconds later; but if some other client calls first at that moment, the
  idle bucket is evicted and the same request is admitted.\<close>

theorem eviction_refills_early:
  "fst (Allow [] 0 slow_limiter ''a'')
   \<and> \<not> fst (Allow [] (601 * Second) (snd (Allow [] 0 slow_limiter ''a'')) ''a'')
   \<and> fst (Allow [] (601 * Second)
        (snd (Allow [] (601 * Second) (snd (Allow [] 0 slow_limiter ''a'')) ''b'')) ''a'')"
proof -
  have "\<not> fst (Allow [] (601 * Second) (Some slow_used) ''a'')"
    using refill_601 Seconds_601
    by (simp add: Allow_def allow_live_def refill_def slow_used_def Let_def time_sub_def
        maybeEvict_def)
  moreover have "snd (Allow [] (601 * Second) (Some slow_used) ''b'')
      = Some (slow_used\<lparr>buckets := [(''b'', \<lparr>tokens = 0, lastSeen = 601 * Second\<rparr>)],
                        lastEvict := 601 * Second\<rparr>)"
    by (simp add: Allow_def allow_live_def refill_def slow_used_def Let_def time_sub_def
        maybeEvict_def defaultMaxBuckets_def)
  moreover have "fst (Allow [] (601 * Second) (Some (slow_used\<lparr>
      buckets := [(''b'', \<lparr>tokens = 0, lastSeen = 601 * Second\<rparr>)], lastEvict := 601 * Second\<rparr>)) ''a'')"
    by (simp add: Allow_def allow_live_def refill_def slow_used_def Let_def time_sub_def
        maybeEvict_def defaultMaxBuckets_def)
  ultimately show ?thesis by (simp add: slow_first)
qed

end
