(* ===== verification/Approval.thy ===== *)
theory Approval
  imports Go_Time "HOL-Library.Product_Lexorder"
begin

text \<open>
  \<open>api/approval.go\<close>: the in-memory registry of mutations parked for a second-person approval. Every
  method runs under the store's mutex, so it is one function from store to store. A method that
  reads the clock more than once takes its readings as \<open>clk 0\<close>, \<open>clk 1\<close> and so on.

  The locale \<open>approval_operation\<close> is the contract that every method keeps: the captured mutation never
  changes, phases only move along the approval machine, and the store stays well-formed. It is
  interpreted on the six methods. \<open>Complete\<close> keeps it only for a request that \<open>Approve\<close> returned, which is
  how the handler calls it.
\<close>

definition OpScale :: string where "OpScale = ''scale''"
definition OpRestart :: string where "OpRestart = ''restart''"
definition OpCordon :: string where "OpCordon = ''cordon''"
definition OpDrain :: string where "OpDrain = ''drain''"

lemmas op_defs = OpScale_def OpRestart_def OpCordon_def OpDrain_def

lemma ops_distinct [simp]:
  "OpScale \<noteq> OpRestart" "OpScale \<noteq> OpCordon" "OpScale \<noteq> OpDrain"
  "OpRestart \<noteq> OpScale" "OpRestart \<noteq> OpCordon" "OpRestart \<noteq> OpDrain"
  "OpCordon \<noteq> OpScale" "OpCordon \<noteq> OpRestart" "OpCordon \<noteq> OpDrain"
  "OpDrain \<noteq> OpScale" "OpDrain \<noteq> OpRestart" "OpDrain \<noteq> OpCordon"
  by (simp_all add: op_defs)

datatype approval_phase =
    ApprovalPhasePending | ApprovalPhaseApproved | ApprovalPhaseRejected
  | ApprovalPhaseExpired | ApprovalPhaseSucceeded | ApprovalPhaseFailed

fun approval_phase_wire :: "approval_phase \<Rightarrow> string" where
  "approval_phase_wire ApprovalPhasePending = ''pending''"
| "approval_phase_wire ApprovalPhaseApproved = ''approved''"
| "approval_phase_wire ApprovalPhaseRejected = ''rejected''"
| "approval_phase_wire ApprovalPhaseExpired = ''expired''"
| "approval_phase_wire ApprovalPhaseSucceeded = ''succeeded''"
| "approval_phase_wire ApprovalPhaseFailed = ''failed''"

datatype approval_error = ErrApprovalNotFound | ErrSelfApprove | ErrApprovalTerminal

fun approval_error_text :: "approval_error \<Rightarrow> string" where
  "approval_error_text ErrApprovalNotFound = ''approval request not found''"
| "approval_error_text ErrSelfApprove = ''requester cannot approve own request''"
| "approval_error_text ErrApprovalTerminal = ''approval request already resolved''"

record pending_request =
  pr_ID :: string
  pr_Op :: string
  pr_ClusterID :: string
  pr_TargetID :: string
  pr_Replicas :: "int option"
  pr_Phase :: approval_phase
  pr_Requester :: string
  pr_Approver :: string
  pr_Reason :: string
  pr_ResultID :: string
  pr_CreatedAt :: int
  pr_UpdatedAt :: int
  pr_ExpiresAt :: int

text \<open>The store; its clock and its generator of ids are arguments of the methods.\<close>

record approval_store =
  reqs :: "(string \<times> pending_request) list"
  ops :: "string list"
  ttl :: duration
  retention :: duration

definition minApprovalRetention :: duration where
  "minApprovalRetention = Hour"

definition NewApprovalStore :: "duration \<Rightarrow> string list \<Rightarrow> approval_store" where
  "NewApprovalStore d required =
     \<lparr>reqs = [], ops = required, ttl = d, retention = max d minApprovalRetention\<rparr>"

definition Requires :: "approval_store option \<Rightarrow> string \<Rightarrow> bool" where
  "Requires s op = (case s of
       None \<Rightarrow> False
     | Some s \<Rightarrow> if op = OpDrain \<and> OpCordon \<in> set (ops s) then True else op \<in> set (ops s))"

definition hex_byte :: "char \<Rightarrow> string" where
  "hex_byte c = [hex_digit (of_char c div 16), hex_digit (of_char c mod 16)]"

definition hex_encode :: "string \<Rightarrow> string" where
  "hex_encode s = concat (map hex_byte s)"

text \<open>The twelve random bytes are the argument.\<close>

definition randomApprovalID :: "string \<Rightarrow> string" where
  "randomApprovalID b = ''apr-'' @ hex_encode b"

definition copyRequest :: "pending_request \<Rightarrow> pending_request" where
  "copyRequest r = (case pr_Replicas r of None \<Rightarrow> r | Some v \<Rightarrow> r\<lparr>pr_Replicas := Some v\<rparr>)"

text \<open>The two readings are the comparison and the new \<open>UpdatedAt\<close>.\<close>

definition expireLocked :: "time \<Rightarrow> time \<Rightarrow> pending_request \<Rightarrow> pending_request" where
  "expireLocked t1 t2 r =
     (if pr_Phase r = ApprovalPhasePending \<and> UnixMilli t1 \<ge> pr_ExpiresAt r
      then r\<lparr>pr_Phase := ApprovalPhaseExpired, pr_UpdatedAt := UnixMilli t2\<rparr> else r)"

fun terminal :: "approval_phase \<Rightarrow> bool" where
  "terminal ApprovalPhasePending = False"
| "terminal ApprovalPhaseApproved = False"
| "terminal ApprovalPhaseRejected = True"
| "terminal ApprovalPhaseExpired = True"
| "terminal ApprovalPhaseSucceeded = True"
| "terminal ApprovalPhaseFailed = True"

fun sweep_loop :: "int \<Rightarrow> (nat \<Rightarrow> time) \<Rightarrow> (string \<times> pending_request) list \<Rightarrow>
    (string \<times> pending_request) list" where
  "sweep_loop cutoff clk [] = []"
| "sweep_loop cutoff clk ((k, r) # m) =
     (let r = expireLocked (clk 0) (clk 1) r;
          m = sweep_loop cutoff (\<lambda>i. clk (i + 2)) m
      in if terminal (pr_Phase r) \<and> pr_UpdatedAt r < cutoff then m else (k, r) # m)"

definition sweepLocked :: "time \<Rightarrow> (nat \<Rightarrow> time) \<Rightarrow> approval_store \<Rightarrow> approval_store" where
  "sweepLocked now clk s =
     (let cutoff = UnixMilli (now - retention s) in s\<lparr>reqs := sweep_loop cutoff clk (reqs s)\<rparr>)"

definition Park :: "(nat \<Rightarrow> time) \<Rightarrow> string \<Rightarrow> string \<Rightarrow> string \<Rightarrow> string \<Rightarrow> int option \<Rightarrow> string \<Rightarrow>
    approval_store \<Rightarrow> pending_request \<times> approval_store" where
  "Park clk newID op clusterID targetID replicas requester s =
     (let now = UnixMilli (clk 0);
          req = \<lparr>pr_ID = newID, pr_Op = op, pr_ClusterID = clusterID, pr_TargetID = targetID,
                 pr_Replicas = replicas, pr_Phase = ApprovalPhasePending, pr_Requester = requester,
                 pr_Approver = '''', pr_Reason = '''', pr_ResultID = '''',
                 pr_CreatedAt = now, pr_UpdatedAt = now, pr_ExpiresAt = UnixMilli (clk 1 + ttl s)\<rparr>;
          s = sweepLocked (clk 2) (\<lambda>i. clk (i + 3)) s
      in (copyRequest req, s\<lparr>reqs := AList.update newID req (reqs s)\<rparr>))"

definition Get :: "(nat \<Rightarrow> time) \<Rightarrow> string \<Rightarrow> approval_store \<Rightarrow>
    pending_request option \<times> approval_store" where
  "Get clk k s = (case map_of (reqs s) k of
       None \<Rightarrow> (None, s)
     | Some r \<Rightarrow>
         let r = expireLocked (clk 0) (clk 1) r
         in (Some (copyRequest r), s\<lparr>reqs := AList.update k r (reqs s)\<rparr>))"

definition List_for :: "(nat \<Rightarrow> time) \<Rightarrow> string \<Rightarrow> approval_store \<Rightarrow>
    pending_request list \<times> approval_store" where
  "List_for clk clusterID s =
     (let s = sweepLocked (clk 0) (\<lambda>i. clk (i + 1)) s;
          out = map copyRequest
                  (filter (\<lambda>r. clusterID = '''' \<or> pr_ClusterID r = clusterID) (map snd (reqs s)))
      in (sort_key (\<lambda>r. (pr_CreatedAt r, pr_ID r)) out, s))"

definition Approve :: "(nat \<Rightarrow> time) \<Rightarrow> string \<Rightarrow> string \<Rightarrow> approval_store \<Rightarrow>
    (approval_error + pending_request) \<times> approval_store" where
  "Approve clk k approver s = (case map_of (reqs s) k of
       None \<Rightarrow> (Inl ErrApprovalNotFound, s)
     | Some r \<Rightarrow>
         let r = expireLocked (clk 0) (clk 1) r;
             s = s\<lparr>reqs := AList.update k r (reqs s)\<rparr>
         in if pr_Phase r \<noteq> ApprovalPhasePending then (Inl ErrApprovalTerminal, s)
            else if approver = pr_Requester r then (Inl ErrSelfApprove, s)
            else let r = r\<lparr>pr_Approver := approver, pr_Phase := ApprovalPhaseApproved,
                            pr_UpdatedAt := UnixMilli (clk 2)\<rparr>
                 in (Inr (copyRequest r), s\<lparr>reqs := AList.update k r (reqs s)\<rparr>))"

definition Reject :: "(nat \<Rightarrow> time) \<Rightarrow> string \<Rightarrow> string \<Rightarrow> approval_store \<Rightarrow>
    (approval_error + pending_request) \<times> approval_store" where
  "Reject clk k reason s = (case map_of (reqs s) k of
       None \<Rightarrow> (Inl ErrApprovalNotFound, s)
     | Some r \<Rightarrow>
         let r = expireLocked (clk 0) (clk 1) r;
             s = s\<lparr>reqs := AList.update k r (reqs s)\<rparr>
         in if pr_Phase r \<noteq> ApprovalPhasePending then (Inl ErrApprovalTerminal, s)
            else let r = r\<lparr>pr_Phase := ApprovalPhaseRejected, pr_Reason := reason,
                            pr_UpdatedAt := UnixMilli (clk 2)\<rparr>
                 in (Inr (copyRequest r), s\<lparr>reqs := AList.update k r (reqs s)\<rparr>))"

definition Complete :: "(nat \<Rightarrow> time) \<Rightarrow> string \<Rightarrow> string \<Rightarrow> string \<Rightarrow> approval_store \<Rightarrow>
    (approval_error + pending_request) \<times> approval_store" where
  "Complete clk k resultID errMsg s = (case map_of (reqs s) k of
       None \<Rightarrow> (Inl ErrApprovalNotFound, s)
     | Some r \<Rightarrow>
         let r = (if errMsg \<noteq> '''' then r\<lparr>pr_Phase := ApprovalPhaseFailed, pr_Reason := errMsg\<rparr>
                  else r\<lparr>pr_Phase := ApprovalPhaseSucceeded, pr_ResultID := resultID\<rparr>);
             r = r\<lparr>pr_UpdatedAt := UnixMilli (clk 0)\<rparr>
         in (Inr (copyRequest r), s\<lparr>reqs := AList.update k r (reqs s)\<rparr>))"

lemma copyRequest_id [simp]: "copyRequest r = r"
  by (simp add: copyRequest_def split: option.splits)

subsection \<open>The approval machine\<close>

inductive phase_move :: "approval_phase \<Rightarrow> approval_phase \<Rightarrow> bool" where
  approve: "phase_move ApprovalPhasePending ApprovalPhaseApproved"
| reject: "phase_move ApprovalPhasePending ApprovalPhaseRejected"
| expire: "phase_move ApprovalPhasePending ApprovalPhaseExpired"
| succeed: "phase_move ApprovalPhaseApproved ApprovalPhaseSucceeded"
| fail: "phase_move ApprovalPhaseApproved ApprovalPhaseFailed"

inductive_cases phase_move_from: "phase_move p q"
inductive_simps phase_move_simps [simp]:
  "phase_move ApprovalPhasePending q" "phase_move ApprovalPhaseApproved q"
  "phase_move ApprovalPhaseRejected q" "phase_move ApprovalPhaseExpired q"
  "phase_move ApprovalPhaseSucceeded q" "phase_move ApprovalPhaseFailed q"

abbreviation phase_moves :: "approval_phase \<Rightarrow> approval_phase \<Rightarrow> bool" where
  "phase_moves \<equiv> phase_move\<^sup>*\<^sup>*"

fun was_approved :: "approval_phase \<Rightarrow> bool" where
  "was_approved ApprovalPhaseApproved = True"
| "was_approved ApprovalPhaseSucceeded = True"
| "was_approved ApprovalPhaseFailed = True"
| "was_approved ApprovalPhasePending = False"
| "was_approved ApprovalPhaseRejected = False"
| "was_approved ApprovalPhaseExpired = False"

lemma terminal_stuck: "phase_moves p q \<Longrightarrow> terminal p \<Longrightarrow> q = p"
  by (induction rule: converse_rtranclp_induct) (auto elim!: phase_move_from)

lemma was_approved_stable: "phase_moves p q \<Longrightarrow> was_approved p \<Longrightarrow> was_approved q"
  by (induction rule: rtranclp_induct) (auto elim!: phase_move_from)

lemma never_pending_again: "phase_moves p q \<Longrightarrow> p \<noteq> ApprovalPhasePending \<Longrightarrow> q \<noteq> ApprovalPhasePending"
  by (induction rule: rtranclp_induct) (auto elim!: phase_move_from)

text \<open>What stays of a request: everything the parked mutation captured.\<close>

definition same_mutation :: "pending_request \<Rightarrow> pending_request \<Rightarrow> bool" where
  "same_mutation r r' \<longleftrightarrow> pr_ID r' = pr_ID r \<and> pr_Op r' = pr_Op r \<and> pr_ClusterID r' = pr_ClusterID r
     \<and> pr_TargetID r' = pr_TargetID r \<and> pr_Replicas r' = pr_Replicas r
     \<and> pr_Requester r' = pr_Requester r \<and> pr_CreatedAt r' = pr_CreatedAt r
     \<and> pr_ExpiresAt r' = pr_ExpiresAt r"

definition evolves :: "pending_request \<Rightarrow> pending_request \<Rightarrow> bool" where
  "evolves r r' \<longleftrightarrow> same_mutation r r' \<and> phase_moves (pr_Phase r) (pr_Phase r')
     \<and> (was_approved (pr_Phase r) \<longrightarrow> pr_Approver r' = pr_Approver r)"

lemma evolves_refl [simp]: "evolves r r"
  by (simp add: evolves_def same_mutation_def)

lemma evolves_trans: "evolves r s \<Longrightarrow> evolves s t \<Longrightarrow> evolves r t"
  by (auto simp: evolves_def same_mutation_def dest: was_approved_stable)

definition record_ok :: "string \<Rightarrow> pending_request \<Rightarrow> bool" where
  "record_ok k r \<longleftrightarrow> pr_ID r = k
     \<and> (if was_approved (pr_Phase r) then pr_Approver r \<noteq> pr_Requester r else pr_Approver r = [])"

definition store_ok :: "approval_store \<Rightarrow> bool" where
  "store_ok s \<longleftrightarrow> distinct_keys (reqs s) \<and> (\<forall>(k, r) \<in> set (reqs s). record_ok k r)"

lemma store_ok_lookup: "store_ok s \<Longrightarrow> map_of (reqs s) k = Some r \<Longrightarrow> record_ok k r"
  by (auto simp: store_ok_def dest!: map_of_SomeD)

lemma store_ok_distinct: "store_ok s \<Longrightarrow> distinct_keys (reqs s)"
  by (simp add: store_ok_def)

lemma store_ok_update [store_inv]:
  assumes "store_ok s" and "record_ok k r"
  shows "store_ok (s\<lparr>reqs := AList.update k r (reqs s)\<rparr>)"
proof -
  have "record_ok j q" if "(j, q) \<in> set (AList.update k r (reqs s))" for j q
  proof -
    have "distinct_keys (AList.update k r (reqs s))"
      using assms(1) by (simp add: store_ok_def)
    with that have "map_of (AList.update k r (reqs s)) j = Some q" by simp
    with assms show ?thesis by (auto simp: update_conv' store_ok_lookup split: if_splits)
  qed
  with assms(1) show ?thesis by (auto simp: store_ok_def)
qed

subsection \<open>Expiry and sweeping\<close>

lemma expire_evolves: "evolves r (expireLocked t1 t2 r)"
  by (auto simp: expireLocked_def evolves_def same_mutation_def)

lemma expire_approver [simp]: "pr_Approver (expireLocked t1 t2 r) = pr_Approver r"
  by (simp add: expireLocked_def)

lemma expire_record_ok [store_inv]: "record_ok k r \<Longrightarrow> record_ok k (expireLocked t1 t2 r)"
  by (auto simp: expireLocked_def record_ok_def)

lemma expire_fields [simp]:
  "pr_ID (expireLocked t1 t2 r) = pr_ID r" "pr_Requester (expireLocked t1 t2 r) = pr_Requester r"
  "pr_ClusterID (expireLocked t1 t2 r) = pr_ClusterID r"
  "pr_ExpiresAt (expireLocked t1 t2 r) = pr_ExpiresAt r"
  by (simp_all add: expireLocked_def)

lemma expire_pending:
  "pr_Phase (expireLocked t1 t2 r) = ApprovalPhasePending \<longleftrightarrow>
     pr_Phase r = ApprovalPhasePending \<and> UnixMilli t1 < pr_ExpiresAt r"
  by (auto simp: expireLocked_def)

lemma expire_approved [simp]:
  "pr_Phase (expireLocked t1 t2 r) = ApprovalPhaseApproved \<longleftrightarrow> pr_Phase r = ApprovalPhaseApproved"
  by (auto simp: expireLocked_def)

lemma keys_sweep_loop: "set (keys (sweep_loop c clk m)) \<subseteq> set (keys m)"
  by (induction c clk m rule: sweep_loop.induct) (auto simp: Let_def)

lemma distinct_sweep_loop: "distinct_keys m \<Longrightarrow> distinct_keys (sweep_loop c clk m)"
proof (induction c clk m rule: sweep_loop.induct)
  case (2 c clk k r m)
  then show ?case
    using keys_sweep_loop [of c "\<lambda>i. clk (i + 2)" m] by (auto simp: Let_def)
qed simp

text \<open>What the sweep leaves at a key: the request, expired if it was due, or nothing if it is old.\<close>

lemma sweep_loop_lookup:
  assumes "distinct_keys m"
  shows "\<exists>t1 t2. map_of (sweep_loop c clk m) k = (case map_of m k of
      None \<Rightarrow> None
    | Some r \<Rightarrow> let r' = expireLocked t1 t2 r
                in if terminal (pr_Phase r') \<and> pr_UpdatedAt r' < c then None else Some r')"
  using assms
proof (induction c clk m rule: sweep_loop.induct)
  case (2 c clk j r m)
  show ?case
  proof (cases "k = j")
    case True
    have "j \<notin> set (keys m)" using "2.prems" by simp
    then have "map_of (sweep_loop c (\<lambda>i. clk (i + 2)) m) j = None"
      using keys_sweep_loop [of c "\<lambda>i. clk (i + 2)" m]
      by (auto simp: map_of_eq_None_iff)
    with True show ?thesis
      by (intro exI [where x = "clk 0"] exI [where x = "clk 1"]) (simp add: Let_def)
  next
    case False
    have "distinct_keys m" using "2.prems" by simp
    from "2.IH" [OF refl this] False show ?thesis by (simp add: Let_def)
  qed
qed simp

lemma sweep_lookup:
  assumes "distinct_keys (reqs s)"
  obtains t1 t2 where "map_of (reqs (sweepLocked now clk s)) k = (case map_of (reqs s) k of
      None \<Rightarrow> None
    | Some r \<Rightarrow> let r' = expireLocked t1 t2 r
                in if terminal (pr_Phase r') \<and> pr_UpdatedAt r' < UnixMilli (now - retention s)
                   then None else Some r')"
  using sweep_loop_lookup [OF assms] by (fastforce simp: sweepLocked_def)

lemma sweep_config [simp]:
  "ops (sweepLocked now clk s) = ops s" "ttl (sweepLocked now clk s) = ttl s"
  "retention (sweepLocked now clk s) = retention s"
  by (simp_all add: sweepLocked_def Let_def)

lemma sweep_ok [store_inv]:
  assumes "store_ok s"
  shows "store_ok (sweepLocked now clk s)"
proof -
  have d: "distinct_keys (reqs s)" using assms by (rule store_ok_distinct)
  then have d': "distinct_keys (reqs (sweepLocked now clk s))"
    by (simp add: sweepLocked_def Let_def distinct_sweep_loop)
  have "record_ok k r'" if "(k, r') \<in> set (reqs (sweepLocked now clk s))" for k r'
  proof -
    have "map_of (reqs (sweepLocked now clk s)) k = Some r'" using that d' by simp
    then show ?thesis
      using store_ok_lookup [OF assms, of k]
      by (rule_tac sweep_lookup [OF d, of now clk k])
        (auto simp: Let_def intro: expire_record_ok split: option.splits if_splits)
  qed
  with d' show ?thesis by (auto simp: store_ok_def)
qed

lemma sweep_evolves:
  assumes "store_ok s" and "map_of (reqs s) k = Some r"
    and "map_of (reqs (sweepLocked now clk s)) k = Some r'"
  shows "evolves r r'"
  using assms(2,3) expire_evolves
  by (rule_tac sweep_lookup [OF store_ok_distinct [OF assms(1)], of now clk k])
    (auto simp: Let_def split: if_splits)

lemma sweep_keeps_approved:
  assumes "store_ok s" and "map_of (reqs s) k = Some r" and "pr_Phase r = ApprovalPhaseApproved"
  shows "map_of (reqs (sweepLocked now clk s)) k = Some r"
  using assms(2,3)
  by (rule_tac sweep_lookup [OF store_ok_distinct [OF assms(1)], of now clk k])
    (auto simp: Let_def expireLocked_def)

subsection \<open>The contract of an operation on the store\<close>

locale approval_operation =
  fixes step :: "approval_store \<Rightarrow> approval_store \<Rightarrow> bool"
  assumes keeps_ok: "store_ok s \<Longrightarrow> step s s' \<Longrightarrow> store_ok s'"
    and keeps_config: "step s s' \<Longrightarrow> ops s' = ops s \<and> ttl s' = ttl s \<and> retention s' = retention s"
    and evolution: "store_ok s \<Longrightarrow> step s s' \<Longrightarrow> map_of (reqs s) k = Some r \<Longrightarrow>
      map_of (reqs s') k = Some r' \<Longrightarrow> evolves r r'"
    and keeps_approved: "store_ok s \<Longrightarrow> step s s' \<Longrightarrow> map_of (reqs s) k = Some r \<Longrightarrow>
      pr_Phase r = ApprovalPhaseApproved \<Longrightarrow> map_of (reqs s') k \<noteq> None"
begin

lemma two_persons:
  "store_ok s \<Longrightarrow> step s s' \<Longrightarrow> map_of (reqs s') k = Some r' \<Longrightarrow> was_approved (pr_Phase r') \<Longrightarrow>
     pr_Approver r' \<noteq> pr_Requester r'"
  using keeps_ok store_ok_lookup by (fastforce simp: record_ok_def)

lemma resolved_is_final:
  "store_ok s \<Longrightarrow> step s s' \<Longrightarrow> map_of (reqs s) k = Some r \<Longrightarrow> map_of (reqs s') k = Some r' \<Longrightarrow>
     terminal (pr_Phase r) \<Longrightarrow> pr_Phase r' = pr_Phase r"
  using evolution [of s s' k r r'] by (auto simp: evolves_def dest: terminal_stuck)

lemma mutation_is_fixed:
  "store_ok s \<Longrightarrow> step s s' \<Longrightarrow> map_of (reqs s) k = Some r \<Longrightarrow> map_of (reqs s') k = Some r' \<Longrightarrow>
     same_mutation r r'"
  using evolution [of s s' k r r'] by (auto simp: evolves_def)

end

subsubsection \<open>Park\<close>

text \<open>
  The generated id is taken to be new: it is 96 random bits. The other operations take any id.
\<close>

definition park_step :: "approval_store \<Rightarrow> approval_store \<Rightarrow> bool" where
  "park_step s s' \<longleftrightarrow> (\<exists>clk newID op clusterID targetID replicas requester.
     newID \<notin> set (keys (reqs s)) \<and> s' = snd (Park clk newID op clusterID targetID replicas requester s))"

lemma park_record_ok: "pr_Phase r = ApprovalPhasePending \<Longrightarrow> pr_Approver r = [] \<Longrightarrow> pr_ID r = k \<Longrightarrow> record_ok k r"
  by (simp add: record_ok_def)

lemma keys_sweep: "set (keys (reqs (sweepLocked now clk s))) \<subseteq> set (keys (reqs s))"
  unfolding sweepLocked_def Let_def by (simp del: set_map add: keys_sweep_loop)

lemma Park_ok [store_inv]:
  "store_ok s \<Longrightarrow> store_ok (snd (Park clk newID op clusterID targetID replicas requester s))"
  unfolding Park_def Let_def snd_conv
  by (intro store_ok_update sweep_ok park_record_ok) simp_all

lemma Park_other:
  "j \<noteq> newID \<Longrightarrow> map_of (reqs (snd (Park clk newID op clusterID targetID replicas requester s))) j
     = map_of (reqs (sweepLocked (clk 2) (\<lambda>i. clk (i + 3)) s)) j"
  by (simp add: Park_def Let_def update_conv')

interpretation park: approval_operation park_step
proof unfold_locales
  fix s s' :: approval_store
  assume step: "park_step s s'"
  then obtain clk newID op clusterID targetID replicas requester where
    new: "newID \<notin> set (keys (reqs s))" and
    s': "s' = snd (Park clk newID op clusterID targetID replicas requester s)"
    by (auto simp: park_step_def)
  show "ops s' = ops s \<and> ttl s' = ttl s \<and> retention s' = retention s"
    by (simp add: s' Park_def Let_def)
  assume ok: "store_ok s"
  then show "store_ok s'" by (simp add: s' Park_ok)
  fix k r
  assume r: "map_of (reqs s) k = Some r"
  then have "k \<noteq> newID" using new by (force dest: map_of_SomeD)
  then have other: "map_of (reqs s') k = map_of (reqs (sweepLocked (clk 2) (\<lambda>i. clk (i + 3)) s)) k"
    by (simp add: s' Park_other)
  show "evolves r r'" if "map_of (reqs s') k = Some r'" for r'
    using that ok r unfolding other by (intro sweep_evolves)
  show "map_of (reqs s') k \<noteq> None" if "pr_Phase r = ApprovalPhaseApproved"
    unfolding other using sweep_keeps_approved [OF ok r that] by simp
qed

subsubsection \<open>List and Get\<close>

definition list_step :: "approval_store \<Rightarrow> approval_store \<Rightarrow> bool" where
  "list_step s s' \<longleftrightarrow> (\<exists>clk clusterID. s' = snd (List_for clk clusterID s))"

definition get_step :: "approval_store \<Rightarrow> approval_store \<Rightarrow> bool" where
  "get_step s s' \<longleftrightarrow> (\<exists>clk k. s' = snd (Get clk k s))"

lemma List_store: "snd (List_for clk clusterID s) = sweepLocked (clk 0) (\<lambda>i. clk (i + 1)) s"
  by (simp add: List_for_def Let_def)

interpretation list: approval_operation list_step
  by unfold_locales
    (auto simp: list_step_def List_store sweep_ok dest: sweep_evolves sweep_keeps_approved)

lemma Get_cases:
  obtains (missing) "map_of (reqs s) k = None" "Get clk k s = (None, s)"
  | (present) r where "map_of (reqs s) k = Some r"
      "Get clk k s = (Some (expireLocked (clk 0) (clk 1) r),
         s\<lparr>reqs := AList.update k (expireLocked (clk 0) (clk 1) r) (reqs s)\<rparr>)"
  by (cases "map_of (reqs s) k") (auto simp: Get_def Let_def)

text \<open>The law of an operation on one key that may rewrite that key's record.\<close>

definition rewrites_one :: "approval_store \<Rightarrow> approval_store \<Rightarrow> bool" where
  "rewrites_one s s' \<longleftrightarrow> (\<exists>k r q. map_of (reqs s) k = Some r \<and> evolves r q \<and> record_ok k q
     \<and> s' = s\<lparr>reqs := AList.update k q (reqs s)\<rparr>)"

lemma rewrites_oneI:
  "map_of (reqs s) k = Some r \<Longrightarrow> evolves r q \<Longrightarrow> record_ok k q \<Longrightarrow>
     rewrites_one s (s\<lparr>reqs := AList.update k q (reqs s)\<rparr>)"
  by (auto simp: rewrites_one_def)

lemma rewrites_one_contract:
  assumes "store_ok s" and "s' = s \<or> rewrites_one s s'"
  shows "store_ok s'"
    and "ops s' = ops s \<and> ttl s' = ttl s \<and> retention s' = retention s"
    and "map_of (reqs s) j = Some p \<Longrightarrow> map_of (reqs s') j = Some p' \<Longrightarrow> evolves p p'"
    and "map_of (reqs s) j \<noteq> None \<Longrightarrow> map_of (reqs s') j \<noteq> None"
  using assms(2)
  by (auto simp: assms(1) rewrites_one_def store_ok_update update_conv' split: if_splits)

lemma operation_on_one_key:
  assumes "\<And>s s'. store_ok s \<Longrightarrow> step s s' \<Longrightarrow> s' = s \<or> rewrites_one s s'"
    and "\<And>s s'. step s s' \<Longrightarrow> ops s' = ops s \<and> ttl s' = ttl s \<and> retention s' = retention s"
  shows "approval_operation step"
proof
  fix s s' :: approval_store
  assume step: "step s s'"
  then show "ops s' = ops s \<and> ttl s' = ttl s \<and> retention s' = retention s" by (rule assms(2))
  assume ok: "store_ok s"
  note law = rewrites_one_contract [OF ok assms(1) [OF ok step]]
  show "store_ok s'" by (rule law(1))
  show "evolves r r'" if "map_of (reqs s) k = Some r" "map_of (reqs s') k = Some r'" for k r r'
    using that by (rule law(3))
  show "map_of (reqs s') k \<noteq> None" if "map_of (reqs s) k = Some r" for k r
    using that by (intro law(4)) simp
qed

interpretation get: approval_operation get_step
proof (rule operation_on_one_key)
  fix s s' :: approval_store
  assume "get_step s s'"
  then obtain clk k where s': "s' = snd (Get clk k s)" by (auto simp: get_step_def)
  then show "ops s' = ops s \<and> ttl s' = ttl s \<and> retention s' = retention s"
    by (cases rule: Get_cases [of s k clk]) simp_all
  assume ok: "store_ok s"
  show "s' = s \<or> rewrites_one s s'"
    by (cases rule: Get_cases [of s k clk])
      (simp_all add: s' rewrites_oneI expire_evolves expire_record_ok store_ok_lookup [OF ok])
qed

subsubsection \<open>Approve, Reject and Complete\<close>

definition approve_step :: "approval_store \<Rightarrow> approval_store \<Rightarrow> bool" where
  "approve_step s s' \<longleftrightarrow> (\<exists>clk k approver. s' = snd (Approve clk k approver s))"

definition reject_step :: "approval_store \<Rightarrow> approval_store \<Rightarrow> bool" where
  "reject_step s s' \<longleftrightarrow> (\<exists>clk k reason. s' = snd (Reject clk k reason s))"

text \<open>The guard is how the handler calls \<open>Complete\<close>: only for a request that it has approved.\<close>

definition complete_step :: "approval_store \<Rightarrow> approval_store \<Rightarrow> bool" where
  "complete_step s s' \<longleftrightarrow> (\<exists>clk k resultID errMsg r. map_of (reqs s) k = Some r
     \<and> pr_Phase r = ApprovalPhaseApproved \<and> s' = snd (Complete clk k resultID errMsg s))"

lemma Approve_cases:
  obtains (missing) "map_of (reqs s) k = None" "Approve clk k a s = (Inl ErrApprovalNotFound, s)"
  | (resolved) r where "map_of (reqs s) k = Some r"
      "\<not> (pr_Phase r = ApprovalPhasePending \<and> UnixMilli (clk 0) < pr_ExpiresAt r)"
      "Approve clk k a s = (Inl ErrApprovalTerminal,
         s\<lparr>reqs := AList.update k (expireLocked (clk 0) (clk 1) r) (reqs s)\<rparr>)"
  | (own) r where "map_of (reqs s) k = Some r" "pr_Phase r = ApprovalPhasePending"
      "UnixMilli (clk 0) < pr_ExpiresAt r" "a = pr_Requester r"
      "Approve clk k a s = (Inl ErrSelfApprove, s\<lparr>reqs := AList.update k r (reqs s)\<rparr>)"
  | (approved) r q where "map_of (reqs s) k = Some r" "pr_Phase r = ApprovalPhasePending"
      "UnixMilli (clk 0) < pr_ExpiresAt r" "a \<noteq> pr_Requester r"
      "q = r\<lparr>pr_Approver := a, pr_Phase := ApprovalPhaseApproved, pr_UpdatedAt := UnixMilli (clk 2)\<rparr>"
      "Approve clk k a s = (Inr q, s\<lparr>reqs := AList.update k q (reqs s)\<rparr>)"
proof (cases "map_of (reqs s) k")
  case None
  then show ?thesis using missing by (simp add: Approve_def)
next
  case (Some r)
  have live: "expireLocked (clk 0) (clk 1) r = r"
    if "pr_Phase r = ApprovalPhasePending" "UnixMilli (clk 0) < pr_ExpiresAt r"
    using that by (simp add: expireLocked_def)
  show ?thesis
  proof (cases "pr_Phase r = ApprovalPhasePending \<and> UnixMilli (clk 0) < pr_ExpiresAt r")
    case False
    then have "pr_Phase (expireLocked (clk 0) (clk 1) r) \<noteq> ApprovalPhasePending"
      by (simp add: expire_pending)
    with Some False show ?thesis by (intro resolved [of r]) (simp_all add: Approve_def Let_def)
  next
    case True
    then have e: "expireLocked (clk 0) (clk 1) r = r" by (intro live) simp_all
    show ?thesis
    proof (cases "a = pr_Requester r")
      case own_request: True
      with Some True e show ?thesis by (intro own [of r]) (simp_all add: Approve_def Let_def)
    next
      case False
      with Some True e show ?thesis
        by (intro approved [OF Some _ _ False refl]) (simp_all add: Approve_def Let_def update_update)
    qed
  qed
qed

lemma Reject_cases:
  obtains (missing) "map_of (reqs s) k = None" "Reject clk k a s = (Inl ErrApprovalNotFound, s)"
  | (resolved) r where "map_of (reqs s) k = Some r"
      "\<not> (pr_Phase r = ApprovalPhasePending \<and> UnixMilli (clk 0) < pr_ExpiresAt r)"
      "Reject clk k a s = (Inl ErrApprovalTerminal,
         s\<lparr>reqs := AList.update k (expireLocked (clk 0) (clk 1) r) (reqs s)\<rparr>)"
  | (rejected) r q where "map_of (reqs s) k = Some r" "pr_Phase r = ApprovalPhasePending"
      "UnixMilli (clk 0) < pr_ExpiresAt r"
      "q = r\<lparr>pr_Phase := ApprovalPhaseRejected, pr_Reason := a, pr_UpdatedAt := UnixMilli (clk 2)\<rparr>"
      "Reject clk k a s = (Inr q, s\<lparr>reqs := AList.update k q (reqs s)\<rparr>)"
proof (cases "map_of (reqs s) k")
  case None
  then show ?thesis using missing by (simp add: Reject_def)
next
  case (Some r)
  show ?thesis
  proof (cases "pr_Phase r = ApprovalPhasePending \<and> UnixMilli (clk 0) < pr_ExpiresAt r")
    case False
    then have "pr_Phase (expireLocked (clk 0) (clk 1) r) \<noteq> ApprovalPhasePending"
      by (simp add: expire_pending)
    with Some False show ?thesis by (intro resolved [of r]) (simp_all add: Reject_def Let_def)
  next
    case True
    then have "expireLocked (clk 0) (clk 1) r = r" by (simp add: expireLocked_def)
    with Some True show ?thesis
      by (intro rejected [OF Some _ _ refl]) (simp_all add: Reject_def Let_def update_update)
  qed
qed

lemma Complete_cases:
  obtains (missing) "map_of (reqs s) k = None" "Complete clk k i e s = (Inl ErrApprovalNotFound, s)"
  | (present) r q where "map_of (reqs s) k = Some r"
      "q = (if e \<noteq> [] then r\<lparr>pr_Phase := ApprovalPhaseFailed, pr_Reason := e, pr_UpdatedAt := UnixMilli (clk 0)\<rparr>
            else r\<lparr>pr_Phase := ApprovalPhaseSucceeded, pr_ResultID := i, pr_UpdatedAt := UnixMilli (clk 0)\<rparr>)"
      "Complete clk k i e s = (Inr q, s\<lparr>reqs := AList.update k q (reqs s)\<rparr>)"
  by (cases "map_of (reqs s) k") (auto simp: Complete_def Let_def)

lemma move_evolves:
  "same_mutation r q \<Longrightarrow> phase_move (pr_Phase r) (pr_Phase q) \<Longrightarrow>
     (was_approved (pr_Phase r) \<Longrightarrow> pr_Approver q = pr_Approver r) \<Longrightarrow> evolves r q"
  by (simp add: evolves_def)

lemma resolve_evolves:
  assumes "pr_Phase r = ApprovalPhasePending"
  shows "evolves r (r\<lparr>pr_Approver := a, pr_Phase := ApprovalPhaseApproved, pr_UpdatedAt := t\<rparr>)"
    and "evolves r (r\<lparr>pr_Phase := ApprovalPhaseRejected, pr_Reason := a, pr_UpdatedAt := t\<rparr>)"
  using assms by (auto intro!: move_evolves simp: same_mutation_def)

lemma complete_evolves:
  assumes "pr_Phase r = ApprovalPhaseApproved"
  shows "evolves r (r\<lparr>pr_Phase := ApprovalPhaseFailed, pr_Reason := a, pr_UpdatedAt := t\<rparr>)"
    and "evolves r (r\<lparr>pr_Phase := ApprovalPhaseSucceeded, pr_ResultID := a, pr_UpdatedAt := t\<rparr>)"
  using assms by (auto intro!: move_evolves simp: same_mutation_def)

lemma resolve_record_ok:
  assumes "record_ok k r" and "pr_Phase r = ApprovalPhasePending"
  shows "a \<noteq> pr_Requester r \<Longrightarrow>
      record_ok k (r\<lparr>pr_Approver := a, pr_Phase := ApprovalPhaseApproved, pr_UpdatedAt := t\<rparr>)"
    and "record_ok k (r\<lparr>pr_Phase := ApprovalPhaseRejected, pr_Reason := a, pr_UpdatedAt := t\<rparr>)"
  using assms by (simp_all add: record_ok_def)

lemma complete_record_ok:
  assumes "record_ok k r" and "pr_Phase r = ApprovalPhaseApproved"
  shows "record_ok k (r\<lparr>pr_Phase := ApprovalPhaseFailed, pr_Reason := a, pr_UpdatedAt := t\<rparr>)"
    and "record_ok k (r\<lparr>pr_Phase := ApprovalPhaseSucceeded, pr_ResultID := a, pr_UpdatedAt := t\<rparr>)"
  using assms by (simp_all add: record_ok_def)

lemmas request_moves = expire_evolves resolve_evolves complete_evolves
  expire_record_ok resolve_record_ok complete_record_ok

interpretation approve: approval_operation approve_step
proof (rule operation_on_one_key)
  fix s s' :: approval_store
  assume "approve_step s s'"
  then obtain clk k a where s': "s' = snd (Approve clk k a s)" by (auto simp: approve_step_def)
  then show "ops s' = ops s \<and> ttl s' = ttl s \<and> retention s' = retention s"
    by (cases rule: Approve_cases [of s k clk a]) simp_all
  assume ok: "store_ok s"
  note found = store_ok_lookup [OF ok, of k]
  show "s' = s \<or> rewrites_one s s'"
    by (cases rule: Approve_cases [of s k clk a])
      (use found in \<open>simp_all add: s' rewrites_oneI request_moves\<close>)
qed

interpretation reject: approval_operation reject_step
proof (rule operation_on_one_key)
  fix s s' :: approval_store
  assume "reject_step s s'"
  then obtain clk k a where s': "s' = snd (Reject clk k a s)" by (auto simp: reject_step_def)
  then show "ops s' = ops s \<and> ttl s' = ttl s \<and> retention s' = retention s"
    by (cases rule: Reject_cases [of s k clk a]) simp_all
  assume ok: "store_ok s"
  note found = store_ok_lookup [OF ok, of k]
  show "s' = s \<or> rewrites_one s s'"
    by (cases rule: Reject_cases [of s k clk a])
      (use found in \<open>simp_all add: s' rewrites_oneI request_moves\<close>)
qed

interpretation complete: approval_operation complete_step
proof (rule operation_on_one_key)
  fix s s' :: approval_store
  assume "complete_step s s'"
  then obtain clk k i e r where r: "map_of (reqs s) k = Some r" "pr_Phase r = ApprovalPhaseApproved"
    and s': "s' = snd (Complete clk k i e s)" by (auto simp: complete_step_def)
  then show "ops s' = ops s \<and> ttl s' = ttl s \<and> retention s' = retention s"
    by (cases rule: Complete_cases [of s k clk i e]) simp_all
  assume ok: "store_ok s"
  note found = store_ok_lookup [OF ok r(1)]
  show "s' = s \<or> rewrites_one s s'"
    by (cases rule: Complete_cases [of s k clk i e])
      (use found r in \<open>simp_all add: s' rewrites_oneI request_moves\<close>)
qed

subsection \<open>Histories of the store\<close>

inductive store_step :: "approval_store \<Rightarrow> approval_store \<Rightarrow> bool" where
  park: "park_step s s' \<Longrightarrow> store_step s s'"
| list: "list_step s s' \<Longrightarrow> store_step s s'"
| get: "get_step s s' \<Longrightarrow> store_step s s'"
| approve: "approve_step s s' \<Longrightarrow> store_step s s'"
| reject: "reject_step s s' \<Longrightarrow> store_step s s'"
| complete: "complete_step s s' \<Longrightarrow> store_step s s'"

lemma one_step_intros:
  "newID \<notin> set (keys (reqs s)) \<Longrightarrow>
     park_step s (snd (Park clk newID op clusterID targetID replicas requester s))"
  "list_step s (snd (List_for clk clusterID s))"
  "get_step s (snd (Get clk k s))"
  "approve_step s (snd (Approve clk k approver s))"
  "reject_step s (snd (Reject clk k reason s))"
  "map_of (reqs s) k = Some r \<Longrightarrow> pr_Phase r = ApprovalPhaseApproved \<Longrightarrow>
     complete_step s (snd (Complete clk k resultID errMsg s))"
  unfolding park_step_def list_step_def get_step_def approve_step_def reject_step_def
    complete_step_def by blast+

inductive_cases store_stepE: "store_step s s'"

interpretation any_step: approval_operation store_step
proof
  fix s s' :: approval_store
  assume step: "store_step s s'"
  then show "ops s' = ops s \<and> ttl s' = ttl s \<and> retention s' = retention s"
    by (rule store_stepE)
      (erule park.keeps_config list.keeps_config get.keeps_config approve.keeps_config
        reject.keeps_config complete.keeps_config)+
  assume ok: "store_ok s"
  from step show "store_ok s'"
    by (rule store_stepE)
      (rule park.keeps_ok list.keeps_ok get.keeps_ok approve.keeps_ok
        reject.keeps_ok complete.keeps_ok, rule ok, assumption)+
  show "evolves r r'" if "map_of (reqs s) k = Some r" "map_of (reqs s') k = Some r'" for k r r'
    using step
    by (rule store_stepE)
      (use that ok in \<open>auto intro: park.evolution list.evolution get.evolution approve.evolution
        reject.evolution complete.evolution\<close>)
  show "map_of (reqs s') k \<noteq> None"
    if "map_of (reqs s) k = Some r" "pr_Phase r = ApprovalPhaseApproved" for k r
    using step
    by (rule store_stepE)
      (use that ok in \<open>blast dest: park.keeps_approved list.keeps_approved get.keeps_approved
        approve.keeps_approved reject.keeps_approved complete.keeps_approved\<close>)+
qed

abbreviation store_steps :: "approval_store \<Rightarrow> approval_store \<Rightarrow> bool" where
  "store_steps \<equiv> store_step\<^sup>*\<^sup>*"

lemma store_steps_ok: "store_steps s s' \<Longrightarrow> store_ok s \<Longrightarrow> store_ok s'"
  by (induction rule: rtranclp_induct) (auto intro: any_step.keeps_ok)

lemma NewApprovalStore_ok [simp]: "store_ok (NewApprovalStore d required)"
  by (simp add: NewApprovalStore_def store_ok_def)

subsection \<open>What callers rely on\<close>

lemma store_steps_config:
  "store_steps s s' \<Longrightarrow> ops s' = ops s \<and> ttl s' = ttl s \<and> retention s' = retention s"
  by (induction rule: rtranclp_induct) (auto dest: any_step.keeps_config)

text \<open>C10: whatever sequence of store operations runs, a request that was ever approved (still running,
  succeeded or failed) carries an approver that is not its requester, and a request that was not
  approved carries no approver; every request is filed under its own id.\<close>

theorem approvals_are_two_person:
  assumes "store_steps (NewApprovalStore d required) s"
    and "map_of (reqs s) k = Some r"
  shows "pr_ID r = k \<and>
    (if was_approved (pr_Phase r) then pr_Approver r \<noteq> pr_Requester r else pr_Approver r = [])"
  using store_ok_lookup [OF store_steps_ok [OF assms(1)] assms(2)] by (simp add: record_ok_def)

definition demo_store :: approval_store where
  "demo_store = NewApprovalStore (5 * Minute) [OpDrain]"

definition demo_parked :: approval_store where
  "demo_parked = snd (Park (\<lambda>i. 0) ''apr-1'' OpDrain ''c'' ''n1'' None ''token:a'' demo_store)"

definition demo_approved :: approval_store where
  "demo_approved = snd (Approve (\<lambda>i. 2 * Second) ''apr-1'' ''token:b'' demo_parked)"

lemmas demo_defs = demo_store_def demo_parked_def demo_approved_def NewApprovalStore_def
  Park_def Approve_def sweepLocked_def expireLocked_def minApprovalRetention_def
  UnixMilli_def Let_def

lemma demo_parked_value: "demo_parked = \<lparr>reqs = [(''apr-1'', \<lparr>pr_ID = ''apr-1'', pr_Op = OpDrain,
    pr_ClusterID = ''c'', pr_TargetID = ''n1'', pr_Replicas = None, pr_Phase = ApprovalPhasePending,
    pr_Requester = ''token:a'', pr_Approver = [], pr_Reason = [], pr_ResultID = [],
    pr_CreatedAt = 0, pr_UpdatedAt = 0, pr_ExpiresAt = 300000\<rparr>)],
    ops = [OpDrain], ttl = 5 * Minute, retention = Hour\<rparr>"
  by (simp add: demo_defs)

lemma demo_approved_value: "demo_approved = \<lparr>reqs = [(''apr-1'', \<lparr>pr_ID = ''apr-1'', pr_Op = OpDrain,
    pr_ClusterID = ''c'', pr_TargetID = ''n1'', pr_Replicas = None, pr_Phase = ApprovalPhaseApproved,
    pr_Requester = ''token:a'', pr_Approver = ''token:b'', pr_Reason = [], pr_ResultID = [],
    pr_CreatedAt = 0, pr_UpdatedAt = 2000, pr_ExpiresAt = 300000\<rparr>)],
    ops = [OpDrain], ttl = 5 * Minute, retention = Hour\<rparr>"
  by (simp add: demo_approved_def demo_parked_value Approve_def expireLocked_def
    UnixMilli_def Let_def)

lemma demo_history: "store_steps demo_store demo_approved" "store_ok demo_parked"
proof -
  have "park_step demo_store demo_parked"
    unfolding demo_parked_def
    by (rule one_step_intros) (simp add: demo_store_def NewApprovalStore_def)
  then have p: "store_step demo_store demo_parked" by (rule store_step.park)
  have "approve_step demo_parked demo_approved"
    unfolding demo_approved_def by (rule one_step_intros)
  then have "store_step demo_parked demo_approved" by (rule store_step.approve)
  with p show "store_steps demo_store demo_approved" by simp
  from p show "store_ok demo_parked"
    by (rule any_step.keeps_ok [rotated]) (simp add: demo_store_def)
qed

theorem approvals_are_two_person_witness:
  "map_of (reqs demo_approved) ''apr-1'' \<noteq> None \<and>
   pr_Approver (the (map_of (reqs demo_approved) ''apr-1''))
     \<noteq> pr_Requester (the (map_of (reqs demo_approved) ''apr-1''))"
  using approvals_are_two_person [OF demo_history(1) [unfolded demo_store_def], of "''apr-1''"]
  by (simp add: demo_approved_value)

text \<open>C11: one store operation, whichever it is, never changes what a parked request captured (operation,
  cluster, target, replicas, requester, times), moves its phase only along the approval machine, leaves a
  resolved phase alone, and never drops a request whose approved mutation is still running.\<close>

theorem requests_evolve:
  assumes "store_ok s" and "store_step s s'" and "map_of (reqs s) k = Some r"
  shows "case map_of (reqs s') k of
      None \<Rightarrow> pr_Phase r \<noteq> ApprovalPhaseApproved
    | Some r' \<Rightarrow> same_mutation r r' \<and> phase_moves (pr_Phase r) (pr_Phase r')
        \<and> (terminal (pr_Phase r) \<longrightarrow> pr_Phase r' = pr_Phase r)
        \<and> (was_approved (pr_Phase r) \<longrightarrow> was_approved (pr_Phase r') \<and> pr_Approver r' = pr_Approver r)"
proof (cases "map_of (reqs s') k")
  case None
  then show ?thesis using any_step.keeps_approved [OF assms] by auto
next
  case (Some r')
  then show ?thesis
    using any_step.evolution [OF assms Some]
    by (auto simp: evolves_def dest: terminal_stuck was_approved_stable)
qed

theorem requests_evolve_witness:
  "same_mutation (the (map_of (reqs demo_parked) ''apr-1'')) (the (map_of (reqs demo_approved) ''apr-1''))"
proof -
  have "store_step demo_parked demo_approved"
    unfolding demo_approved_def by (intro store_step.approve one_step_intros)
  from requests_evolve [OF demo_history(2) this, of "''apr-1''"] show ?thesis
    by (simp add: demo_parked_value demo_approved_value)
qed

text \<open>A parked request can be approved exactly while its ttl runs, and by anybody but its
  requester; otherwise the approval names the right error. This holds in every store, whatever the sweep
  of \<open>Park\<close> dropped.\<close>

lemma park_then_approve:
  "fst (Approve clk' newID approver (snd (Park clk newID op clusterID targetID replicas requester s))) =
     (if UnixMilli (clk' 0) \<ge> UnixMilli (clk 1 + ttl s) then Inl ErrApprovalTerminal
      else if approver = requester then Inl ErrSelfApprove
      else Inr \<lparr>pr_ID = newID, pr_Op = op, pr_ClusterID = clusterID, pr_TargetID = targetID,
                pr_Replicas = replicas, pr_Phase = ApprovalPhaseApproved, pr_Requester = requester,
                pr_Approver = approver, pr_Reason = [], pr_ResultID = [],
                pr_CreatedAt = UnixMilli (clk 0), pr_UpdatedAt = UnixMilli (clk' 2),
                pr_ExpiresAt = UnixMilli (clk 1 + ttl s)\<rparr>)"
  by (simp add: Park_def Approve_def Let_def update_conv' expireLocked_def)

text \<open>Once a request is resolved or its mutation is running, neither \<open>Approve\<close> nor \<open>Reject\<close> succeeds on it
  any more, and neither changes the stored record.\<close>

theorem decided_once:
  assumes "map_of (reqs s) k = Some r" and "pr_Phase r \<noteq> ApprovalPhasePending"
  shows "fst (Approve clk k approver s) = Inl ErrApprovalTerminal
    \<and> fst (Reject clk k reason s) = Inl ErrApprovalTerminal
    \<and> map_of (reqs (snd (Approve clk k approver s))) = map_of (reqs s)
    \<and> map_of (reqs (snd (Reject clk k reason s))) = map_of (reqs s)"
  using assms by (auto simp: Approve_def Reject_def expireLocked_def update_conv' map_upd_triv)

theorem decided_once_witness:
  "fst (Approve (\<lambda>i. 0) ''apr-1'' ''token:c'' demo_approved) = Inl ErrApprovalTerminal"
  using decided_once [of demo_approved "''apr-1''" "the (map_of (reqs demo_approved) ''apr-1'')"]
  by (simp add: demo_approved_value)

lemma sweep_terminal:
  assumes "store_ok s" and "map_of (reqs s) k = Some r" and "terminal (pr_Phase r)"
  shows "map_of (reqs (sweepLocked now clk s)) k =
    (if pr_UpdatedAt r < UnixMilli (now - retention s) then None else Some r)"
  using assms(2,3)
  by (rule_tac sweep_lookup [OF store_ok_distinct [OF assms(1)], of now clk k])
    (auto simp: Let_def expireLocked_def)

lemma sweep_leaves:
  assumes "store_ok s" and "map_of (reqs (sweepLocked now clk s)) k = Some r"
  shows "terminal (pr_Phase r) \<Longrightarrow> UnixMilli (now - retention s) \<le> pr_UpdatedAt r"
  using assms(2)
  by (rule_tac sweep_lookup [OF store_ok_distinct [OF assms(1)], of now clk k])
    (auto simp: Let_def split: option.splits if_splits)

text \<open>What \<open>List\<close> returns: the records of one cluster (or of all) after the sweep.\<close>

lemma copyRequest_is_id: "copyRequest = (\<lambda>r. r)"
  by (rule ext) simp

lemma List_records:
  "fst (List_for clk c s) = sort_key (\<lambda>r. (pr_CreatedAt r, pr_ID r))
     (filter (\<lambda>r. c = [] \<or> pr_ClusterID r = c) (map snd (reqs (snd (List_for clk c s)))))"
  by (simp add: List_for_def Let_def copyRequest_is_id)

text \<open>What goes on at a store up to a time \<open>t\<close>: operations that read the clock no later than that.\<close>

inductive store_step_until :: "time \<Rightarrow> approval_store \<Rightarrow> approval_store \<Rightarrow> bool" for t :: time where
  park: "newID \<notin> set (keys (reqs s)) \<Longrightarrow> (\<And>i. clk i \<le> t) \<Longrightarrow>
    store_step_until t s (snd (Park clk newID op clusterID targetID replicas requester s))"
| list: "(\<And>i. clk i \<le> t) \<Longrightarrow> store_step_until t s (snd (List_for clk clusterID s))"
| get: "(\<And>i. clk i \<le> t) \<Longrightarrow> store_step_until t s (snd (Get clk k s))"
| approve: "(\<And>i. clk i \<le> t) \<Longrightarrow> store_step_until t s (snd (Approve clk k approver s))"
| reject: "(\<And>i. clk i \<le> t) \<Longrightarrow> store_step_until t s (snd (Reject clk k reason s))"
| complete: "map_of (reqs s) k = Some r \<Longrightarrow> pr_Phase r = ApprovalPhaseApproved \<Longrightarrow> (\<And>i. clk i \<le> t) \<Longrightarrow>
    store_step_until t s (snd (Complete clk k resultID errMsg s))"

lemma store_step_until_step: "store_step_until t s s' \<Longrightarrow> store_step s s'"
  by (induction rule: store_step_until.induct) (blast intro: store_step.intros one_step_intros)+

lemma expire_terminal [simp]: "terminal (pr_Phase r) \<Longrightarrow> expireLocked t1 t2 r = r"
  by (auto simp: expireLocked_def)

text \<open>A resolved request that the sweep still keeps is left as it is by every operation.\<close>

lemma resolved_kept:
  assumes "store_step_until t s s'" and "store_ok s"
    and "map_of (reqs s) k = Some r" and "terminal (pr_Phase r)" and "UnixMilli (t - retention s) \<le> pr_UpdatedAt r"
  shows "map_of (reqs s') k = Some r"
proof -
  have kept: "map_of (reqs (sweepLocked now clk s)) k = Some r" if "now \<le> t" for now clk
  proof -
    have "UnixMilli (now - retention s) \<le> UnixMilli (t - retention s)" using that by (intro UnixMilli_mono) simp
    with assms(5) show ?thesis using sweep_terminal [OF assms(2-4), of now clk] by simp
  qed
  show ?thesis
    using assms(1)
  proof cases
    case (park newID clk op clusterID targetID replicas requester)
    then have "k \<noteq> newID" using assms(3) by (force dest: map_of_SomeD)
    with park kept show ?thesis by (simp add: Park_other)
  next
    case (list clk clusterID)
    with kept show ?thesis by (simp add: List_store)
  next
    case (get clk j)
    show ?thesis
      unfolding get(1) by (cases rule: Get_cases [of s j clk]) (use assms(3,4) in \<open>auto simp: update_conv'\<close>)
  next
    case (approve clk j approver)
    show ?thesis
      unfolding approve(1)
      by (cases rule: Approve_cases [of s j clk approver]) (use assms(3,4) in \<open>auto simp: update_conv'\<close>)
  next
    case (reject clk j reason)
    show ?thesis
      unfolding reject(1)
      by (cases rule: Reject_cases [of s j clk reason]) (use assms(3,4) in \<open>auto simp: update_conv'\<close>)
  next
    case (complete j q clk resultID errMsg)
    then have "j \<noteq> k" using assms(3,4) by auto
    then show ?thesis
      unfolding complete(1)
      by (cases rule: Complete_cases [of s j clk resultID errMsg]) (use assms(3) in \<open>auto simp: update_conv'\<close>)
  qed
qed

lemma resolved_kept_run:
  assumes "(store_step_until t)\<^sup>*\<^sup>* s s'" and "store_ok s"
    and "map_of (reqs s) k = Some r" and "terminal (pr_Phase r)" and "UnixMilli (t - retention s) \<le> pr_UpdatedAt r"
  shows "map_of (reqs s') k = Some r" and "store_ok s'" and "retention s' = retention s"
proof -
  have "map_of (reqs s') k = Some r \<and> store_ok s' \<and> retention s' = retention s"
    using assms(1)
  proof (induction rule: rtranclp_induct)
    case (step s1 s2)
    then have "map_of (reqs s2) k = Some r" using assms(4,5) by (intro resolved_kept [OF step.hyps(2)]) simp_all
    with step any_step.keeps_ok [of s1 s2] any_step.keeps_config [of s1 s2] store_step_until_step [OF step.hyps(2)]
    show ?case by simp
  qed (use assms in simp)
  then show "map_of (reqs s') k = Some r" and "store_ok s'" and "retention s' = retention s" by simp_all
qed

text \<open>C18: a resolved request stays listable for the retention time, and no longer. From the moment when a request
  of any history of a new store is resolved, whatever else is done with the store until the longer of the
  approval ttl and one hour has passed, \<open>Get\<close> returns it as it was resolved and every \<open>List\<close> of its
  cluster, or of all, returns it exactly as long as that time has not passed, to the millisecond.\<close>

theorem resolved_stays_listable:
  assumes "store_steps (NewApprovalStore d required) s"
    and "map_of (reqs s) k = Some r" and "terminal (pr_Phase r)" and "pr_UpdatedAt r = UnixMilli resolved"
    and "(store_step_until (resolved + max d Hour))\<^sup>*\<^sup>* s s'"
    and "clusterID = '''' \<or> clusterID = pr_ClusterID r"
  shows "(r \<in> set (fst (List_for clk clusterID s')) \<longleftrightarrow> UnixMilli (clk 0 - max d Hour) \<le> UnixMilli resolved)
    \<and> fst (Get clk k s') = Some r"
proof -
  have ok: "store_ok s" by (rule store_steps_ok [OF assms(1)]) simp
  have ret: "retention s = max d Hour"
    using store_steps_config [OF assms(1)] by (simp add: NewApprovalStore_def minApprovalRetention_def)
  have here: "map_of (reqs s') k = Some r" "store_ok s'" "retention s' = max d Hour"
    using resolved_kept_run [OF assms(5) ok assms(2,3)] by (simp_all add: ret assms(4))
  let ?swept = "snd (List_for clk clusterID s')"
  have swept: "store_ok ?swept" "map_of (reqs ?swept) k = (if UnixMilli resolved < UnixMilli (clk 0 - max d Hour) then None else Some r)"
    using sweep_terminal [OF here(2,1) assms(3)] here(2)
    by (simp_all add: List_store sweep_ok here(3) assms(4))
  have "pr_ID r = k" using store_ok_lookup [OF here(2,1)] by (simp add: record_ok_def)
  then have "(j, r) \<in> set (reqs ?swept) \<longleftrightarrow> j = k \<and> (k, r) \<in> set (reqs ?swept)" for j
    using swept(1) by (auto simp: store_ok_def record_ok_def)
  moreover have "(k, r) \<in> set (reqs ?swept) \<longleftrightarrow> map_of (reqs ?swept) k = Some r"
    using store_ok_distinct [OF swept(1)] by simp
  moreover have "r \<in> set (fst (List_for clk clusterID s')) \<longleftrightarrow> (\<exists>j. (j, r) \<in> set (reqs ?swept))"
    using assms(6) by (subst List_records) force
  ultimately have "r \<in> set (fst (List_for clk clusterID s')) \<longleftrightarrow> UnixMilli (clk 0 - max d Hour) \<le> UnixMilli resolved"
    using swept(2) by (auto split: if_splits)
  moreover have "fst (Get clk k s') = Some r"
    using here(1) assms(3) by (simp add: Get_def)
  ultimately show ?thesis by simp
qed

definition demo_done :: approval_store where
  "demo_done = snd (Reject (\<lambda>i. 3 * Second) ''apr-1'' ''no'' demo_parked)"

lemma demo_done_value: "map_of (reqs demo_done) ''apr-1'' = Some \<lparr>pr_ID = ''apr-1'', pr_Op = OpDrain,
    pr_ClusterID = ''c'', pr_TargetID = ''n1'', pr_Replicas = None, pr_Phase = ApprovalPhaseRejected,
    pr_Requester = ''token:a'', pr_Approver = [], pr_Reason = ''no'', pr_ResultID = [],
    pr_CreatedAt = 0, pr_UpdatedAt = 3000, pr_ExpiresAt = 300000\<rparr>"
  by (simp add: demo_done_def demo_parked_value Reject_def expireLocked_def UnixMilli_def Let_def)

lemma demo_done_history: "store_steps demo_store demo_done"
proof -
  have "park_step demo_store demo_parked"
    unfolding demo_parked_def
    by (rule one_step_intros) (simp add: demo_store_def NewApprovalStore_def)
  moreover have "reject_step demo_parked demo_done"
    unfolding demo_done_def by (rule one_step_intros)
  ultimately show ?thesis
    by (meson store_step.park store_step.reject rtranclp.rtrancl_into_rtrancl rtranclp.rtrancl_refl)
qed

theorem resolved_stays_listable_witness:
  "map (\<lambda>t. the (map_of (reqs demo_done) ''apr-1'') \<in> set (fst (List_for (\<lambda>i. t) ''c'' (snd (Get (\<lambda>i. Hour) ''apr-1'' demo_done)))))
      [3 * Second + Hour, 4 * Second + Hour] = [True, False]"
proof -
  have "store_step_until (3 * Second + max (5 * Minute) Hour) demo_done (snd (Get (\<lambda>i. Hour) ''apr-1'' demo_done))"
    by (rule store_step_until.get) simp
  then have run: "(store_step_until (3 * Second + max (5 * Minute) Hour))\<^sup>*\<^sup>* demo_done (snd (Get (\<lambda>i. Hour) ''apr-1'' demo_done))"
    by (rule r_into_rtranclp)
  show ?thesis
    using resolved_stays_listable [OF demo_done_history [unfolded demo_store_def] demo_done_value _ _ run, of "''c''"]
    by (simp add: demo_done_value UnixMilli_def)
qed

lemma records_by_id: "store_ok s \<Longrightarrow> map pr_ID (map snd (reqs s)) = keys (reqs s)"
  by (auto simp: store_ok_def record_ok_def)

lemma distinct_records:
  assumes "store_ok s"
  shows "distinct (filter P (map snd (reqs s)))"
    and "inj_on pr_ID (set (filter P (map snd (reqs s))))"
proof -
  have "distinct (map pr_ID (map snd (reqs s)))"
    using store_ok_distinct [OF assms] by (simp only: records_by_id [OF assms])
  then have "distinct (map snd (reqs s)) \<and> inj_on pr_ID (set (map snd (reqs s)))"
    by (simp only: distinct_map)
  then show "distinct (filter P (map snd (reqs s)))"
    and "inj_on pr_ID (set (filter P (map snd (reqs s))))"
    by (auto intro: inj_on_subset)
qed

text \<open>C19: \<open>List\<close> returns exactly the stored requests of the cluster, each once, in the order of creation
  time and then id; and the result does not depend on the order in which the map is visited: every
  list of the same requests that is sorted this way is the result.\<close>

theorem List_correct:
  assumes "store_ok s" and "List_for clk clusterID s = (out, s')"
  shows "sorted (map (\<lambda>r. (pr_CreatedAt r, pr_ID r)) out) \<and> distinct out
    \<and> set out = {r. \<exists>k. map_of (reqs s') k = Some r \<and> (clusterID = [] \<or> pr_ClusterID r = clusterID)}
    \<and> (\<forall>other. mset other = mset out \<and> sorted (map (\<lambda>r. (pr_CreatedAt r, pr_ID r)) other)
         \<longrightarrow> other = out)"
proof -
  let ?key = "\<lambda>r. (pr_CreatedAt r, pr_ID r)"
  have ok: "store_ok s'"
    using sweep_ok [OF assms(1)] assms(2) List_store [of clk clusterID s] by simp
  have out: "out = sort_key ?key (filter (\<lambda>r. clusterID = [] \<or> pr_ClusterID r = clusterID)
      (map snd (reqs s')))"
    using List_records [of clk clusterID s] assms(2) by simp
  have "inj_on pr_ID (set out)" and "distinct out"
    using distinct_records [OF ok, of "\<lambda>r. clusterID = [] \<or> pr_ClusterID r = clusterID"]
    by (simp_all only: out set_sort distinct_sort)
  then have inj: "inj_on ?key (set out)" by (simp add: inj_on_def)
  have members: "set out = {r. \<exists>k. map_of (reqs s') k = Some r
      \<and> (clusterID = [] \<or> pr_ClusterID r = clusterID)}"
    using store_ok_distinct [OF ok] by (force simp: out)
  have sorted: "sorted (map ?key out)" by (simp add: out)
  have "other = out" if "mset other = mset out" "sorted (map ?key other)" for other
    using that inj sorted by (intro sort_key_unique [of _ _ ?key]) (auto dest: mset_eq_setD)
  with sorted members \<open>distinct out\<close> show ?thesis by blast
qed

theorem List_correct_witness:
  "sorted (map (\<lambda>r. (pr_CreatedAt r, pr_ID r)) (fst (List_for (\<lambda>i. 0) ''c'' demo_parked)))"
  using List_correct [OF demo_history(2) prod.collapse [symmetric], of "\<lambda>i. 0" "''c''"]
  by blast

text \<open>Which operations are parked: exactly those configured, except that gating cordon also gates drain;
  without a store nothing is parked.\<close>

theorem Requires_exact:
  "(Requires (Some (NewApprovalStore d required)) op \<longleftrightarrow>
      op \<in> set required \<or> op = OpDrain \<and> OpCordon \<in> set required)
   \<and> \<not> Requires None op \<and> (Requires store OpDrain \<longleftrightarrow> Requires store OpDrain \<or> Requires store OpCordon)"
  by (cases store) (auto simp: Requires_def NewApprovalStore_def)

text \<open>Generated ids: \<open>apr-\<close> and lower-case hexadecimal digits, different for different random bytes.\<close>

lemma hex_digit_inj: "i < 16 \<Longrightarrow> j < 16 \<Longrightarrow> hex_digit i = hex_digit j \<Longrightarrow> i = j"
proof -
  have "inj_on hex_digit (set [0..<16])"
    by (rule subst [of True], rule sym) (code_simp, simp)
  then show "i < 16 \<Longrightarrow> j < 16 \<Longrightarrow> hex_digit i = hex_digit j \<Longrightarrow> i = j"
    by (auto simp: inj_on_def)
qed

lemma hex_byte_inj: "hex_byte c = hex_byte d \<Longrightarrow> c = d"
proof -
  assume "hex_byte c = hex_byte d"
  then have "hex_digit (of_char c div 16) = hex_digit (of_char d div 16)"
    and "hex_digit (of_char c mod 16) = hex_digit (of_char d mod 16)"
    by (simp_all add: hex_byte_def)
  moreover have "(of_char c :: nat) < 256" "(of_char d :: nat) < 256" by simp_all
  ultimately have "(of_char c :: nat) div 16 = of_char d div 16" "(of_char c :: nat) mod 16 = of_char d mod 16"
    by (auto intro!: hex_digit_inj simp: less_mult_imp_div_less)
  then have "(of_char c :: nat) = of_char d" by (metis div_mod_decomp)
  then show "c = d" by simp
qed

lemma hex_encode_inj: "hex_encode s = hex_encode t \<Longrightarrow> s = t"
proof (induction s arbitrary: t)
  case Nil
  then show ?case by (cases t) (simp_all add: hex_encode_def hex_byte_def)
next
  case (Cons c s)
  then obtain d u where t: "t = d # u" by (cases t) (simp_all add: hex_encode_def hex_byte_def)
  with Cons.prems have "hex_byte c = hex_byte d" "hex_encode s = hex_encode u"
    by (simp_all add: hex_encode_def hex_byte_def)
  then show ?case using Cons.IH t hex_byte_inj by auto
qed

lemma randomApprovalID_inj: "randomApprovalID b = randomApprovalID b' \<longleftrightarrow> b = b'"
  by (auto simp: randomApprovalID_def dest: hex_encode_inj)

end
