(* ===== verification/Go_Url.thy ===== *)
theory Go_Url
  imports Go_Strings
begin

text \<open>
  \<open>url.PathEscape\<close> and \<open>url.PathUnescape\<close> of Go's \<open>net/url\<close>: percent-encoding of one path
  segment. A request path is cut at \<open>/\<close> while it is still escaped, so the round trip proved here
  is what lets a cluster id that contains \<open>/\<close> travel in a path.
\<close>

definition is_alnum :: "char \<Rightarrow> bool" where
  "is_alnum c \<longleftrightarrow> byte_in CHR ''a'' CHR ''z'' c \<or> byte_in CHR ''A'' CHR ''Z'' c
     \<or> byte_in CHR ''0'' CHR ''9'' c"

text \<open>\<open>!shouldEscape(c, encodePathSegment)\<close>\<close>

definition segment_safe :: "char \<Rightarrow> bool" where
  "segment_safe c \<longleftrightarrow> is_alnum c \<or> c \<in> set ''-_.~$&+:=@''"

definition upper_hex :: "nat \<Rightarrow> char" where
  "upper_hex d = (if d < 10 then char_of (48 + d) else char_of (55 + d))"

definition is_hex :: "char \<Rightarrow> bool" where
  "is_hex c \<longleftrightarrow> byte_in CHR ''0'' CHR ''9'' c \<or> byte_in CHR ''a'' CHR ''f'' c
     \<or> byte_in CHR ''A'' CHR ''F'' c"

definition unhex :: "char \<Rightarrow> nat" where
  "unhex c = (let n = of_char c in
     if 48 \<le> n \<and> n \<le> 57 then n - 48 else if 97 \<le> n \<and> n \<le> 102 then n - 87
     else if 65 \<le> n \<and> n \<le> 70 then n - 55 else 0)"

definition escape_byte :: "char \<Rightarrow> string" where
  "escape_byte c = (if segment_safe c then [c]
     else [CHR ''%'', upper_hex (of_char c div 16), upper_hex (of_char c mod 16)])"

definition PathEscape :: "string \<Rightarrow> string" where
  "PathEscape s = concat (map escape_byte s)"

fun PathUnescape :: "string \<Rightarrow> string option" where
  "PathUnescape [] = Some []"
| "PathUnescape (c # cs) =
     (if c = CHR ''%'' then
        (case cs of
           a # b # rest \<Rightarrow>
             if is_hex a \<and> is_hex b
             then map_option ((#) (char_of (16 * unhex a + unhex b))) (PathUnescape rest)
             else None
         | _ \<Rightarrow> None)
      else map_option ((#) c) (PathUnescape cs))"

lemma hex_cases:
  "d < 16 \<Longrightarrow> d \<in> {0, 1, 2, 3, 4, 5, 6, 7, 8, 9, 10, 11, 12, 13, 14, 15::nat}"
  by simp arith

lemma is_hex_upper_hex: "d < 16 \<Longrightarrow> is_hex (upper_hex d)"
  by (drule hex_cases) (auto simp: is_hex_def upper_hex_def less_eq_char_def)

lemma unhex_upper_hex: "d < 16 \<Longrightarrow> unhex (upper_hex d) = d"
  by (drule hex_cases) (auto simp: unhex_def upper_hex_def Let_def)

lemma upper_hex_plain: "d < 16 \<Longrightarrow> is_alnum (upper_hex d)"
  by (drule hex_cases) (auto simp: is_alnum_def upper_hex_def less_eq_char_def)

lemma of_char_lt: "of_char c < (256::nat)"
  using nat_of_char_less_256 .

lemma nibbles: "of_char c div 16 < (16::nat)" "of_char c mod 16 < (16::nat)"
  using of_char_lt [of c] by (auto simp: less_mult_imp_div_less)

lemma percent_not_safe: "\<not> segment_safe (CHR ''%'')"
  by (simp add: segment_safe_def is_alnum_def less_eq_char_def)

lemma slash_not_safe: "\<not> segment_safe (CHR ''/'')"
  by (simp add: segment_safe_def is_alnum_def less_eq_char_def)

lemma PathUnescape_escape_byte:
  "PathUnescape (escape_byte c @ s) = map_option ((#) c) (PathUnescape s)"
proof (cases "segment_safe c")
  case True
  with percent_not_safe have "c \<noteq> CHR ''%''" by blast
  with True show ?thesis by (simp add: escape_byte_def)
next
  case False
  have "16 * (of_char c div 16) + of_char c mod 16 = (of_char c :: nat)"
    by simp
  with False show ?thesis
    by (simp add: escape_byte_def is_hex_upper_hex unhex_upper_hex nibbles)
qed

lemma PathUnescape_PathEscape: "PathUnescape (PathEscape s) = Some s"
  by (induction s) (simp_all add: PathEscape_def PathUnescape_escape_byte)

lemma slash_notin_PathEscape: "CHR ''/'' \<notin> set (PathEscape s)"
proof -
  have "CHR ''/'' \<notin> set (escape_byte c)" for c
  proof -
    have "is_alnum (upper_hex (of_char c div 16))" "is_alnum (upper_hex (of_char c mod 16))"
      by (simp_all add: upper_hex_plain nibbles)
    moreover have "\<not> is_alnum (CHR ''/'')"
      using slash_not_safe by (simp add: segment_safe_def)
    ultimately show ?thesis
      using slash_not_safe by (auto simp: escape_byte_def)
  qed
  then show ?thesis by (simp add: PathEscape_def)
qed

lemma PathEscape_safe: "list_all segment_safe s \<Longrightarrow> PathEscape s = s"
  by (induction s) (simp_all add: PathEscape_def escape_byte_def)

lemma PathUnescape_plain: "CHR ''%'' \<notin> set s \<Longrightarrow> PathUnescape s = Some s"
  by (induction s) auto

lemma PathUnescape_append:
  "PathUnescape a = Some a' \<Longrightarrow> PathUnescape (a @ b) = map_option ((@) a') (PathUnescape b)"
proof (induction a arbitrary: a' rule: PathUnescape.induct)
  case 1
  then show ?case by (cases "PathUnescape b") auto
next
  case (2 c cs)
  show ?case
  proof (cases "c = CHR ''%''")
    case True
    with "2.prems" obtain x y rest r where
      cs: "cs = x # y # rest" "is_hex x \<and> is_hex y" "PathUnescape rest = Some r"
        "a' = char_of (16 * unhex x + unhex y) # r"
      by (auto split: list.splits if_splits)
    with "2.IH"(1) [OF True cs(1) refl cs(2), of r] True show ?thesis
      by (cases "PathUnescape b") auto
  next
    case False
    with "2.prems" obtain r where "PathUnescape cs = Some r" "a' = c # r"
      by auto
    with False "2.IH"(2) [OF False, of r] show ?thesis
      by (cases "PathUnescape b") auto
  qed
qed

end
