(* ===== verification/Validate.thy ===== *)
theory Validate
  imports Go_Errors Go_Url
begin

text \<open>
  \<open>api/validate.go\<close>: the checks on object names that come from clients and end up in Kubernetes API
  paths and field selectors. The lemmas characterise the accepted names, show that an accepted name
  cannot leave its path segment or its selector term, and show that a workload id is accepted exactly
  when it is the printed form of valid parts.
\<close>

definition workloadKinds :: "string list" where
  "workloadKinds = [''deployment'', ''daemonSet'', ''statefulSet'', ''job'']"

definition eventKinds :: "(string \<times> string) list" where
  "eventKinds =
     [(''node'', ''Node''), (''Node'', ''Node''),
      (''service'', ''Service''), (''Service'', ''Service''),
      (''pod'', ''Pod''), (''Pod'', ''Pod''),
      (''deployment'', ''Deployment''), (''Deployment'', ''Deployment''),
      (''daemonSet'', ''DaemonSet''), (''DaemonSet'', ''DaemonSet''),
      (''statefulSet'', ''StatefulSet''), (''StatefulSet'', ''StatefulSet''),
      (''job'', ''Job''), (''Job'', ''Job''),
      (''workload'', '''')]"

definition alnum :: "char \<Rightarrow> bool" where
  "alnum c \<longleftrightarrow> byte_in CHR ''a'' CHR ''z'' c \<or> byte_in CHR ''0'' CHR ''9'' c"

text \<open>The loop over the bytes of the label: position \<open>i\<close> does not make it return false.\<close>

definition label_char_ok :: "string \<Rightarrow> nat \<Rightarrow> bool" where
  "label_char_ok s i =
     (let c = s ! i
      in \<not> (\<not> alnum c \<and> (c \<noteq> CHR ''-'' \<or> i = 0 \<or> i = length s - 1)))"

definition isLabelChars :: "string \<Rightarrow> bool" where
  "isLabelChars s = (if s = '''' then False else list_all (label_char_ok s) [0..<length s])"

definition isDNS1123Label :: "string \<Rightarrow> bool" where
  "isDNS1123Label s \<longleftrightarrow> length s \<le> 63 \<and> isLabelChars s"

definition isDNS1123Subdomain :: "string \<Rightarrow> bool" where
  "isDNS1123Subdomain s =
     (if length s > 253 then False else list_all isLabelChars (Split s (CHR ''.'')))"

definition ParseWorkloadID :: "string \<Rightarrow> go_error + (string \<times> string \<times> string)" where
  "ParseWorkloadID id' =
     (let (kind, rest, ok) = Cut id' (CHR '':'');
          (namespace, name, ok) = (if ok then Cut rest (CHR ''/'') else ('''', '''', ok))
      in if \<not> ok then
           Inl (bad_request (''workload id '' @ Quote id' @ '' must be kind:namespace/name''))
         else if kind \<notin> set workloadKinds then
           Inl (bad_request (''unknown workload kind '' @ Quote kind))
         else if \<not> isDNS1123Label namespace then
           Inl (bad_request (''invalid namespace '' @ Quote namespace))
         else if \<not> isDNS1123Subdomain name then
           Inl (bad_request (''invalid workload name '' @ Quote name))
         else Inr (kind, namespace, name))"

definition ValidateNodeID :: "string \<Rightarrow> go_error + unit" where
  "ValidateNodeID id' =
     (if \<not> isDNS1123Subdomain id' then Inl (bad_request (''invalid node id '' @ Quote id'))
      else Inr ())"

definition ValidateEventQuery :: "string \<Rightarrow> string \<Rightarrow> string \<Rightarrow> go_error + unit" where
  "ValidateEventQuery kind objectName namespace =
     (if kind \<noteq> '''' \<and> map_of eventKinds kind = None then
        Inl (bad_request (''unknown event kind '' @ Quote kind))
      else if \<not> isDNS1123Subdomain objectName then
        Inl (bad_request (''invalid object name '' @ Quote objectName))
      else if namespace \<noteq> '''' \<and> \<not> isDNS1123Label namespace then
        Inl (bad_request (''invalid namespace '' @ Quote namespace))
      else Inr ())"

definition InvolvedObjectKind :: "string \<Rightarrow> string \<times> bool" where
  "InvolvedObjectKind kind = (case map_of eventKinds kind of None \<Rightarrow> ('''', False) | Some k \<Rightarrow> (k, True))"

subsection \<open>Which names are accepted\<close>

lemma isLabelChars_set:
  assumes "isLabelChars s" and "c \<in> set s"
  shows "alnum c \<or> c = CHR ''-''"
proof -
  obtain i where "i < length s" "s ! i = c"
    using assms(2) by (metis in_set_conv_nth)
  with assms(1) show ?thesis
    by (auto simp: isLabelChars_def label_char_ok_def list_all_iff Let_def split: if_splits)
qed

lemma isLabelChars_nonempty: "isLabelChars s \<Longrightarrow> s \<noteq> []"
  by (auto simp: isLabelChars_def)

text \<open>The byte loop is the RFC 1123 rule for a label.\<close>

lemma isLabelChars_iff:
  "isLabelChars s \<longleftrightarrow>
     s \<noteq> [] \<and> (\<forall>c \<in> set s. alnum c \<or> c = CHR ''-'') \<and> alnum (hd s) \<and> alnum (last s)"
proof
  assume l: "isLabelChars s"
  then have ne: "s \<noteq> []" by (rule isLabelChars_nonempty)
  from l ne have "label_char_ok s 0" "label_char_ok s (length s - 1)"
    by (auto simp: isLabelChars_def list_all_iff)
  then have "alnum (hd s)" "alnum (last s)"
    using ne by (auto simp: label_char_ok_def Let_def hd_conv_nth last_conv_nth)
  with l ne show "s \<noteq> [] \<and> (\<forall>c \<in> set s. alnum c \<or> c = CHR ''-'') \<and> alnum (hd s) \<and> alnum (last s)"
    using isLabelChars_set by blast
next
  assume r: "s \<noteq> [] \<and> (\<forall>c \<in> set s. alnum c \<or> c = CHR ''-'') \<and> alnum (hd s) \<and> alnum (last s)"
  then show "isLabelChars s"
    by (auto simp: isLabelChars_def label_char_ok_def Let_def list_all_iff hd_conv_nth last_conv_nth
        intro: gr0I)
qed

lemma isDNS1123Subdomain_iff:
  "isDNS1123Subdomain s \<longleftrightarrow> length s \<le> 253 \<and> (\<forall>l \<in> set (Split s (CHR ''.'')). isLabelChars l)"
  by (auto simp: isDNS1123Subdomain_def list_all_iff)

lemma isDNS1123Subdomain_set:
  assumes "isDNS1123Subdomain s" and "c \<in> set s"
  shows "alnum c \<or> c = CHR ''-'' \<or> c = CHR ''.''"
proof (cases "c = CHR ''.''")
  case False
  with assms(2) obtain l where "l \<in> set (Split s (CHR ''.''))" "c \<in> set l"
    using set_by_Split [of s "CHR ''.''"] by auto
  with assms(1) show ?thesis
    by (auto simp: isDNS1123Subdomain_iff dest: isLabelChars_set)
qed simp

lemma isDNS1123Subdomain_nonempty: "isDNS1123Subdomain s \<Longrightarrow> s \<noteq> []"
  by (auto simp: isDNS1123Subdomain_iff isLabelChars_def)

lemma alnum_segment_safe: "alnum c \<Longrightarrow> segment_safe c"
  by (auto simp: alnum_def segment_safe_def is_alnum_def)

lemma Split_two_dots: "[] \<in> set (Split (a @ ''..'' @ b) (CHR ''.''))"
  using Split_append [of a "CHR ''.''" "CHR ''.'' # b"] by simp

text \<open>
  An accepted name has none of the bytes that have a meaning in an API path or in a field selector,
  does not contain \<open>..\<close>, and percent-encoding leaves it unchanged.
\<close>

definition confined :: "string \<Rightarrow> bool" where
  "confined s \<longleftrightarrow> s \<noteq> [] \<and> set s \<inter> set ''/%,=?:#& '' = {} \<and> \<not> Contains s ''..'' \<and> PathEscape s = s"

lemma alnum_confined_bytes: "alnum c \<Longrightarrow> c \<notin> set ''/%,=?:#& .''"
  by (auto simp: alnum_def less_eq_char_def)

lemma subdomain_confined:
  assumes "isDNS1123Subdomain s"
  shows "confined s"
proof -
  have bytes: "alnum c \<or> c = CHR ''-'' \<or> c = CHR ''.''" if "c \<in> set s" for c
    using assms that by (rule isDNS1123Subdomain_set)
  have "list_all segment_safe s"
    using bytes alnum_segment_safe by (fastforce simp: list_all_iff segment_safe_def)
  moreover have "set s \<inter> set ''/%,=?:#& '' = {}"
    using bytes alnum_confined_bytes by fastforce
  moreover have "\<not> Contains s ''..''"
  proof
    assume "Contains s ''..''"
    then obtain a b where "s = a @ ''..'' @ b" by (auto simp: Contains_iff)
    then have "[] \<in> set (Split s (CHR ''.''))"
      using Split_two_dots [of a b] by simp
    with assms show False
      by (auto simp: isDNS1123Subdomain_iff isLabelChars_def)
  qed
  ultimately show ?thesis
    using assms by (auto simp: confined_def PathEscape_safe dest: isDNS1123Subdomain_nonempty)
qed

lemma label_is_subdomain: "isDNS1123Label s \<Longrightarrow> isDNS1123Subdomain s"
proof -
  assume l: "isDNS1123Label s"
  then have "alnum c \<or> c = CHR ''-''" if "c \<in> set s" for c
    using that isLabelChars_set [of s c] by (auto simp: isDNS1123Label_def)
  then have "CHR ''.'' \<notin> set s"
    using alnum_confined_bytes [of "CHR ''.''"] by auto
  with l show ?thesis
    by (auto simp: isDNS1123Label_def isDNS1123Subdomain_iff Split_single)
qed

lemma label_confined: "isDNS1123Label s \<Longrightarrow> confined s"
  by (rule subdomain_confined [OF label_is_subdomain])

subsection \<open>Workload ids\<close>

lemma workloadKinds_no_colon: "k \<in> set workloadKinds \<Longrightarrow> CHR '':'' \<notin> set k"
  by (auto simp: workloadKinds_def)

lemma ParseWorkloadID_Inr:
  "ParseWorkloadID id' = Inr (kind, ns, name) \<longleftrightarrow>
     id' = kind @ '':'' @ ns @ ''/'' @ name \<and> kind \<in> set workloadKinds
       \<and> isDNS1123Label ns \<and> isDNS1123Subdomain name" (is "?l \<longleftrightarrow> ?r")
proof
  assume ?l
  then obtain rest where "Cut id' (CHR '':'') = (kind, rest, True)"
    and "Cut rest (CHR ''/'') = (ns, name, True)"
    and "kind \<in> set workloadKinds \<and> isDNS1123Label ns \<and> isDNS1123Subdomain name"
    by (auto simp: ParseWorkloadID_def split: prod.splits if_splits)
  then show ?r by (auto simp: Cut_True)
next
  assume r: ?r
  then have "CHR ''/'' \<notin> set ns"
    using label_confined [of ns] by (auto simp: confined_def)
  with r have "Cut (ns @ ''/'' @ name) (CHR ''/'') = (ns, name, True)"
    by (simp add: Cut_True)
  moreover from r have "Cut id' (CHR '':'') = (kind, ns @ ''/'' @ name, True)"
    by (simp add: Cut_True workloadKinds_no_colon)
  ultimately show ?l using r by (simp add: ParseWorkloadID_def)
qed

lemma ParseWorkloadID_Inl:
  "ParseWorkloadID id' = Inl e \<Longrightarrow> err_is e ErrBadRequest \<and> err_text e \<noteq> []"
  by (auto simp: ParseWorkloadID_def split: prod.splits if_splits)

lemma ValidateNodeID_Inr: "ValidateNodeID n = Inr () \<longleftrightarrow> isDNS1123Subdomain n"
  by (simp add: ValidateNodeID_def)

lemma ValidateNodeID_Inl: "ValidateNodeID n = Inl e \<Longrightarrow> err_is e ErrBadRequest \<and> err_text e \<noteq> []"
  by (auto simp: ValidateNodeID_def split: if_splits)

lemma ValidateEventQuery_Inl:
  "ValidateEventQuery k n ns = Inl e \<Longrightarrow> err_is e ErrBadRequest \<and> err_text e \<noteq> []"
  by (auto simp: ValidateEventQuery_def split: if_splits)

lemma ValidateEventQuery_Inr:
  "ValidateEventQuery k n ns = Inr () \<longleftrightarrow>
     (k = [] \<or> snd (InvolvedObjectKind k)) \<and> isDNS1123Subdomain n \<and> (ns = [] \<or> isDNS1123Label ns)"
  by (auto simp: ValidateEventQuery_def InvolvedObjectKind_def split: option.splits)

subsection \<open>What callers rely on\<close>

text \<open>C20: the workload ids the gateway accepts are exactly the strings \<open>kind:namespace/name\<close> with a known kind, a
  label for the namespace and a subdomain for the name, and the parts returned are those of the id; every
  other string is refused with an error that wraps \<open>ErrBadRequest\<close>.\<close>

theorem workload_id_exact:
  "case ParseWorkloadID s of
     Inr (kind, ns, name) \<Rightarrow> s = kind @ '':'' @ ns @ ''/'' @ name \<and> kind \<in> set workloadKinds
       \<and> isDNS1123Label ns \<and> isDNS1123Subdomain name
   | Inl e \<Rightarrow> err_is e ErrBadRequest
       \<and> (\<nexists>kind ns name. s = kind @ '':'' @ ns @ ''/'' @ name \<and> kind \<in> set workloadKinds
            \<and> isDNS1123Label ns \<and> isDNS1123Subdomain name)"
proof (cases "ParseWorkloadID s")
  case (Inl e)
  have "\<nexists>kind ns name. ParseWorkloadID s = Inr (kind, ns, name)" using Inl by simp
  with Inl show ?thesis
    using ParseWorkloadID_Inl [OF Inl] unfolding ParseWorkloadID_Inr by simp
next
  case (Inr parts)
  obtain kind ns name where parts: "parts = (kind, ns, name)" by (cases parts)
  with Inr have "ParseWorkloadID s = Inr (kind, ns, name)" by simp
  then have "s = kind @ '':'' @ ns @ ''/'' @ name \<and> kind \<in> set workloadKinds
      \<and> isDNS1123Label ns \<and> isDNS1123Subdomain name"
    by (simp only: ParseWorkloadID_Inr)
  then show ?thesis unfolding Inr parts sum.case prod.case .
qed

text \<open>The byte loop of \<open>isDNS1123Label\<close> is the RFC 1123 rule: one to 63 bytes, only lower-case letters,
  digits and hyphens, an alphanumeric at both ends.\<close>

theorem label_rule:
  "isDNS1123Label s \<longleftrightarrow> length s \<in> {1..63} \<and> set s \<subseteq> {c. alnum c} \<union> {CHR ''-''}
     \<and> alnum (hd s) \<and> alnum (last s)"
  by (cases s) (auto simp: isDNS1123Label_def isLabelChars_iff)

text \<open>C21: a name that passes the checks stays in its place: it has no path separator, percent sign, comma,
  equals sign or other delimiter, no \<open>..\<close>, and percent-encoding leaves it unchanged; so neither an API path
  nor a field selector built from it can address anything else.\<close>

theorem accepted_names_confined:
  assumes "ParseWorkloadID s = Inr (kind, ns, name) \<or> ValidateNodeID name = Inr ()
    \<or> ValidateEventQuery kind name ns = Inr ()"
  shows "confined name"
  using assms subdomain_confined
  by (auto simp: ParseWorkloadID_Inr ValidateNodeID_Inr ValidateEventQuery_Inr)

theorem accepted_names_confined_witness: "confined ''node-1.eu''"
  by (rule accepted_names_confined [of "[]" "[]" "[]"], intro disjI2 disjI1) code_simp

end
