(* ===== verification/Server.thy ===== *)
theory Server
  imports Backend Policy RateLimit Approval Validate
begin

text \<open>
  The first half of \<open>api/handlers.go\<close>: the server's configuration and state, requests and responses,
  identities, the authentication middleware, and the audit log.

  The fields of Go's \<open>Server\<close> that stay fixed are the record \<open>server\<close>; what its pointers reach and a request
  can change is the record \<open>state\<close>, with the log that the audit sink has received. \<open>crypto/sha256\<close> is a
  field of the configuration: a function to bytes. Everything a request reads from the clock, the
  random source and the visiting order of Go maps is in its \<open>readings\<close>.
\<close>

subsection \<open>Requests and responses\<close>

text \<open>
  \<open>req_Header\<close> has the header lines by canonical name; \<open>req_Query\<close> is \<open>r.URL.Query().Get\<close>; \<open>req_Body\<close> is what
  decoding the body into \<open>struct { Replicas *int }\<close> gives: the decoder's error text or the field.
\<close>

record request =
  req_Method :: string
  req_Path :: string
  req_EscapedPath :: string
  req_Header :: "(string \<times> string list) list"
  req_RemoteAddr :: string
  req_Query :: "string \<Rightarrow> string"
  req_Body :: "string + int option"

datatype json_field = JString string | JInt int | JBool bool

datatype body =
    BodyError string
  | BodyClusters "cluster_profile list"
  | BodySnapshot cluster_snapshot
  | BodyEvents "cluster_event list"
  | BodyJob drain_job
  | BodyApproval pending_request
  | BodyApprovals "pending_request list"
  | BodyFields "(string \<times> json_field) list"
  | BodyText string

record response =
  resp_Status :: int
  resp_Location :: "string option"
  resp_Body :: body

definition Header_Values :: "request \<Rightarrow> string \<Rightarrow> string list" where
  "Header_Values r h = (case map_of (req_Header r) h of None \<Rightarrow> [] | Some vs \<Rightarrow> vs)"

definition Header_Get :: "request \<Rightarrow> string \<Rightarrow> string" where
  "Header_Get r h = (case Header_Values r h of [] \<Rightarrow> '''' | v # _ \<Rightarrow> v)"

definition writeJSON :: "int \<Rightarrow> body \<Rightarrow> response" where
  "writeJSON status body = \<lparr>resp_Status = status, resp_Location = None, resp_Body = body\<rparr>"

definition writeError :: "int \<Rightarrow> string \<Rightarrow> response" where
  "writeError status message = writeJSON status (BodyError message)"

definition writeBackendError :: "go_error \<Rightarrow> response" where
  "writeBackendError e = writeError (backendErrStatus (Some e)) (publicErrMessage e)"

subsection \<open>Configuration and state\<close>

definition AuthHeader :: string where "AuthHeader = ''X-ClusterOrbit-Token''"
definition pathRoot :: string where "pathRoot = ''/v1/clusters''"

record 'w server =
  srv_Backend :: "'w cluster_backend"
  srv_Tokens :: "string list"
  srv_Token :: string
  srv_TrustForwardedFor :: bool
  srv_AuditSink :: bool
  srv_ScalePolicy :: "scale_policy option"
  srv_NodePolicy :: "node_policy option"
  srv_Sum256 :: "string \<Rightarrow> string"

record audit_entry =
  audit_Timestamp :: string
  audit_Identity :: string
  audit_Method :: string
  audit_Path :: string
  audit_ClusterID :: string
  audit_WorkloadID :: string
  audit_Replicas :: "int option"
  audit_Status :: int
  audit_Error :: string
  audit_ApprovalID :: string

text \<open>A Go struct literal leaves the other fields zero.\<close>

definition no_entry :: audit_entry where
  "no_entry = \<lparr>audit_Timestamp = '''', audit_Identity = '''', audit_Method = '''', audit_Path = '''',
     audit_ClusterID = '''', audit_WorkloadID = '''', audit_Replicas = None, audit_Status = 0,
     audit_Error = '''', audit_ApprovalID = ''''\<rparr>"

record 'w state =
  st_Limiter :: "rate_limiter option"
  st_Approvals :: "approval_store option"
  st_Audit :: "audit_entry list"
  st_World :: 'w

text \<open>
  The readings of one request: the limiter's clock and the visiting order of its map, the audit clock,
  the clock readings of up to three calls on the approval store, and twelve random bytes.
\<close>

record readings =
  ora_limit_now :: time
  ora_order :: "string list"
  ora_audit_now :: time
  ora_get :: "nat \<Rightarrow> time"
  ora_store :: "nat \<Rightarrow> time"
  ora_complete :: "nat \<Rightarrow> time"
  ora_random :: string

subsection \<open>Identities\<close>

definition acceptedTokens :: "'w server \<Rightarrow> string list" where
  "acceptedTokens s =
     (if length (srv_Tokens s) > 0 then srv_Tokens s
      else if srv_Token s \<noteq> '''' then [srv_Token s]
      else [])"

text \<open>\<open>subtle.ConstantTimeCompare\<close> returns 1 for equal byte slices and 0 otherwise.\<close>

definition ConstantTimeCompare :: "string \<Rightarrow> string \<Rightarrow> nat" where
  "ConstantTimeCompare x y = (if x = y then 1 else 0)"

fun match_tokens :: "string \<Rightarrow> string list \<Rightarrow> nat \<Rightarrow> nat" where
  "match_tokens got [] match = match"
| "match_tokens got (t # accepted) match = match_tokens got accepted (or match (ConstantTimeCompare got t))"

definition tokenAccepted :: "string \<Rightarrow> string list \<Rightarrow> bool" where
  "tokenAccepted got accepted =
     (if got = '''' then False else match_tokens got accepted 0 = 1)"

definition LastIndexByte :: "string \<Rightarrow> char \<Rightarrow> int" where
  "LastIndexByte s c = int (length s) - 1 - int (length (takeWhile (\<lambda>x. x \<noteq> c) (rev s)))"

text \<open>\<open>net.SplitHostPort\<close>; the error texts are not used by the code.\<close>

definition SplitHostPort :: "string \<Rightarrow> (string \<times> string) option" where
  "SplitHostPort hostport =
     (let i = LastIndexByte hostport (CHR '':'')
      in if i < 0 then None
         else let i = nat i; port = drop (i + 1) hostport in
           if hostport ! 0 = CHR ''['' then
             (case Index hostport '']'' of
                None \<Rightarrow> None
              | Some e \<Rightarrow>
                  if e + 1 \<noteq> i then None
                  else let host = take (e - 1) (drop 1 hostport) in
                    if CHR ''['' \<in> set (drop 1 hostport) then None
                    else if CHR '']'' \<in> set (drop (e + 1) hostport) then None
                    else Some (host, port))
           else let host = take i hostport in
             if CHR '':'' \<in> set host then None
             else if CHR ''['' \<in> set hostport then None
             else if CHR '']'' \<in> set hostport then None
             else Some (host, port))"

definition remoteHost :: "request \<Rightarrow> string" where
  "remoteHost r = (case SplitHostPort (req_RemoteAddr r) of
       Some (host, _) \<Rightarrow> host
     | None \<Rightarrow> req_RemoteAddr r)"

definition clientIP :: "'w server \<Rightarrow> request \<Rightarrow> string" where
  "clientIP s r =
     (let xff = Join (Header_Values r ''X-Forwarded-For'') '','';
          ip = TrimSpace (drop (nat (LastIndexByte xff (CHR '','') + 1)) xff)
      in if srv_TrustForwardedFor s \<and> ip \<noteq> '''' then ip else remoteHost r)"

definition identity :: "'w server \<Rightarrow> request \<Rightarrow> string" where
  "identity s r =
     (if acceptedTokens s = [] then clientIP s r
      else let sum = srv_Sum256 s (Header_Get r AuthHeader)
           in ''tok:'' @ hex_encode (take 6 sum))"

subsection \<open>Audit log and middleware\<close>

definition audit :: "'w server \<Rightarrow> readings \<Rightarrow> request \<Rightarrow> audit_entry \<Rightarrow> 'w state \<Rightarrow> 'w state" where
  "audit s ora r e st =
     (if \<not> srv_AuditSink s then st
      else let e = e\<lparr>audit_Timestamp := format_RFC3339 (ora_audit_now ora),
                     audit_Identity := identity s r,
                     audit_Method := req_Method r,
                     audit_Path := req_Path r\<rparr>
           in st\<lparr>st_Audit := st_Audit st @ [e]\<rparr>)"

definition limit :: "readings \<Rightarrow> string \<Rightarrow> 'w state \<Rightarrow> bool \<times> 'w state" where
  "limit ora key st =
     (let (ok, l) = Allow (ora_order ora) (ora_limit_now ora) (st_Limiter st) key
      in (ok, st\<lparr>st_Limiter := l\<rparr>))"

type_synonym 'w handler = "readings \<Rightarrow> request \<Rightarrow> 'w state \<Rightarrow> response \<times> 'w state"

definition authMiddleware :: "'w server \<Rightarrow> 'w handler \<Rightarrow> 'w handler" where
  "authMiddleware s next ora r st =
     (let accepted = acceptedTokens s
      in if length accepted > 0 \<and> \<not> tokenAccepted (Header_Get r AuthHeader) accepted then
           let (ok, st) = limit ora (''unauth:'' @ remoteHost r) st
           in if \<not> ok then (writeError 429 ''rate limit exceeded'', st)
              else (writeError 401 ''missing or invalid token'', st)
         else
           let (ok, st) = limit ora (identity s r) st
           in if \<not> ok then (writeError 429 ''rate limit exceeded'', st)
              else next ora r st)"

subsection \<open>Lemmas\<close>

lemma or_ConstantTimeCompare:
  "match = 0 \<or> match = 1 \<Longrightarrow> or match (ConstantTimeCompare got t) = (if match = 1 \<or> got = t then 1 else 0)"
  by (cases "got = t") (auto simp: ConstantTimeCompare_def)

lemma match_tokens_1 [simp]: "match_tokens got accepted 1 = 1"
  by (induction accepted) (simp_all add: or_ConstantTimeCompare del: One_nat_def)

lemma match_tokens_iff: "match_tokens got accepted 0 = 1 \<longleftrightarrow> got \<in> set accepted"
proof (induction accepted)
  case (Cons t accepted)
  then show ?case
    by (cases "got = t") (simp_all add: ConstantTimeCompare_def del: One_nat_def)
qed simp

lemma tokenAccepted_iff: "tokenAccepted got accepted \<longleftrightarrow> got \<noteq> [] \<and> got \<in> set accepted"
  by (simp add: tokenAccepted_def match_tokens_iff del: One_nat_def)

lemma audit_simps [simp]:
  "st_Limiter (audit s ora r e st) = st_Limiter st"
  "st_Approvals (audit s ora r e st) = st_Approvals st"
  "st_World (audit s ora r e st) = st_World st"
  by (simp_all add: audit_def Let_def)

lemma limit_simps [simp]:
  "st_Approvals (snd (limit ora key st)) = st_Approvals st"
  "st_Audit (snd (limit ora key st)) = st_Audit st"
  "st_World (snd (limit ora key st)) = st_World st"
  by (simp_all add: limit_def split: prod.splits)

text \<open>The client must present a token: no tokens are accepted, or one of them is in the header.\<close>

definition authenticated :: "'w server \<Rightarrow> request \<Rightarrow> bool" where
  "authenticated s r \<longleftrightarrow> acceptedTokens s = [] \<or>
     Header_Get r AuthHeader \<noteq> [] \<and> Header_Get r AuthHeader \<in> set (acceptedTokens s)"

lemma authMiddleware_cases:
  obtains (refused) ok st' where "\<not> authenticated s r" "limit ora (''unauth:'' @ remoteHost r) st = (ok, st')"
      "authMiddleware s next ora r st =
        (if ok then writeError 401 ''missing or invalid token''
         else writeError 429 ''rate limit exceeded'', st')"
  | (limited) st' where "authenticated s r" "limit ora (identity s r) st = (False, st')"
      "authMiddleware s next ora r st = (writeError 429 ''rate limit exceeded'', st')"
  | (served) st' where "authenticated s r" "limit ora (identity s r) st = (True, st')"
      "authMiddleware s next ora r st = next ora r st'"
proof (cases "authenticated s r")
  case False
  obtain ok st' where l: "limit ora (''unauth:'' @ remoteHost r) st = (ok, st')" by fastforce
  from False have "length (acceptedTokens s) > 0
      \<and> \<not> tokenAccepted (Header_Get r AuthHeader) (acceptedTokens s)"
    by (auto simp: authenticated_def tokenAccepted_iff)
  with refused [OF False l] l show ?thesis by (simp add: authMiddleware_def Let_def)
next
  case True
  obtain ok st' where l: "limit ora (identity s r) st = (ok, st')" by fastforce
  from True have "\<not> (length (acceptedTokens s) > 0
      \<and> \<not> tokenAccepted (Header_Get r AuthHeader) (acceptedTokens s))"
    by (auto simp: authenticated_def tokenAccepted_iff)
  then have a: "(length (acceptedTokens s) > 0
      \<and> \<not> tokenAccepted (Header_Get r AuthHeader) (acceptedTokens s)) = False"
    by simp
  have "authMiddleware s next ora r st =
      (if \<not> ok then (writeError 429 ''rate limit exceeded'', st') else next ora r st')"
    unfolding authMiddleware_def Let_def a by (simp add: l)
  with limited [OF True] served [OF True] l show ?thesis by (cases ok) auto
qed

end
