(* ===== verification/Handlers.thy ===== *)
theory Handlers
  imports Server
begin

text \<open>
  The mutation handlers of \<open>api/handlers.go\<close> and the approval handlers of \<open>api/approval_http.go\<close>. A handler
  is a function from the readings, the request and the server's state to the response and the new
  state. The locale \<open>gated_mutation\<close> is the pipeline the four mutation handlers share (address,
  validate, policy, approval, execute, audit); it is interpreted on each of them.
\<close>

definition target_entry :: "string \<Rightarrow> string \<Rightarrow> int option \<Rightarrow> int \<Rightarrow> string \<Rightarrow> audit_entry" where
  "target_entry clusterID targetID replicas status err =
     no_entry\<lparr>audit_ClusterID := clusterID, audit_WorkloadID := targetID, audit_Replicas := replicas,
              audit_Status := status, audit_Error := err\<rparr>"

text \<open>
  The request for a parked mutation. Without a store Go dereferences nil here, and the recover
  middleware answers 500.
\<close>

definition writeParked :: "'w server \<Rightarrow> readings \<Rightarrow> request \<Rightarrow> string \<Rightarrow> string \<Rightarrow> string \<Rightarrow> int option \<Rightarrow>
    'w state \<Rightarrow> response \<times> 'w state" where
  "writeParked s ora r op clusterID targetID replicas st = (case st_Approvals st of
       None \<Rightarrow> (writeError 500 ''internal error'', st)
     | Some a \<Rightarrow>
         let (pr, a) = Park (ora_store ora) (randomApprovalID (ora_random ora)) op clusterID targetID
               replicas (identity s r) a;
             st = st\<lparr>st_Approvals := Some a\<rparr>;
             st = audit s ora r ((target_entry (pr_ClusterID pr) (pr_TargetID pr) (pr_Replicas pr) 202 '''')
                    \<lparr>audit_ApprovalID := pr_ID pr\<rparr>) st
         in (\<lparr>resp_Status = 202,
              resp_Location = Some (pathRoot @ ''/'' @ PathEscape (pr_ClusterID pr) @ ''/approvals/''
                                    @ PathEscape (pr_ID pr)),
              resp_Body = BodyApproval pr\<rparr>, st))"

definition handleStartDrain :: "'w server \<Rightarrow> string \<Rightarrow> string \<Rightarrow> 'w handler" where
  "handleStartDrain s clusterID nodeID ora r st =
     (if nodeID = '''' then (writeError 404 ''not found'', st)
      else case ValidateNodeID nodeID of
        Inl e \<Rightarrow>
          (writeError 400 (err_text e), audit s ora r (target_entry clusterID nodeID None 400 (err_text e)) st)
      | Inr _ \<Rightarrow>
          let reason = EvaluateDrain (srv_NodePolicy s) nodeID
          in if reason \<noteq> '''' then
               (writeError 403 (''policy violation: '' @ reason),
                audit s ora r (target_entry clusterID nodeID None 403 (''policy: '' @ reason)) st)
             else if Requires (st_Approvals st) OpDrain then
               writeParked s ora r OpDrain clusterID nodeID None st
             else let (res, w) = StartDrain (srv_Backend s) clusterID nodeID (st_World st);
                      st = st\<lparr>st_World := w\<rparr>
               in case res of
                 Inl e \<Rightarrow>
                   (writeBackendError e,
                    audit s ora r (target_entry clusterID nodeID None (backendErrStatus (Some e)) (err_text e)) st)
               | Inr job \<Rightarrow>
                   (writeJSON 202 (BodyJob job),
                    audit s ora r (target_entry clusterID nodeID None 202 '''') st))"

definition handleDrainStatus :: "'w server \<Rightarrow> string \<Rightarrow> string \<Rightarrow> string \<Rightarrow> 'w handler" where
  "handleDrainStatus s clusterID nodeID jobID ora r st =
     (if nodeID = '''' \<or> jobID = '''' then (writeError 404 ''not found'', st)
      else case ValidateNodeID nodeID of
        Inl e \<Rightarrow> (writeError 400 (err_text e), st)
      | Inr _ \<Rightarrow>
          let (res, w) = DrainStatus (srv_Backend s) clusterID nodeID jobID (st_World st);
              st = st\<lparr>st_World := w\<rparr>
          in case res of
               Inl e \<Rightarrow> (writeBackendError e, st)
             | Inr job \<Rightarrow> (writeJSON 200 (BodyJob job), st))"

definition handleCordon :: "'w server \<Rightarrow> string \<Rightarrow> string \<Rightarrow> bool \<Rightarrow> 'w handler" where
  "handleCordon s clusterID nodeID unschedulable ora r st =
     (if nodeID = '''' then (writeError 404 ''not found'', st)
      else case ValidateNodeID nodeID of
        Inl e \<Rightarrow>
          (writeError 400 (err_text e), audit s ora r (target_entry clusterID nodeID None 400 (err_text e)) st)
      | Inr _ \<Rightarrow>
          let reason = EvaluateCordon (srv_NodePolicy s) nodeID unschedulable
          in if reason \<noteq> '''' then
               (writeError 403 (''policy violation: '' @ reason),
                audit s ora r (target_entry clusterID nodeID None 403 (''policy: '' @ reason)) st)
             else if unschedulable \<and> Requires (st_Approvals st) OpCordon then
               writeParked s ora r OpCordon clusterID nodeID None st
             else let (res, w) = CordonNode (srv_Backend s) clusterID nodeID unschedulable (st_World st);
                      st = st\<lparr>st_World := w\<rparr>
               in case res of
                 Inl e \<Rightarrow>
                   (writeBackendError e,
                    audit s ora r (target_entry clusterID nodeID None (backendErrStatus (Some e)) (err_text e)) st)
               | Inr _ \<Rightarrow>
                   (writeJSON 200 (BodyFields [(''clusterId'', JString clusterID), (''nodeId'', JString nodeID),
                      (''schedulable'', JBool (\<not> unschedulable))]),
                    audit s ora r (target_entry clusterID nodeID None 200 '''') st))"

definition handleScale :: "'w server \<Rightarrow> string \<Rightarrow> string \<Rightarrow> 'w handler" where
  "handleScale s clusterID workloadID ora r st =
     (if workloadID = '''' then (writeError 404 ''not found'', st)
      else case ParseWorkloadID workloadID of
        Inl e \<Rightarrow>
          (writeError 400 (err_text e), audit s ora r (target_entry clusterID workloadID None 400 (err_text e)) st)
      | Inr (_, namespace, _) \<Rightarrow>
        (case req_Body r of
           Inl e \<Rightarrow>
             (writeError 400 ''invalid JSON body'',
              audit s ora r (target_entry clusterID workloadID None 400 (''decode body: '' @ e)) st)
         | Inr replicas \<Rightarrow>
           if replicas = None \<or> the replicas < 0 then
             (writeError 400 ''replicas must be a non-negative integer'',
              audit s ora r (target_entry clusterID workloadID replicas 400 ''replicas must be >=0'') st)
           else let reason = Evaluate (srv_ScalePolicy s) namespace (the replicas)
             in if reason \<noteq> '''' then
                  (writeError 403 (''policy violation: '' @ reason),
                   audit s ora r (target_entry clusterID workloadID replicas 403 (''policy: '' @ reason)) st)
                else if Requires (st_Approvals st) OpScale then
                  writeParked s ora r OpScale clusterID workloadID replicas st
                else let (res, w) = ScaleWorkload (srv_Backend s) clusterID workloadID (the replicas) (st_World st);
                         st = st\<lparr>st_World := w\<rparr>
                  in case res of
                    Inl e \<Rightarrow>
                      (writeBackendError e,
                       audit s ora r (target_entry clusterID workloadID replicas (backendErrStatus (Some e)) (err_text e)) st)
                  | Inr _ \<Rightarrow>
                      (writeJSON 200 (BodyFields [(''clusterId'', JString clusterID),
                         (''workloadId'', JString workloadID), (''replicas'', JInt (the replicas))]),
                       audit s ora r (target_entry clusterID workloadID replicas 200 '''') st)))"

definition handleRestart :: "'w server \<Rightarrow> string \<Rightarrow> string \<Rightarrow> 'w handler" where
  "handleRestart s clusterID workloadID ora r st =
     (if workloadID = '''' then (writeError 404 ''not found'', st)
      else case ParseWorkloadID workloadID of
        Inl e \<Rightarrow>
          (writeError 400 (err_text e), audit s ora r (target_entry clusterID workloadID None 400 (err_text e)) st)
      | Inr (_, namespace, _) \<Rightarrow>
          let reason = EvaluateNamespace (srv_ScalePolicy s) namespace
          in if reason \<noteq> '''' then
               (writeError 403 (''policy violation: '' @ reason),
                audit s ora r (target_entry clusterID workloadID None 403 (''policy: '' @ reason)) st)
             else if Requires (st_Approvals st) OpRestart then
               writeParked s ora r OpRestart clusterID workloadID None st
             else let (res, w) = RestartWorkload (srv_Backend s) clusterID workloadID (st_World st);
                      st = st\<lparr>st_World := w\<rparr>
               in case res of
                 Inl e \<Rightarrow>
                   (writeBackendError e,
                    audit s ora r (target_entry clusterID workloadID None (backendErrStatus (Some e)) (err_text e)) st)
               | Inr _ \<Rightarrow>
                   (writeJSON 200 (BodyFields [(''clusterId'', JString clusterID),
                      (''workloadId'', JString workloadID), (''restarted'', JBool True)]),
                    audit s ora r (target_entry clusterID workloadID None 200 '''') st))"

subsection \<open>Approvals\<close>

definition executePending :: "'w server \<Rightarrow> pending_request \<Rightarrow> 'w \<Rightarrow> (go_error + string) \<times> 'w" where
  "executePending s req w =
     (if pr_Op req = OpScale then
        (case pr_Replicas req of
           None \<Rightarrow> (Inl (Sentinel ErrBadRequest), w)
         | Some n \<Rightarrow> (case ScaleWorkload (srv_Backend s) (pr_ClusterID req) (pr_TargetID req) n w of
              (Inl e, w) \<Rightarrow> (Inl e, w) | (Inr _, w) \<Rightarrow> (Inr '''', w)))
      else if pr_Op req = OpRestart then
        (case RestartWorkload (srv_Backend s) (pr_ClusterID req) (pr_TargetID req) w of
           (Inl e, w) \<Rightarrow> (Inl e, w) | (Inr _, w) \<Rightarrow> (Inr '''', w))
      else if pr_Op req = OpCordon then
        (case CordonNode (srv_Backend s) (pr_ClusterID req) (pr_TargetID req) True w of
           (Inl e, w) \<Rightarrow> (Inl e, w) | (Inr _, w) \<Rightarrow> (Inr '''', w))
      else if pr_Op req = OpDrain then
        (case StartDrain (srv_Backend s) (pr_ClusterID req) (pr_TargetID req) w of
           (Inl e, w) \<Rightarrow> (Inl e, w) | (Inr job, w) \<Rightarrow> (Inr (dj_ID job), w))
      else (Inl (Sentinel ErrBadRequest), w))"

fun approvalErrStatus :: "approval_error \<Rightarrow> int" where
  "approvalErrStatus ErrApprovalNotFound = 404"
| "approvalErrStatus ErrSelfApprove = 409"
| "approvalErrStatus ErrApprovalTerminal = 409"

definition writeApprovalError :: "approval_error \<Rightarrow> response" where
  "writeApprovalError e = writeError (approvalErrStatus e) (approval_error_text e)"

definition approval_entry :: "string \<Rightarrow> string \<Rightarrow> int \<Rightarrow> string \<Rightarrow> audit_entry" where
  "approval_entry clusterID rid status err =
     no_entry\<lparr>audit_ClusterID := clusterID, audit_ApprovalID := rid, audit_Status := status,
              audit_Error := err\<rparr>"

definition handleListApprovals :: "string \<Rightarrow> 'w handler" where
  "handleListApprovals clusterID ora r st = (case st_Approvals st of
       None \<Rightarrow> (writeJSON 200 (BodyApprovals []), st)
     | Some a \<Rightarrow> let (out, a) = List_for (ora_get ora) clusterID a
                 in (writeJSON 200 (BodyApprovals out), st\<lparr>st_Approvals := Some a\<rparr>))"

definition handleGetApproval :: "string \<Rightarrow> string \<Rightarrow> 'w handler" where
  "handleGetApproval clusterID rid ora r st = (case st_Approvals st of
       None \<Rightarrow> (writeError 404 ''not found'', st)
     | Some a \<Rightarrow>
         if rid = '''' then (writeError 404 ''not found'', st)
         else let (found, a) = Get (ora_get ora) rid a; st = st\<lparr>st_Approvals := Some a\<rparr>
           in case found of
                None \<Rightarrow> (writeError 404 ''not found'', st)
              | Some pr \<Rightarrow> if pr_ClusterID pr \<noteq> clusterID then (writeError 404 ''not found'', st)
                           else (writeJSON 200 (BodyApproval pr), st))"

text \<open>After the approval: execute, audit, complete.\<close>

definition finish_approval :: "'w server \<Rightarrow> string \<Rightarrow> pending_request \<Rightarrow> 'w handler" where
  "finish_approval s rid approved ora r st =
     (let (res, w) = executePending s approved (st_World st);
          st = st\<lparr>st_World := w\<rparr>;
          entry = (target_entry (pr_ClusterID approved) (pr_TargetID approved) (pr_Replicas approved) 200 '''')
                    \<lparr>audit_ApprovalID := rid\<rparr>;
          (resultID, reason, entry) = (case res of
              Inr resultID \<Rightarrow> (resultID, '''', entry)
            | Inl e \<Rightarrow> ('''', publicErrMessage e,
                 entry\<lparr>audit_Status := backendErrStatus (Some e), audit_Error := err_text e\<rparr>));
          st = audit s ora r entry st
      in case st_Approvals st of
           None \<Rightarrow> (writeError 500 ''internal error'', st)
         | Some a \<Rightarrow>
           let (done, a) = Complete (ora_complete ora) rid resultID reason a; st = st\<lparr>st_Approvals := Some a\<rparr>
           in case done of
                Inl _ \<Rightarrow> (writeError 500 ''internal error'', st)
              | Inr final \<Rightarrow> (writeJSON 200 (BodyApproval final), st))"

definition handleApprove :: "'w server \<Rightarrow> string \<Rightarrow> string \<Rightarrow> 'w handler" where
  "handleApprove s clusterID rid ora r st = (case st_Approvals st of
       None \<Rightarrow> (writeError 404 ''not found'', st)
     | Some a \<Rightarrow>
         if rid = '''' then (writeError 404 ''not found'', st)
         else if length (acceptedTokens s) = 0 then
           (writeError 403 ''approval requires token auth'',
            audit s ora r (approval_entry clusterID rid 403 ''approval requires token auth'') st)
         else
           let (found, a) = Get (ora_get ora) rid a; st = st\<lparr>st_Approvals := Some a\<rparr>
           in case found of
                None \<Rightarrow> (writeError 404 ''not found'', st)
              | Some pr \<Rightarrow>
                if pr_ClusterID pr \<noteq> clusterID then (writeError 404 ''not found'', st)
                else let (res, a) = Approve (ora_store ora) rid (identity s r) a; st = st\<lparr>st_Approvals := Some a\<rparr>
                  in case res of
                    Inl e \<Rightarrow>
                      (writeApprovalError e,
                       audit s ora r (approval_entry clusterID rid (approvalErrStatus e) (approval_error_text e)) st)
                  | Inr approved \<Rightarrow> finish_approval s rid approved ora r st)"

definition handleReject :: "'w server \<Rightarrow> string \<Rightarrow> string \<Rightarrow> 'w handler" where
  "handleReject s clusterID rid ora r st = (case st_Approvals st of
       None \<Rightarrow> (writeError 404 ''not found'', st)
     | Some a \<Rightarrow>
         if rid = '''' then (writeError 404 ''not found'', st)
         else
           let (found, a) = Get (ora_get ora) rid a; st = st\<lparr>st_Approvals := Some a\<rparr>
           in case found of
                None \<Rightarrow> (writeError 404 ''not found'', st)
              | Some pr \<Rightarrow>
                if pr_ClusterID pr \<noteq> clusterID then (writeError 404 ''not found'', st)
                else let (res, a) = Reject (ora_store ora) rid (''rejected by '' @ identity s r) a;
                         st = st\<lparr>st_Approvals := Some a\<rparr>
                  in case res of
                    Inl e \<Rightarrow>
                      (writeApprovalError e,
                       audit s ora r (approval_entry clusterID rid (approvalErrStatus e) (approval_error_text e)) st)
                  | Inr final \<Rightarrow>
                      (writeJSON 200 (BodyApproval final),
                       audit s ora r ((target_entry (pr_ClusterID final) (pr_TargetID final) (pr_Replicas final) 200 '''')
                         \<lparr>audit_ApprovalID := pr_ID final\<rparr>) st))"

subsection \<open>The pipeline of a mutation\<close>

text \<open>
  What the four handlers share: a request without a target is not found; one that is not admitted
  (validation or policy) is refused and audited; an admitted one is parked if its operation requires
  approval, and otherwise performed, with one audit entry that has the status of the response.
\<close>

locale gated_mutation =
  fixes run :: "'w handler" and s :: "'w server" and clusterID target op :: string
    and admits :: "request \<Rightarrow> bool"
    and gated :: "approval_store option \<Rightarrow> bool"
    and captured :: "request \<Rightarrow> int option"
    and the_call :: "request \<Rightarrow> mutation_call"
    and success :: int
  assumes no_target: "target = [] \<Longrightarrow> run ora r st = (writeError 404 ''not found'', st)"
    and refused: "target \<noteq> [] \<Longrightarrow> \<not> admits r \<Longrightarrow>
      \<exists>status msg n err. run ora r st =
        (writeError status msg, audit s ora r (target_entry clusterID target n status err) st)
        \<and> (status = 400 \<or> status = 403)"
    and parked: "target \<noteq> [] \<Longrightarrow> admits r \<Longrightarrow> gated (st_Approvals st) \<Longrightarrow>
      run ora r st = writeParked s ora r op clusterID target (captured r) st"
    and performed: "target \<noteq> [] \<Longrightarrow> admits r \<Longrightarrow> \<not> gated (st_Approvals st) \<Longrightarrow>
      \<exists>resp err. resp_Location resp = None
        \<and> run ora r st = (resp, audit s ora r (target_entry clusterID target (captured r) (resp_Status resp) err)
              (st\<lparr>st_World := snd (perform (srv_Backend s) (the_call r) (st_World st))\<rparr>))
        \<and> resp_Status resp = (case fst (perform (srv_Backend s) (the_call r) (st_World st)) of
              None \<Rightarrow> success | Some e \<Rightarrow> backendErrStatus (Some e))"
    and gate_is_op: "gated a \<Longrightarrow> Requires a op"
begin

lemma gate_has_store: "gated a \<Longrightarrow> a \<noteq> None"
  by (drule gate_is_op) (auto simp: Requires_def split: option.splits)

lemma run_cases:
  obtains (missing) "target = []" "run ora r st = (writeError 404 ''not found'', st)"
  | (refused) status msg n err where "target \<noteq> []" "\<not> admits r" "status = 400 \<or> status = 403"
      "run ora r st = (writeError status msg, audit s ora r (target_entry clusterID target n status err) st)"
  | (parked) "target \<noteq> []" "admits r" "gated (st_Approvals st)"
      "run ora r st = writeParked s ora r op clusterID target (captured r) st"
  | (performed) resp err where "target \<noteq> []" "admits r" "\<not> gated (st_Approvals st)"
      "resp_Location resp = None"
      "run ora r st = (resp, audit s ora r (target_entry clusterID target (captured r) (resp_Status resp) err)
              (st\<lparr>st_World := snd (perform (srv_Backend s) (the_call r) (st_World st))\<rparr>))"
      "resp_Status resp = (case fst (perform (srv_Backend s) (the_call r) (st_World st)) of
              None \<Rightarrow> success | Some e \<Rightarrow> backendErrStatus (Some e))"
proof (cases "target = []")
  case True
  then show ?thesis using missing no_target by simp
next
  case target: False
  show ?thesis
  proof (cases "admits r")
    case False
    then show ?thesis using gated_mutation.refused [OF gated_mutation_axioms target] refused target by blast
  next
    case True
    then show ?thesis
      using gated_mutation.parked [OF gated_mutation_axioms target]
        gated_mutation.performed [OF gated_mutation_axioms target] parked performed target
      by blast
  qed
qed

text \<open>The backend is asked for the mutation exactly when it is admitted and needs no approval.\<close>

lemma world_after_run:
  "st_World (snd (run ora r st)) =
     (if target \<noteq> [] \<and> admits r \<and> \<not> gated (st_Approvals st)
      then snd (perform (srv_Backend s) (the_call r) (st_World st)) else st_World st)"
  by (cases rule: run_cases [of ora r st])
    (auto simp: writeParked_def split: option.splits prod.splits)

lemma limiter_after_run: "st_Limiter (snd (run ora r st)) = st_Limiter st"
  by (cases rule: run_cases [of ora r st])
    (auto simp: writeParked_def split: option.splits prod.splits)

lemma approvals_after_run:
  "st_Approvals (snd (run ora r st)) =
     (if target \<noteq> [] \<and> admits r \<and> gated (st_Approvals st)
      then Some (snd (Park (ora_store ora) (randomApprovalID (ora_random ora)) op clusterID target
             (captured r) (identity s r) (the (st_Approvals st))))
      else st_Approvals st)"
  using gate_has_store [of "st_Approvals st"]
  by (cases rule: run_cases [of ora r st])
    (auto simp: writeParked_def split: option.splits prod.splits)

text \<open>Every request with a target is audited once, with the caller, the target and the answered status.\<close>

lemma audit_after_run:
  assumes "srv_AuditSink s" and "target \<noteq> []"
  shows "\<exists>e. st_Audit (snd (run ora r st)) = st_Audit st @ [e]
    \<and> audit_Status e = resp_Status (fst (run ora r st)) \<and> audit_Identity e = identity s r
    \<and> audit_Method e = req_Method r \<and> audit_Path e = req_Path r
    \<and> audit_ClusterID e = clusterID \<and> audit_WorkloadID e = target"
  using assms gate_has_store [of "st_Approvals st"]
  by (cases rule: run_cases [of ora r st])
    (auto simp: writeParked_def audit_def target_entry_def writeError_def writeJSON_def Park_def Let_def)

end

subsubsection \<open>The four handlers\<close>

definition admits_scale :: "'w server \<Rightarrow> string \<Rightarrow> request \<Rightarrow> bool" where
  "admits_scale s workloadID r = (case ParseWorkloadID workloadID of
       Inl _ \<Rightarrow> False
     | Inr (_, ns, _) \<Rightarrow> (case req_Body r of
         Inr (Some n) \<Rightarrow> 0 \<le> n \<and> Evaluate (srv_ScalePolicy s) ns n = []
       | _ \<Rightarrow> False))"

definition admits_restart :: "'w server \<Rightarrow> string \<Rightarrow> bool" where
  "admits_restart s workloadID = (case ParseWorkloadID workloadID of
       Inl _ \<Rightarrow> False
     | Inr (_, ns, _) \<Rightarrow> EvaluateNamespace (srv_ScalePolicy s) ns = [])"

definition admits_cordon :: "'w server \<Rightarrow> string \<Rightarrow> bool \<Rightarrow> bool" where
  "admits_cordon s nodeID unschedulable \<longleftrightarrow>
     ValidateNodeID nodeID = Inr () \<and> EvaluateCordon (srv_NodePolicy s) nodeID unschedulable = []"

definition admits_drain :: "'w server \<Rightarrow> string \<Rightarrow> bool" where
  "admits_drain s nodeID \<longleftrightarrow>
     ValidateNodeID nodeID = Inr () \<and> EvaluateDrain (srv_NodePolicy s) nodeID = []"

definition body_replicas :: "request \<Rightarrow> int option" where
  "body_replicas r = (case req_Body r of Inr n \<Rightarrow> n | Inl _ \<Rightarrow> None)"

lemma admits_scale_cases:
  assumes "admits_scale s workloadID r"
  obtains kind ns name n where "ParseWorkloadID workloadID = Inr (kind, ns, name)"
    "req_Body r = Inr (Some n)" "0 \<le> n" "Evaluate (srv_ScalePolicy s) ns n = []"
  using assms by (auto simp: admits_scale_def split: sum.splits option.splits)

lemma entry_status [simp]:
  "audit_Status (target_entry c t n status err) = status"
  by (simp add: target_entry_def)

lemma response_simps [simp]:
  "resp_Status (writeJSON status b) = status" "resp_Location (writeJSON status b) = None"
  "resp_Status (writeError status m) = status" "resp_Location (writeError status m) = None"
  "resp_Status (writeBackendError e) = backendErrStatus (Some e)"
  "resp_Location (writeBackendError e) = None"
  by (simp_all add: writeJSON_def writeError_def writeBackendError_def)

interpretation cordon: gated_mutation "handleCordon s clusterID nodeID u" s clusterID nodeID OpCordon
  "\<lambda>r. admits_cordon s nodeID u" "\<lambda>a. u \<and> Requires a OpCordon" "\<lambda>r. None"
  "\<lambda>r. CallCordon clusterID nodeID u" 200
  for s clusterID nodeID u
proof unfold_locales
  fix ora r st
  show "handleCordon s clusterID nodeID u ora r st = (writeError 404 ''not found'', st)" if "nodeID = []"
    using that by (simp add: handleCordon_def)
  show "\<exists>status msg n err. handleCordon s clusterID nodeID u ora r st =
      (writeError status msg, audit s ora r (target_entry clusterID nodeID n status err) st)
      \<and> (status = 400 \<or> status = 403)" if "nodeID \<noteq> []" "\<not> admits_cordon s nodeID u"
    using that
    by (cases "ValidateNodeID nodeID")
      (auto simp: handleCordon_def admits_cordon_def Let_def)
  show "handleCordon s clusterID nodeID u ora r st = writeParked s ora r OpCordon clusterID nodeID None st"
    if "nodeID \<noteq> []" "admits_cordon s nodeID u" "u \<and> Requires (st_Approvals st) OpCordon"
    using that by (simp add: handleCordon_def admits_cordon_def)
  show "\<exists>resp err. resp_Location resp = None \<and> handleCordon s clusterID nodeID u ora r st =
      (resp, audit s ora r (target_entry clusterID nodeID None (resp_Status resp) err)
        (st\<lparr>st_World := snd (perform (srv_Backend s) (CallCordon clusterID nodeID u) (st_World st))\<rparr>))
      \<and> resp_Status resp = (case fst (perform (srv_Backend s) (CallCordon clusterID nodeID u) (st_World st)) of
          None \<Rightarrow> 200 | Some e \<Rightarrow> backendErrStatus (Some e))"
    if "nodeID \<noteq> []" "admits_cordon s nodeID u" "\<not> (u \<and> Requires (st_Approvals st) OpCordon)"
    using that
    by (auto simp: handleCordon_def admits_cordon_def split: prod.splits sum.splits)
  show "Requires a OpCordon" if "u \<and> Requires a OpCordon" for a using that ..
qed

interpretation drain: gated_mutation "handleStartDrain s clusterID nodeID" s clusterID nodeID OpDrain
  "\<lambda>r. admits_drain s nodeID" "\<lambda>a. Requires a OpDrain" "\<lambda>r. None"
  "\<lambda>r. CallDrain clusterID nodeID" 202
  for s clusterID nodeID
proof unfold_locales
  fix ora r st
  show "handleStartDrain s clusterID nodeID ora r st = (writeError 404 ''not found'', st)" if "nodeID = []"
    using that by (simp add: handleStartDrain_def)
  show "\<exists>status msg n err. handleStartDrain s clusterID nodeID ora r st =
      (writeError status msg, audit s ora r (target_entry clusterID nodeID n status err) st)
      \<and> (status = 400 \<or> status = 403)" if "nodeID \<noteq> []" "\<not> admits_drain s nodeID"
    using that
    by (cases "ValidateNodeID nodeID")
      (auto simp: handleStartDrain_def admits_drain_def Let_def)
  show "handleStartDrain s clusterID nodeID ora r st = writeParked s ora r OpDrain clusterID nodeID None st"
    if "nodeID \<noteq> []" "admits_drain s nodeID" "Requires (st_Approvals st) OpDrain"
    using that by (simp add: handleStartDrain_def admits_drain_def)
  show "\<exists>resp err. resp_Location resp = None \<and> handleStartDrain s clusterID nodeID ora r st =
      (resp, audit s ora r (target_entry clusterID nodeID None (resp_Status resp) err)
        (st\<lparr>st_World := snd (perform (srv_Backend s) (CallDrain clusterID nodeID) (st_World st))\<rparr>))
      \<and> resp_Status resp = (case fst (perform (srv_Backend s) (CallDrain clusterID nodeID) (st_World st)) of
          None \<Rightarrow> 202 | Some e \<Rightarrow> backendErrStatus (Some e))"
    if "nodeID \<noteq> []" "admits_drain s nodeID" "\<not> Requires (st_Approvals st) OpDrain"
    using that
    by (auto simp: handleStartDrain_def admits_drain_def split: prod.splits sum.splits)
qed

interpretation restart: gated_mutation "handleRestart s clusterID workloadID" s clusterID workloadID OpRestart
  "\<lambda>r. admits_restart s workloadID" "\<lambda>a. Requires a OpRestart" "\<lambda>r. None"
  "\<lambda>r. CallRestart clusterID workloadID" 200
  for s clusterID workloadID
proof unfold_locales
  fix ora r st
  show "handleRestart s clusterID workloadID ora r st = (writeError 404 ''not found'', st)"
    if "workloadID = []"
    using that by (simp add: handleRestart_def)
  show "\<exists>status msg n err. handleRestart s clusterID workloadID ora r st =
      (writeError status msg, audit s ora r (target_entry clusterID workloadID n status err) st)
      \<and> (status = 400 \<or> status = 403)" if "workloadID \<noteq> []" "\<not> admits_restart s workloadID"
    using that
    by (cases "ParseWorkloadID workloadID")
      (auto simp: handleRestart_def admits_restart_def Let_def, blast+)
  show "handleRestart s clusterID workloadID ora r st =
      writeParked s ora r OpRestart clusterID workloadID None st"
    if "workloadID \<noteq> []" "admits_restart s workloadID" "Requires (st_Approvals st) OpRestart"
    using that by (auto simp: handleRestart_def admits_restart_def split: sum.splits)
  show "\<exists>resp err. resp_Location resp = None \<and> handleRestart s clusterID workloadID ora r st =
      (resp, audit s ora r (target_entry clusterID workloadID None (resp_Status resp) err)
        (st\<lparr>st_World := snd (perform (srv_Backend s) (CallRestart clusterID workloadID) (st_World st))\<rparr>))
      \<and> resp_Status resp = (case fst (perform (srv_Backend s) (CallRestart clusterID workloadID) (st_World st)) of
          None \<Rightarrow> 200 | Some e \<Rightarrow> backendErrStatus (Some e))"
    if "workloadID \<noteq> []" "admits_restart s workloadID" "\<not> Requires (st_Approvals st) OpRestart"
    using that
    by (auto simp: handleRestart_def admits_restart_def split: prod.splits sum.splits)
qed

interpretation scale: gated_mutation "handleScale s clusterID workloadID" s clusterID workloadID OpScale
  "admits_scale s workloadID" "\<lambda>a. Requires a OpScale" body_replicas
  "\<lambda>r. CallScale clusterID workloadID (the (body_replicas r))" 200
  for s clusterID workloadID
proof unfold_locales
  fix ora r st
  show "handleScale s clusterID workloadID ora r st = (writeError 404 ''not found'', st)"
    if "workloadID = []"
    using that by (simp add: handleScale_def)
  show "\<exists>status msg n err. handleScale s clusterID workloadID ora r st =
      (writeError status msg, audit s ora r (target_entry clusterID workloadID n status err) st)
      \<and> (status = 400 \<or> status = 403)" if "workloadID \<noteq> []" "\<not> admits_scale s workloadID r"
    using that
    by (cases "ParseWorkloadID workloadID"; cases "req_Body r")
      (auto simp: handleScale_def admits_scale_def Let_def split: option.splits, blast+)
  show "handleScale s clusterID workloadID ora r st =
      writeParked s ora r OpScale clusterID workloadID (body_replicas r) st"
    if "workloadID \<noteq> []" "admits_scale s workloadID r" "Requires (st_Approvals st) OpScale"
    using that
    by (elim admits_scale_cases) (simp add: handleScale_def body_replicas_def)
  show "\<exists>resp err. resp_Location resp = None \<and> handleScale s clusterID workloadID ora r st =
      (resp, audit s ora r (target_entry clusterID workloadID (body_replicas r) (resp_Status resp) err)
        (st\<lparr>st_World := snd (perform (srv_Backend s)
           (CallScale clusterID workloadID (the (body_replicas r))) (st_World st))\<rparr>))
      \<and> resp_Status resp = (case fst (perform (srv_Backend s)
           (CallScale clusterID workloadID (the (body_replicas r))) (st_World st)) of
          None \<Rightarrow> 200 | Some e \<Rightarrow> backendErrStatus (Some e))"
    if "workloadID \<noteq> []" "admits_scale s workloadID r" "\<not> Requires (st_Approvals st) OpScale"
    using that
    by (elim admits_scale_cases)
      (auto simp: handleScale_def body_replicas_def split: prod.splits sum.splits)
qed

end
