(* ===== verification/Routing.thy ===== *)
theory Routing
  imports Handlers
begin

text \<open>
  The dispatch of \<open>api/handlers.go\<close>: from a request to its handler. \<open>Handler\<close> is the whole HTTP API.
\<close>

definition handleRoot :: "'w server \<Rightarrow> 'w handler" where
  "handleRoot s ora r st =
     (if req_Method r \<noteq> ''GET'' then (writeError 405 ''method not allowed'', st)
      else let (res, w) = ListClusters (srv_Backend s) (st_World st); st = st\<lparr>st_World := w\<rparr>
           in case res of
                Inl e \<Rightarrow> (writeBackendError e, st)
              | Inr clusters \<Rightarrow> (writeJSON 200 (BodyClusters clusters), st))"

definition handleWorkloadMutation :: "'w server \<Rightarrow> string \<Rightarrow> string \<Rightarrow> 'w handler" where
  "handleWorkloadMutation s clusterID rest ora r st =
     (if HasSuffix rest ''/scale'' then
        handleScale s clusterID (TrimSuffix rest ''/scale'') ora r st
      else if HasSuffix rest ''/restart'' then
        handleRestart s clusterID (TrimSuffix rest ''/restart'') ora r st
      else (writeError 404 ''not found'', st))"

definition handleNodeMutation :: "'w server \<Rightarrow> string \<Rightarrow> string \<Rightarrow> 'w handler" where
  "handleNodeMutation s clusterID rest ora r st =
     (if HasSuffix rest ''/cordon'' then
        handleCordon s clusterID (TrimSuffix rest ''/cordon'') True ora r st
      else if HasSuffix rest ''/uncordon'' then
        handleCordon s clusterID (TrimSuffix rest ''/uncordon'') False ora r st
      else if HasSuffix rest ''/drain'' then
        handleStartDrain s clusterID (TrimSuffix rest ''/drain'') ora r st
      else (writeError 404 ''not found'', st))"

definition handleApprovalAction :: "'w server \<Rightarrow> string \<Rightarrow> string \<Rightarrow> 'w handler" where
  "handleApprovalAction s clusterID rest ora r st =
     (if HasSuffix rest ''/approve'' then
        handleApprove s clusterID (TrimSuffix rest ''/approve'') ora r st
      else if HasSuffix rest ''/reject'' then
        handleReject s clusterID (TrimSuffix rest ''/reject'') ora r st
      else (writeError 404 ''not found'', st))"

definition handleMutation :: "'w server \<Rightarrow> string \<Rightarrow> string \<Rightarrow> 'w handler" where
  "handleMutation s clusterID subpath ora r st =
     (if HasPrefix subpath ''workloads/'' then
        handleWorkloadMutation s clusterID (TrimPrefix subpath ''workloads/'') ora r st
      else if HasPrefix subpath ''nodes/'' then
        handleNodeMutation s clusterID (TrimPrefix subpath ''nodes/'') ora r st
      else if HasPrefix subpath ''approvals/'' then
        handleApprovalAction s clusterID (TrimPrefix subpath ''approvals/'') ora r st
      else (writeError 404 ''not found'', st))"

definition handleSnapshot :: "'w server \<Rightarrow> string \<Rightarrow> 'w handler" where
  "handleSnapshot s clusterID ora r st =
     (let (res, w) = LoadSnapshot (srv_Backend s) clusterID (st_World st); st = st\<lparr>st_World := w\<rparr>
      in case res of
           Inl e \<Rightarrow> (writeBackendError e, st)
         | Inr snapshot \<Rightarrow> (writeJSON 200 (BodySnapshot snapshot), st))"

definition handleEvents :: "'w server \<Rightarrow> string \<Rightarrow> 'w handler" where
  "handleEvents s clusterID ora r st =
     (let kind = req_Query r ''kind'';
          objectName = req_Query r ''objectName'';
          namespace = req_Query r ''namespace'';
          limit = 5;
          v = req_Query r ''limit'';
          limit = (if v \<noteq> '''' then (case Atoi v of
                       Some parsed \<Rightarrow> if parsed > 0 then parsed else limit | None \<Rightarrow> limit)
                   else limit)
      in if kind = '''' \<or> objectName = '''' then
           (writeError 400 ''kind and objectName are required'', st)
         else case ValidateEventQuery kind objectName namespace of
           Inl e \<Rightarrow> (writeError 400 (err_text e), st)
         | Inr _ \<Rightarrow>
           let (res, w) = LoadEvents (srv_Backend s) clusterID kind objectName namespace limit (st_World st);
               st = st\<lparr>st_World := w\<rparr>
           in case res of
                Inl e \<Rightarrow> (writeBackendError e, st)
              | Inr events \<Rightarrow> (writeJSON 200 (BodyEvents events), st))"

text \<open>What \<open>GET\<close> on a cluster's subpath addresses: the tests of \<open>handleClusterScoped\<close> in their order.\<close>

definition drain_poll :: "string \<Rightarrow> (string \<times> string) option" where
  "drain_poll subpath =
     (let rest = TrimPrefix subpath ''nodes/''
      in if rest \<noteq> subpath then
           (case Index rest ''/drain/'' of
              Some idx \<Rightarrow> Some (take idx rest, drop (idx + length ''/drain/'') rest)
            | None \<Rightarrow> None)
         else None)"

definition handleRead :: "'w server \<Rightarrow> string \<Rightarrow> string \<Rightarrow> 'w handler" where
  "handleRead s clusterID subpath ora r st =
     (case drain_poll subpath of
        Some (nodeID, jobID) \<Rightarrow> handleDrainStatus s clusterID nodeID jobID ora r st
      | None \<Rightarrow>
        let rid = TrimPrefix subpath ''approvals/''
        in if rid \<noteq> subpath then handleGetApproval clusterID rid ora r st
           else if subpath = ''approvals'' then handleListApprovals clusterID ora r st
           else if subpath = ''snapshot'' then handleSnapshot s clusterID ora r st
           else if subpath = ''events'' then handleEvents s clusterID ora r st
           else (writeError 404 ''not found'', st))"

definition handleClusterScoped :: "'w server \<Rightarrow> 'w handler" where
  "handleClusterScoped s ora r st =
     (let (rest, ok) = CutPrefix (req_EscapedPath r) (pathRoot @ ''/'')
      in if \<not> ok \<or> rest = '''' then (writeError 404 ''not found'', st)
         else let (rawCluster, rawSubpath, _) = Cut rest (CHR ''/'')
           in case PathUnescape rawCluster of
                None \<Rightarrow> (writeError 404 ''not found'', st)
              | Some clusterID \<Rightarrow> (case PathUnescape rawSubpath of
                  None \<Rightarrow> (writeError 404 ''not found'', st)
                | Some subpath \<Rightarrow>
                    if req_Method r = ''POST'' then handleMutation s clusterID subpath ora r st
                    else if req_Method r \<noteq> ''GET'' then (writeError 405 ''method not allowed'', st)
                    else handleRead s clusterID subpath ora r st))"

subsection \<open>The mux\<close>

text \<open>
  \<open>http.ServeMux\<close> with the two patterns the server registers: it cleans the escaped path and redirects a
  request whose path was not clean, then compares the unescaped segments with the patterns. The
  \<open>Location\<close> of the redirect is not modelled.
\<close>

fun clean_segments :: "string list \<Rightarrow> string list \<Rightarrow> string list" where
  "clean_segments [] stack = rev stack"
| "clean_segments (seg # segs) stack =
     (if seg = '''' \<or> seg = ''.'' then clean_segments segs stack
      else if seg = ''..'' then clean_segments segs (tl stack)
      else clean_segments segs (seg # stack))"

definition cleanPath :: "string \<Rightarrow> string" where
  "cleanPath p =
     (let p = (if p = '''' then ''/'' else if hd p \<noteq> CHR ''/'' then CHR ''/'' # p else p);
          np = CHR ''/'' # Join (clean_segments (Split p (CHR ''/'')) []) ''/''
      in if last p = CHR ''/'' \<and> np \<noteq> ''/'' then np @ ''/'' else np)"

datatype route = RouteRoot | RouteScoped | RouteRedirect | RouteNone

definition unescape_segment :: "string \<Rightarrow> string" where
  "unescape_segment seg = (case PathUnescape seg of Some s \<Rightarrow> s | None \<Rightarrow> seg)"

definition mux_route :: "request \<Rightarrow> route" where
  "mux_route r =
     (let path = cleanPath (req_EscapedPath r)
      in if path \<noteq> req_EscapedPath r then RouteRedirect
         else case Split path (CHR ''/'') of
           _ # a # b # rest \<Rightarrow>
             if unescape_segment a = ''v1'' \<and> unescape_segment b = ''clusters'' then
               (if rest = [] then RouteRoot else RouteScoped)
             else RouteNone
         | _ \<Rightarrow> RouteNone)"

definition Handler :: "'w server \<Rightarrow> 'w handler" where
  "Handler s ora r st = (case mux_route r of
       RouteRoot \<Rightarrow> authMiddleware s (handleRoot s) ora r st
     | RouteScoped \<Rightarrow> authMiddleware s (handleClusterScoped s) ora r st
     | RouteRedirect \<Rightarrow> (writeJSON 301 (BodyText ''''), st)
     | RouteNone \<Rightarrow> (writeJSON 404 (BodyText ''404 page not found''), st))"

end
