(* ===== verification/Gateway.thy ===== *)
theory Gateway
  imports Routing SampleBackend
begin

text \<open>
  Properties of the whole HTTP API: which requests reach the backend's mutations, what an
  unauthenticated request can change, how identities and parked requests behave. They are stated of
  a server whose backend is \<open>recorded b\<close>: any backend \<open>b\<close>, with the log of the mutations it performs.
\<close>

abbreviation call_log :: "('w \<times> mutation_call list) state \<Rightarrow> mutation_call list" where
  "call_log st \<equiv> snd (st_World st)"

subsection \<open>Executing a parked request\<close>

text \<open>The mutation a parked request captured; \<open>None\<close> if it cannot be executed.\<close>

definition captured_call :: "pending_request \<Rightarrow> mutation_call option" where
  "captured_call p =
     (if pr_Op p = OpScale then map_option (CallScale (pr_ClusterID p) (pr_TargetID p)) (pr_Replicas p)
      else if pr_Op p = OpRestart then Some (CallRestart (pr_ClusterID p) (pr_TargetID p))
      else if pr_Op p = OpCordon then Some (CallCordon (pr_ClusterID p) (pr_TargetID p) True)
      else if pr_Op p = OpDrain then Some (CallDrain (pr_ClusterID p) (pr_TargetID p))
      else None)"

lemma executePending_world:
  "snd (executePending s p w) = (case captured_call p of
     None \<Rightarrow> w | Some c \<Rightarrow> snd (perform (srv_Backend s) c w))"
  by (auto simp: executePending_def captured_call_def split: option.splits prod.splits sum.splits)

lemma executePending_error:
  "(case fst (executePending s p w) of Inl e \<Rightarrow> Some e | Inr _ \<Rightarrow> None) = (case captured_call p of
     None \<Rightarrow> Some (Sentinel ErrBadRequest) | Some c \<Rightarrow> fst (perform (srv_Backend s) c w))"
  by (auto simp: executePending_def captured_call_def split: option.splits prod.splits sum.splits)

lemma finish_approval_world:
  "st_World (snd (finish_approval s rid p ora r st)) = snd (executePending s p (st_World st))"
  by (auto simp: finish_approval_def Let_def split: prod.splits sum.splits option.splits)

lemma finish_approval_audit:
  assumes "srv_AuditSink s"
  shows "\<exists>e. st_Audit (snd (finish_approval s rid p ora r st)) = st_Audit st @ [e]
    \<and> audit_Identity e = identity s r \<and> audit_ClusterID e = pr_ClusterID p
    \<and> audit_WorkloadID e = pr_TargetID p \<and> audit_ApprovalID e = rid"
  using assms
  by (auto simp: finish_approval_def Let_def audit_def target_entry_def
      split: prod.splits sum.splits option.splits)

text \<open>The request \<open>rid\<close> that an approval by \<open>who\<close> would execute, at the readings of the approval.\<close>

definition approvable :: "readings \<Rightarrow> string \<Rightarrow> string \<Rightarrow> string \<Rightarrow> approval_store \<Rightarrow> pending_request \<Rightarrow> bool" where
  "approvable ora clusterID rid who a p \<longleftrightarrow> map_of (reqs a) rid = Some p
     \<and> pr_Phase p = ApprovalPhasePending \<and> UnixMilli (ora_get ora 0) < pr_ExpiresAt p
     \<and> UnixMilli (ora_store ora 0) < pr_ExpiresAt p \<and> pr_ClusterID p = clusterID \<and> pr_Requester p \<noteq> who"

lemma approve_cases:
  obtains (refused) a' e where
      "\<nexists>p a. st_Approvals st = Some a \<and> acceptedTokens s \<noteq> [] \<and> rid \<noteq> []
         \<and> approvable ora c rid (identity s r) a p"
      "snd (handleApprove s c rid ora r st) = st\<lparr>st_Approvals := a'\<rparr>
       \<or> snd (handleApprove s c rid ora r st) = audit s ora r e (st\<lparr>st_Approvals := a'\<rparr>)"
  | (approved) a p q where "st_Approvals st = Some a" "acceptedTokens s \<noteq> []" "rid \<noteq> []"
      "approvable ora c rid (identity s r) a p" "same_mutation p q" "pr_Phase q = ApprovalPhaseApproved"
      "handleApprove s c rid ora r st = finish_approval s rid q ora r
         (st\<lparr>st_Approvals := Some (a\<lparr>reqs := AList.update rid q (reqs a)\<rparr>)\<rparr>)"
proof (cases "\<exists>a. st_Approvals st = Some a \<and> rid \<noteq> [] \<and> acceptedTokens s \<noteq> []")
  case False
  then show ?thesis
    by (intro refused [of "st_Approvals st"
        "approval_entry c rid 403 ''approval requires token auth''"])
      (auto simp: handleApprove_def split: option.splits)
next
  case True
  then obtain a where a: "st_Approvals st = Some a" "rid \<noteq> []" "acceptedTokens s \<noteq> []" by blast
  show ?thesis
  proof (cases "map_of (reqs a) rid")
    case None
    then show ?thesis
      using a by (intro refused [of "st_Approvals st"])
        (auto simp: handleApprove_def Get_def approvable_def)
  next
    case (Some p)
    define p1 where "p1 = expireLocked (ora_get ora 0) (ora_get ora 1) p"
    define a1 where "a1 = a\<lparr>reqs := AList.update rid p1 (reqs a)\<rparr>"
    have get: "Get (ora_get ora) rid a = (Some p1, a1)"
      using Some by (simp add: Get_def p1_def a1_def Let_def)
    have p1: "map_of (reqs a1) rid = Some p1" by (simp add: a1_def update_conv')
    show ?thesis
    proof (cases "approvable ora c rid (identity s r) a p")
      case False
      then have none: "\<nexists>p a. st_Approvals st = Some a \<and> acceptedTokens s \<noteq> [] \<and> rid \<noteq> []
          \<and> approvable ora c rid (identity s r) a p"
        using a Some by (auto simp: approvable_def)
      have cluster: "pr_ClusterID p1 = pr_ClusterID p" by (simp add: p1_def)
      show ?thesis
      proof (cases "pr_ClusterID p = c")
        case other: False
        then show ?thesis
          by (intro refused [OF none, of "Some a1"]) (simp add: handleApprove_def a get cluster)
      next
        case same: True
        show ?thesis
        proof (cases rule: Approve_cases [of a1 rid "ora_store ora" "identity s r"])
          case missing
          then show ?thesis using p1 by simp
        next
          case (resolved r')
          show ?thesis
            by (rule refused [OF none, OF disjI2])
              (simp add: handleApprove_def a get cluster same resolved(3))
        next
          case (own r')
          show ?thesis
            by (rule refused [OF none, OF disjI2])
              (simp add: handleApprove_def a get cluster same own(5))
        next
          case (approved r' q)
          then have "pr_Phase p1 = ApprovalPhasePending" "r' = p1" using p1 by auto
          then have "approvable ora c rid (identity s r) a p"
            using approved same Some by (auto simp: p1_def expire_pending approvable_def)
          then show ?thesis using False by simp
        qed
      qed
    next
      case True
      then have p1p: "p1 = p" by (simp add: approvable_def p1_def expireLocked_def)
      have a1a: "AList.update rid q (reqs a1) = AList.update rid q (reqs a)" for q
        by (simp add: a1_def update_update)
      show ?thesis
      proof (cases rule: Approve_cases [of a1 rid "ora_store ora" "identity s r"])
        case ok: (approved r' q)
        have store: "a1\<lparr>reqs := AList.update rid q (reqs a1)\<rparr> = a\<lparr>reqs := AList.update rid q (reqs a)\<rparr>"
          by (simp add: a1_def update_update)
        have "r' = p" using ok(1) p1 p1p by simp
        then have "same_mutation p q" "pr_Phase q = ApprovalPhaseApproved"
          using ok(5) by (simp_all add: same_mutation_def)
        moreover have "pr_ClusterID p1 = c" using True p1p by (simp add: approvable_def)
        ultimately show ?thesis
          by (intro approved [OF a(1,3,2) True]) (simp_all add: handleApprove_def a get ok(6) store)
      qed (use True p1 p1p in \<open>auto simp: approvable_def\<close>)
    qed
  qed
qed

subsection \<open>Which requests mutate\<close>

fun call_cluster :: "mutation_call \<Rightarrow> string" where
  "call_cluster (CallScale c t n) = c"
| "call_cluster (CallRestart c t) = c"
| "call_cluster (CallCordon c t u) = c"
| "call_cluster (CallDrain c t) = c"

fun call_target :: "mutation_call \<Rightarrow> string" where
  "call_target (CallScale c t n) = t"
| "call_target (CallRestart c t) = t"
| "call_target (CallCordon c t u) = t"
| "call_target (CallDrain c t) = t"

text \<open>A mutation that the request itself may ask for: valid, within policy, and not subject to approval.\<close>

fun inline_allowed :: "'w server \<Rightarrow> approval_store option \<Rightarrow> request \<Rightarrow> mutation_call \<Rightarrow> bool" where
  "inline_allowed s a r (CallScale c t n) \<longleftrightarrow>
     admits_scale s t r \<and> body_replicas r = Some n \<and> \<not> Requires a OpScale"
| "inline_allowed s a r (CallRestart c t) \<longleftrightarrow> admits_restart s t \<and> \<not> Requires a OpRestart"
| "inline_allowed s a r (CallCordon c t u) \<longleftrightarrow> admits_cordon s t u \<and> \<not> (u \<and> Requires a OpCordon)"
| "inline_allowed s a r (CallDrain c t) \<longleftrightarrow> admits_drain s t \<and> \<not> Requires a OpDrain"

text \<open>A mutation that the request approves: parked, pending, unexpired, of another identity.\<close>

definition approval_allowed :: "'w server \<Rightarrow> readings \<Rightarrow> request \<Rightarrow> approval_store option \<Rightarrow> mutation_call \<Rightarrow> bool" where
  "approval_allowed s ora r st_a call \<longleftrightarrow> (\<exists>a rid p. st_a = Some a \<and> acceptedTokens s \<noteq> []
     \<and> approvable ora (call_cluster call) rid (identity s r) a p \<and> captured_call p = Some call)"

definition audited_call :: "'w server \<Rightarrow> request \<Rightarrow> audit_entry list \<Rightarrow> audit_entry list \<Rightarrow> mutation_call \<Rightarrow> bool" where
  "audited_call s r before after call \<longleftrightarrow> (\<exists>e. after = before @ [e] \<and> audit_Identity e = identity s r
     \<and> audit_ClusterID e = call_cluster call \<and> audit_WorkloadID e = call_target call)"

definition outcome_ok :: "('w \<times> mutation_call list) server \<Rightarrow> readings \<Rightarrow> request \<Rightarrow>
    ('w \<times> mutation_call list) state \<Rightarrow> ('w \<times> mutation_call list) state \<Rightarrow> bool" where
  "outcome_ok s ora r st st' \<longleftrightarrow> call_log st' = call_log st \<or>
     (\<exists>call. call_log st' = call_log st @ [call]
        \<and> (inline_allowed s (st_Approvals st) r call \<or> approval_allowed s ora r (st_Approvals st) call)
        \<and> (srv_AuditSink s \<longrightarrow> audited_call s r (st_Audit st) (st_Audit st') call))"

lemma outcome_quiet [simp]: "call_log st' = call_log st \<Longrightarrow> outcome_ok s ora r st st'"
  by (simp add: outcome_ok_def)

lemma outcome_call:
  assumes "call_log st' = call_log st @ [call]"
    and "inline_allowed s (st_Approvals st) r call \<or> approval_allowed s ora r (st_Approvals st) call"
    and "srv_AuditSink s \<Longrightarrow> audited_call s r (st_Audit st) (st_Audit st') call"
  shows "outcome_ok s ora r st st'"
  using assms by (auto simp: outcome_ok_def)

lemma captured_call_target:
  "captured_call p = Some c \<Longrightarrow> call_cluster c = pr_ClusterID p \<and> call_target c = pr_TargetID p"
  by (auto simp: captured_call_def split: if_splits)

lemma captured_call_same: "same_mutation p q \<Longrightarrow> captured_call q = captured_call p"
  by (simp add: same_mutation_def captured_call_def)

lemma outcome_scale:
  assumes "srv_Backend s = recorded b"
  shows "outcome_ok s ora r st (snd (handleScale s c t ora r st))"
proof (cases "t \<noteq> [] \<and> admits_scale s t r \<and> \<not> Requires (st_Approvals st) OpScale")
  case True
  then have "body_replicas r = Some (the (body_replicas r))"
    by (auto elim!: admits_scale_cases simp: body_replicas_def)
  with True show ?thesis
    using scale.audit_after_run [of s t c ora r st] assms
    by (intro outcome_call [of _ _ "CallScale c t (the (body_replicas r))"])
      (auto simp: scale.world_after_run audited_call_def simp del: perform.simps)
qed (auto simp: scale.world_after_run simp del: perform.simps intro!: outcome_quiet)

lemma outcome_restart:
  assumes "srv_Backend s = recorded b"
  shows "outcome_ok s ora r st (snd (handleRestart s c t ora r st))"
proof (cases "t \<noteq> [] \<and> admits_restart s t \<and> \<not> Requires (st_Approvals st) OpRestart")
  case True
  then show ?thesis
    using restart.audit_after_run [of s t c ora r st] assms
    by (intro outcome_call [of _ _ "CallRestart c t"])
      (auto simp: restart.world_after_run audited_call_def simp del: perform.simps)
qed (auto simp: restart.world_after_run simp del: perform.simps intro!: outcome_quiet)

lemma outcome_cordon:
  assumes "srv_Backend s = recorded b"
  shows "outcome_ok s ora r st (snd (handleCordon s c t u ora r st))"
proof (cases "t \<noteq> [] \<and> admits_cordon s t u \<and> \<not> (u \<and> Requires (st_Approvals st) OpCordon)")
  case True
  then show ?thesis
    using cordon.audit_after_run [of s t c u ora r st] assms
    by (intro outcome_call [of _ _ "CallCordon c t u"])
      (auto simp: cordon.world_after_run audited_call_def simp del: perform.simps)
qed (auto simp: cordon.world_after_run simp del: perform.simps intro!: outcome_quiet)

lemma outcome_drain:
  assumes "srv_Backend s = recorded b"
  shows "outcome_ok s ora r st (snd (handleStartDrain s c t ora r st))"
proof (cases "t \<noteq> [] \<and> admits_drain s t \<and> \<not> Requires (st_Approvals st) OpDrain")
  case True
  then show ?thesis
    using drain.audit_after_run [of s t c ora r st] assms
    by (intro outcome_call [of _ _ "CallDrain c t"])
      (auto simp: drain.world_after_run audited_call_def simp del: perform.simps)
qed (auto simp: drain.world_after_run simp del: perform.simps intro!: outcome_quiet)

lemma outcome_approve:
  assumes "srv_Backend s = recorded b"
  shows "outcome_ok s ora r st (snd (handleApprove s c rid ora r st))"
proof (cases rule: approve_cases [of st s rid ora c r])
  case (refused a' e)
  then show ?thesis by auto
next
  case (approved a p q)
  let ?st = "st\<lparr>st_Approvals := Some (a\<lparr>reqs := AList.update rid q (reqs a)\<rparr>)\<rparr>"
  show ?thesis
  proof (cases "captured_call p")
    case None
    then have "captured_call q = None" using captured_call_same [OF approved(5)] by simp
    then show ?thesis by (simp add: approved(7) finish_approval_world executePending_world)
  next
    case (Some call)
    then have q: "captured_call q = Some call" using captured_call_same [OF approved(5)] by simp
    have c: "call_cluster call = c" "call_target call = pr_TargetID q" "pr_ClusterID q = c"
      using captured_call_target [OF Some] captured_call_target [OF q] approved(4)
      by (simp_all add: approvable_def)
    have "approval_allowed s ora r (st_Approvals st) call"
      using approved(1,2,4) Some c(1) by (auto simp: approval_allowed_def)
    moreover have "audited_call s r (st_Audit st) (st_Audit (snd (finish_approval s rid q ora r ?st))) call"
      if "srv_AuditSink s"
      using finish_approval_audit [OF that, of rid q ora r ?st] c by (auto simp: audited_call_def)
    moreover have "call_log (snd (finish_approval s rid q ora r ?st)) = call_log st @ [call]"
      by (simp add: finish_approval_world executePending_world q assms)
    ultimately show ?thesis unfolding approved(7) by (intro outcome_call [of _ _ call]) auto
  qed
qed

lemma outcome_reject: "outcome_ok s ora r st (snd (handleReject s c rid ora r st))"
  by (rule outcome_quiet)
    (simp add: handleReject_def Let_def split: option.splits prod.splits sum.splits)

lemma reads_keep_log:
  assumes "srv_Backend s = recorded b"
  shows "call_log (snd (handleRead s c sub ora r st)) = call_log st"
    and "call_log (snd (handleRoot s ora r st)) = call_log st"
proof -
  have keep: "snd w' = snd w" if "keep_log f w = (x, w')" for f :: "'a \<Rightarrow> 'c \<times> 'a" and w x w'
    using that snd_keep_log [of f w] by simp
  show "call_log (snd (handleRoot s ora r st)) = call_log st"
    by (auto simp: handleRoot_def assms Let_def split: prod.splits sum.splits dest: keep)
  have "call_log (snd (handleDrainStatus s c n j ora r st)) = call_log st" for n j
    by (auto simp: handleDrainStatus_def assms Let_def split: prod.splits sum.splits dest: keep)
  moreover have "call_log (snd (handleGetApproval c rid ora r st)) = call_log st" for rid
    by (simp add: handleGetApproval_def Let_def split: prod.splits option.splits)
  moreover have "call_log (snd (handleListApprovals c ora r st)) = call_log st"
    by (simp add: handleListApprovals_def Let_def split: prod.splits option.splits)
  moreover have "call_log (snd (handleSnapshot s c ora r st)) = call_log st"
    by (auto simp: handleSnapshot_def assms Let_def split: prod.splits sum.splits dest: keep)
  moreover have "call_log (snd (handleEvents s c ora r st)) = call_log st"
    by (auto simp: handleEvents_def assms Let_def split: prod.splits sum.splits dest: keep)
  ultimately show "call_log (snd (handleRead s c sub ora r st)) = call_log st"
    by (simp add: handleRead_def Let_def split: option.splits prod.splits)
qed

lemma outcome_mutation:
  assumes "srv_Backend s = recorded b"
  shows "outcome_ok s ora r st (snd (handleMutation s c sub ora r st))"
  by (simp add: handleMutation_def handleWorkloadMutation_def handleNodeMutation_def
      handleApprovalAction_def outcome_scale [OF assms] outcome_restart [OF assms]
      outcome_cordon [OF assms] outcome_drain [OF assms] outcome_approve [OF assms] outcome_reject)

lemma outcome_scoped:
  assumes "srv_Backend s = recorded b"
  shows "outcome_ok s ora r st (snd (handleClusterScoped s ora r st))"
    and "req_Method r \<noteq> ''POST'' \<Longrightarrow> call_log (snd (handleClusterScoped s ora r st)) = call_log st"
proof -
  show "outcome_ok s ora r st (snd (handleClusterScoped s ora r st))"
    by (simp add: handleClusterScoped_def Let_def outcome_mutation [OF assms] reads_keep_log(1) [OF assms]
        split: prod.splits option.splits)
  show "call_log (snd (handleClusterScoped s ora r st)) = call_log st" if "req_Method r \<noteq> ''POST''"
    using that by (simp add: handleClusterScoped_def Let_def reads_keep_log(1) [OF assms] split: prod.splits option.splits)
qed

lemma limit_state [simp]:
  "limit ora key st = (ok, st') \<Longrightarrow> st_Approvals st' = st_Approvals st"
  "limit ora key st = (ok, st') \<Longrightarrow> st_World st' = st_World st"
  "limit ora key st = (ok, st') \<Longrightarrow> st_Audit st' = st_Audit st"
  by (auto simp: limit_def split: prod.splits)

lemma outcome_middleware:
  assumes "\<And>st. outcome_ok s ora r st (snd (next ora r st))"
  shows "outcome_ok s ora r st (snd (authMiddleware s next ora r st))"
proof (cases rule: authMiddleware_cases [of s r ora st "next"])
  case (served st')
  with assms [of st'] show ?thesis by (simp add: outcome_ok_def)
qed simp_all

lemma middleware_refuses:
  "\<not> authenticated s r \<Longrightarrow> st_World (snd (authMiddleware s next ora r st)) = st_World st
     \<and> st_Approvals (snd (authMiddleware s next ora r st)) = st_Approvals st
     \<and> st_Audit (snd (authMiddleware s next ora r st)) = st_Audit st
     \<and> fst (authMiddleware s next ora r st) \<in> {writeError 401 ''missing or invalid token'',
          writeError 429 ''rate limit exceeded''}"
  by (cases rule: authMiddleware_cases [of s r ora st "next"]) auto

lemma middleware_keeps_log:
  assumes "\<And>st. call_log (snd (next ora r st)) = call_log st"
  shows "call_log (snd (authMiddleware s next ora r st)) = call_log st"
  using assms by (cases rule: authMiddleware_cases [of s r ora st "next"]) auto

lemma mutation_outcome:
  assumes "srv_Backend s = recorded b"
    and "call_log (snd (Handler s ora r st)) \<noteq> call_log st"
  shows "authenticated s r" and "req_Method r = ''POST''" and "outcome_ok s ora r st (snd (Handler s ora r st))"
proof -
  note scoped = outcome_scoped [OF assms(1)]
  note reads = reads_keep_log [OF assms(1)]
  have route: "mux_route r = RouteScoped"
    using assms(2) reads(2)
    by (cases "mux_route r") (auto simp: Handler_def intro!: middleware_keeps_log)
  then have run: "Handler s ora r st = authMiddleware s (handleClusterScoped s) ora r st"
    by (simp add: Handler_def)
  show "authenticated s r"
    using assms(2) middleware_refuses [of s r "handleClusterScoped s" ora st]
    by (cases "authenticated s r") (simp_all add: run)
  show "req_Method r = ''POST''"
    using assms(2) by (rule contrapos_np) (simp add: run middleware_keeps_log scoped(2))
  show "outcome_ok s ora r st (snd (Handler s ora r st))"
    unfolding run by (intro outcome_middleware scoped(1))
qed

subsection \<open>What the API guarantees\<close>

text \<open>C1: authorisation. A request that makes the server call a mutation of its backend is a \<open>POST\<close> with an accepted
  token (or token auth is off); it causes exactly one call; that call either is the one the request
  asks for, passed validation and policy and needs no approval, or is the one captured by a pending,
  unexpired request of the addressed cluster that an identity other than its requester now approves with
  token auth on; and with an audit sink exactly one entry is added, with the caller, cluster and target.\<close>

theorem mutations_are_authorised:
  assumes "srv_Backend s = recorded b"
    and "call_log (snd (Handler s ora r st)) \<noteq> call_log st"
  shows "authenticated s r \<and> req_Method r = ''POST'' \<and>
    (\<exists>call. call_log (snd (Handler s ora r st)) = call_log st @ [call]
       \<and> (inline_allowed s (st_Approvals st) r call \<or> approval_allowed s ora r (st_Approvals st) call)
       \<and> (srv_AuditSink s \<longrightarrow> audited_call s r (st_Audit st) (st_Audit (snd (Handler s ora r st))) call))"
  using mutation_outcome [OF assms] assms(2) by (auto simp: outcome_ok_def)

definition demo_server :: "(time \<times> mutation_call list) server" where
  "demo_server = \<lparr>srv_Backend = recorded SampleBackend, srv_Tokens = [''alice'', ''bob''], srv_Token = [],
     srv_TrustForwardedFor = False, srv_AuditSink = True, srv_ScalePolicy = None, srv_NodePolicy = None,
     srv_Sum256 = (\<lambda>s. s)\<rparr>"

definition demo_state :: "(time \<times> mutation_call list) state" where
  "demo_state = \<lparr>st_Limiter = None, st_Approvals = None, st_Audit = [], st_World = (0, [])\<rparr>"

definition demo_readings :: readings where
  "demo_readings = \<lparr>ora_limit_now = 0, ora_order = [], ora_audit_now = 0, ora_get = (\<lambda>i. 0),
     ora_store = (\<lambda>i. 0), ora_complete = (\<lambda>i. 0), ora_random = ''random12byte''\<rparr>"

definition demo_request :: "string \<Rightarrow> string \<Rightarrow> string \<Rightarrow> request" where
  "demo_request token method path = \<lparr>req_Method = method, req_Path = path, req_EscapedPath = path,
     req_Header = [(AuthHeader, [token])], req_RemoteAddr = ''10.0.0.1:999'', req_Query = (\<lambda>k. []),
     req_Body = Inl ''EOF''\<rparr>"

definition drain_request :: request where
  "drain_request = demo_request ''alice'' ''POST'' ''/v1/clusters/c/nodes/n1/drain''"

lemma demo_drain_runs:
  "call_log (snd (Handler demo_server demo_readings drain_request demo_state)) = [CallDrain ''c'' ''n1'']"
  by code_simp

theorem mutations_are_authorised_witness:
  "authenticated demo_server drain_request \<and> req_Method drain_request = ''POST''"
  using mutations_are_authorised [of demo_server SampleBackend demo_readings drain_request demo_state]
    demo_drain_runs
  by (simp add: demo_server_def demo_state_def)

text \<open>C12: the auth gate. Without an accepted token a request to the API is answered 401 or 429 and changes
  nothing but the rate limiter: not the cluster, not the approvals, not the audit log; and the answer
  does not depend on them.\<close>

theorem unauthenticated_changes_nothing:
  assumes "\<not> authenticated s r" and "mux_route r \<in> {RouteRoot, RouteScoped}"
  shows "fst (Handler s ora r st) \<in> {writeError 401 ''missing or invalid token'',
      writeError 429 ''rate limit exceeded''}
    \<and> (snd (Handler s ora r st))\<lparr>st_Limiter := st_Limiter st\<rparr> = st
    \<and> fst (Handler s ora r st) = fst (Handler s ora r (st\<lparr>st_World := w, st_Approvals := a, st_Audit := l\<rparr>))"
proof -
  have a: "(length (acceptedTokens s) > 0
      \<and> \<not> tokenAccepted (Header_Get r AuthHeader) (acceptedTokens s)) = True"
    using assms(1) by (auto simp: authenticated_def tokenAccepted_iff)
  have run: "Handler s ora r st = (let (ok, st) = limit ora (''unauth:'' @ remoteHost r) st
      in (if ok then writeError 401 ''missing or invalid token'' else writeError 429 ''rate limit exceeded'', st))"
    for st
  proof -
    have "authMiddleware s next ora r st = (let (ok, st) = limit ora (''unauth:'' @ remoteHost r) st
      in (if ok then writeError 401 ''missing or invalid token'' else writeError 429 ''rate limit exceeded'', st))"
      for "next"
      unfolding authMiddleware_def Let_def a by (simp split: prod.splits)
    with assms(2) show ?thesis by (auto simp: Handler_def)
  qed
  show ?thesis
    by (auto simp: run limit_def split: prod.splits)
qed

theorem unauthenticated_changes_nothing_witness:
  "fst (Handler demo_server demo_readings (demo_request ''mallory'' ''POST'' ''/v1/clusters/c/nodes/n1/drain'') demo_state)
     \<in> {writeError 401 ''missing or invalid token'', writeError 429 ''rate limit exceeded''}"
proof -
  have "\<not> authenticated demo_server (demo_request ''mallory'' ''POST'' ''/v1/clusters/c/nodes/n1/drain'')"
    by code_simp
  moreover have "mux_route (demo_request ''mallory'' ''POST'' ''/v1/clusters/c/nodes/n1/drain'')
      \<in> {RouteRoot, RouteScoped}"
    by code_simp
  ultimately show ?thesis
    by (rule unauthenticated_changes_nothing [THEN conjunct1])
qed

subsection \<open>Identities\<close>

text \<open>C14: identities. With token auth on, two requests have the same identity exactly when the SHA-256 digests of the
  tokens they present agree in the first six bytes, whatever else they send: always for one token, and for two
  tokens only when these 48 bits collide. And that is exactly when the approval store takes them for one person:
  a mutation parked for one of them is refused to the other as self-approval, as long as it is pending.\<close>

theorem identity_is_the_token:
  assumes "acceptedTokens s \<noteq> []" and "UnixMilli (clk' 0) < UnixMilli (clk 1 + ttl store)"
  shows "(identity s r = identity s r' \<longleftrightarrow>
      take 6 (srv_Sum256 s (Header_Get r AuthHeader)) = take 6 (srv_Sum256 s (Header_Get r' AuthHeader)))
    \<and> (fst (Approve clk' rid (identity s r') (snd (Park clk rid op c t n (identity s r) store))) = Inl ErrSelfApprove \<longleftrightarrow>
      take 6 (srv_Sum256 s (Header_Get r AuthHeader)) = take 6 (srv_Sum256 s (Header_Get r' AuthHeader)))"
proof -
  have "identity s r = identity s r' \<longleftrightarrow>
      take 6 (srv_Sum256 s (Header_Get r AuthHeader)) = take 6 (srv_Sum256 s (Header_Get r' AuthHeader))"
    using assms(1) by (auto simp: identity_def Let_def dest: hex_encode_inj)
  moreover have "fst (Approve clk' rid (identity s r') (snd (Park clk rid op c t n (identity s r) store))) = Inl ErrSelfApprove
      \<longleftrightarrow> identity s r = identity s r'"
    using assms(2) by (auto simp: park_then_approve)
  ultimately show ?thesis by simp
qed

theorem identity_is_the_token_witness:
  "identity demo_server (demo_request ''alice'' ''GET'' ''/v1/clusters'')
     \<noteq> identity demo_server (demo_request ''bob'' ''GET'' ''/v1/clusters'')"
proof -
  have "acceptedTokens demo_server = [''alice'', ''bob'']"
    by (simp add: acceptedTokens_def demo_server_def)
  moreover have "Header_Get (demo_request t m p) AuthHeader = t" for t m p
    by (simp add: Header_Get_def Header_Values_def demo_request_def)
  moreover have "UnixMilli 0 < UnixMilli (0 + ttl (NewApprovalStore Hour []))"
    by (simp add: UnixMilli_def NewApprovalStore_def)
  ultimately show ?thesis
    using identity_is_the_token [of demo_server "\<lambda>i. 0" "\<lambda>i. 0" "NewApprovalStore Hour []"
        "demo_request ''alice'' ''GET'' ''/v1/clusters''" "demo_request ''bob'' ''GET'' ''/v1/clusters''"]
    by (simp add: demo_server_def)
qed

lemma after_last_byte:
  assumes "c \<notin> set post"
  shows "drop (nat (LastIndexByte (pre @ c # post) c + 1)) (pre @ c # post) = post"
proof -
  have "takeWhile (\<lambda>x. x \<noteq> c) (rev (pre @ c # post)) = rev post"
    using assms by (auto simp: takeWhile_append)
  then have "LastIndexByte (pre @ c # post) c + 1 = int (length pre) + 1"
    unfolding LastIndexByte_def by simp
  then have "nat (LastIndexByte (pre @ c # post) c + 1) = length pre + 1" by simp
  then show ?thesis by simp
qed

lemma after_no_byte: "c \<notin> set s \<Longrightarrow> drop (nat (LastIndexByte s c + 1)) s = s"
proof -
  assume "c \<notin> set s"
  then have t: "takeWhile (\<lambda>x. x \<noteq> c) (rev s) = rev s" by (auto simp: takeWhile_eq_all_conv)
  show ?thesis unfolding LastIndexByte_def t by simp
qed

text \<open>C15: with token auth off a client cannot choose its identity by a header: unless \<open>TrustForwardedFor\<close> is set the
  headers have no influence at all, and if it is set, the identity is the address in the last entry of the
  last \<open>X-Forwarded-For\<close> line, the one the nearest proxy wrote, whatever lines and entries precede it.\<close>

theorem client_cannot_choose_identity:
  assumes "acceptedTokens s = []" and "CHR '','' \<notin> set ip" and "TrimSpace ip \<noteq> []"
    and "srv_TrustForwardedFor s \<longrightarrow> Header_Values r ''X-Forwarded-For'' = lines @ [client @ '','' @ ip]
           \<or> Header_Values r ''X-Forwarded-For'' = lines @ [ip]"
  shows "identity s r = (if srv_TrustForwardedFor s then TrimSpace ip else remoteHost r)
    \<and> remoteHost (r\<lparr>req_Header := h\<rparr>) = remoteHost r"
proof -
  have last: "drop (nat (LastIndexByte (Join vs '','') (CHR '','') + 1)) (Join vs '','') = ip"
    if "vs = lines @ [client @ '','' @ ip] \<or> vs = lines @ [ip]" for vs
  proof -
    have split: "Join (xs @ [y]) '','' = (if xs = [] then y else Join xs '','' @ CHR '','' # y)" for xs y
      by (induction xs rule: induct_list012) auto
    have "Join vs '','' = ip \<or> (\<exists>pre. Join vs '','' = pre @ CHR '','' # ip)"
    proof (cases "vs = lines @ [ip]")
      case True
      then show ?thesis by (auto simp: split)
    next
      case False
      with that have v: "vs = lines @ [client @ '','' @ ip]" by blast
      then have "Join vs '','' = (if lines = [] then client else Join lines '','' @ '','' @ client) @ CHR '','' # ip"
        by (simp add: split)
      then show ?thesis by blast
    qed
    then show ?thesis using after_last_byte [OF assms(2)] after_no_byte [OF assms(2)] by auto
  qed
  have "clientIP s r = TrimSpace ip" if "srv_TrustForwardedFor s"
    using that assms(3) last [of "Header_Values r ''X-Forwarded-For''"] assms(4)
    by (simp add: clientIP_def)
  moreover have "clientIP s r = remoteHost r" if "\<not> srv_TrustForwardedFor s"
    using that by (simp add: clientIP_def)
  ultimately show ?thesis using assms(1)
    by (simp add: identity_def remoteHost_def split: option.splits)
qed

theorem client_cannot_choose_identity_witness:
  "identity (demo_server\<lparr>srv_Tokens := [], srv_TrustForwardedFor := True\<rparr>)
     ((demo_request [] ''GET'' ''/v1/clusters'')\<lparr>req_Header :=
        [(''X-Forwarded-For'', [''1.1.1.1'', ''2.2.2.2, 3.3.3.3''])]\<rparr>) = TrimSpace '' 3.3.3.3''"
  by (rule client_cannot_choose_identity [where ip = "'' 3.3.3.3''" and lines = "[''1.1.1.1'']"
        and client = "''2.2.2.2''", THEN conjunct1, THEN trans])
    (simp_all add: acceptedTokens_def demo_server_def Header_Values_def, code_simp)

subsection \<open>Parked requests\<close>

lemma PathEscape_inj: "PathEscape a = PathEscape b \<longleftrightarrow> a = b"
  by (metis PathUnescape_PathEscape option.inject)

lemma PathEscape_dots [simp]:
  "PathEscape c = [] \<longleftrightarrow> c = []" "PathEscape c = ''.'' \<longleftrightarrow> c = ''.''" "PathEscape c = ''..'' \<longleftrightarrow> c = ''..''"
proof -
  have "PathEscape [] = []" "PathEscape ''.'' = ''.''" "PathEscape ''..'' = ''..''" by code_simp+
  then show "PathEscape c = [] \<longleftrightarrow> c = []" "PathEscape c = ''.'' \<longleftrightarrow> c = ''.''"
    "PathEscape c = ''..'' \<longleftrightarrow> c = ''..''"
    by (metis PathEscape_inj)+
qed

lemma approval_id_shape:
  "randomApprovalID b \<noteq> []" "randomApprovalID b \<noteq> ''.''" "randomApprovalID b \<noteq> ''..''"
  by (simp_all add: randomApprovalID_def)

text \<open>The path under which a parked request can be polled.\<close>

definition approval_path :: "string \<Rightarrow> string \<Rightarrow> string" where
  "approval_path c rid = pathRoot @ ''/'' @ PathEscape c @ ''/approvals/'' @ PathEscape rid"

lemma approval_path_segments:
  "Split (approval_path c rid) (CHR ''/'') =
     [[], ''v1'', ''clusters'', PathEscape c, ''approvals'', PathEscape rid]"
proof -
  have "approval_path c rid = Join [[], ''v1'', ''clusters'', PathEscape c, ''approvals'', PathEscape rid] ''/''"
    by (simp add: approval_path_def pathRoot_def)
  then show ?thesis
    using slash_notin_PathEscape by (simp only:) (rule Split_Join, auto)
qed

lemma approval_path_end:
  assumes "rid \<noteq> []"
  shows "last (approval_path c rid) \<noteq> CHR ''/''"
proof -
  have "last (approval_path c rid) = last (PathEscape rid)"
    using assms by (simp add: approval_path_def)
  moreover have "last (PathEscape rid) \<in> set (PathEscape rid)"
    using assms by (intro last_in_set) simp
  ultimately show ?thesis using slash_notin_PathEscape [of rid] by metis
qed

lemma approval_path_route:
  assumes "req_EscapedPath r = approval_path c rid" and "rid \<notin> {[], ''.'', ''..''}"
  shows "mux_route r = (if c \<in> {[], ''.'', ''..''} then RouteRedirect else RouteScoped)"
proof -
  let ?p = "approval_path c rid"
  have p: "?p \<noteq> []" "hd ?p = CHR ''/''" by (simp_all add: approval_path_def pathRoot_def)
  have "cleanPath ?p = CHR ''/'' # Join (clean_segments
      [[], ''v1'', ''clusters'', PathEscape c, ''approvals'', PathEscape rid] []) ''/''"
    using p approval_path_end [of rid c] assms(2)
    by (simp add: cleanPath_def approval_path_segments Let_def)
  also have "\<dots> = (if c = [] \<or> c = ''.'' then ''/v1/clusters/approvals/'' @ PathEscape rid
      else if c = ''..'' then ''/v1/approvals/'' @ PathEscape rid else ?p)"
    using assms(2) by (auto simp: approval_path_def pathRoot_def)
  finally have clean: "cleanPath ?p = \<dots>" .
  have "unescape_segment ''v1'' = ''v1''" "unescape_segment ''clusters'' = ''clusters''" by code_simp+
  then show ?thesis
    using clean by (auto simp: mux_route_def assms(1) approval_path_segments Let_def)
      (auto simp: approval_path_def pathRoot_def)
qed

lemma approval_path_handled:
  assumes "req_EscapedPath r = approval_path c rid" and "req_Method r = ''GET''" and "rid \<noteq> []"
  shows "handleClusterScoped s ora r st = handleGetApproval c rid ora r st"
proof -
  have cut: "CutPrefix (req_EscapedPath r) (pathRoot @ ''/'') = (PathEscape c @ ''/approvals/'' @ PathEscape rid, True)"
    using CutPrefix_append [of "pathRoot @ ''/''"] by (simp add: assms(1) approval_path_def)
  have slash: "Cut (PathEscape c @ ''/approvals/'' @ PathEscape rid) (CHR ''/'')
      = (PathEscape c, ''approvals/'' @ PathEscape rid, True)"
    using Cut_found [OF slash_notin_PathEscape, of c "''approvals/'' @ PathEscape rid"] by simp
  have sub: "PathUnescape (''approvals/'' @ PathEscape rid) = Some (''approvals/'' @ rid)"
    using PathUnescape_append [of "''approvals/''" "''approvals/''" "PathEscape rid"]
    by (simp add: PathUnescape_PathEscape)
  have "drain_poll (''approvals/'' @ rid) = None"
    by (simp add: drain_poll_def TrimPrefix_def HasPrefix_def)
  moreover have "TrimPrefix (''approvals/'' @ rid) ''approvals/'' = rid" by (rule TrimPrefix_append)
  ultimately have "handleRead s c (''approvals/'' @ rid) ora r st = handleGetApproval c rid ora r st"
    by (simp add: handleRead_def Let_def)
  with assms(2) show ?thesis
    unfolding handleClusterScoped_def cut Let_def prod.case slash sub PathUnescape_PathEscape option.case
    by simp
qed

text \<open>C17: the \<open>Location\<close> of a parked mutation leads to it: the answer is 202 with the pending request, filed
  under the caller's identity, the backend is untouched; and a \<open>GET\<close> on that location, at any later time, is
  routed to the API and answers 200 with the same request, expired if its time is over. The cluster id may
  hold any bytes, \<open>/\<close> and \<open>%\<close> included, but must not be empty, \<open>.\<close> or \<open>..\<close>.\<close>

theorem location_leads_to_parked_request:
  assumes "st_Approvals st = Some a" and "writeParked s ora r op c t n st = (resp, st')"
    and "c \<notin> {[], ''.'', ''..''}"
    and "req_Method r' = ''GET''" and "resp_Location resp = Some (req_EscapedPath r')"
  shows "\<exists>p. resp_Status resp = 202 \<and> resp_Body resp = BodyApproval p
    \<and> pr_Requester p = identity s r \<and> pr_Phase p = ApprovalPhasePending \<and> st_World st' = st_World st
    \<and> mux_route r' = RouteScoped
    \<and> fst (handleClusterScoped s ora' r' st') =
        writeJSON 200 (BodyApproval (expireLocked (ora_get ora' 0) (ora_get ora' 1) p))"
proof -
  define rid where "rid = randomApprovalID (ora_random ora)"
  obtain p a' where park: "Park (ora_store ora) rid op c t n (identity s r) a = (p, a')" by fastforce
  have p: "pr_ID p = rid" "pr_ClusterID p = c" "pr_Requester p = identity s r"
    "pr_Phase p = ApprovalPhasePending" "map_of (reqs a') rid = Some p"
    using park by (auto simp: Park_def Let_def update_conv')
  have path: "req_EscapedPath r' = approval_path c rid"
    and resp: "resp_Status resp = 202" "resp_Body resp = BodyApproval p" "st_World st' = st_World st"
      "st_Approvals st' = Some a'"
    using assms(1,2,5) park p by (auto simp: writeParked_def rid_def approval_path_def)
  have "mux_route r' = RouteScoped"
    using approval_path_route [OF path] assms(3) approval_id_shape by (simp add: rid_def)
  moreover have "fst (handleGetApproval c rid ora' r' st') =
      writeJSON 200 (BodyApproval (expireLocked (ora_get ora' 0) (ora_get ora' 1) p))"
    using p resp approval_id_shape(1) [of "ora_random ora"]
    by (simp add: handleGetApproval_def Get_def rid_def Let_def)
  moreover have "rid \<noteq> []" using approval_id_shape(1) by (simp add: rid_def)
  ultimately show ?thesis
    using p resp approval_path_handled [OF path assms(4), of s ora' st'] by auto
qed

definition parking_state :: "(time \<times> mutation_call list) state" where
  "parking_state = demo_state\<lparr>st_Approvals := Some (NewApprovalStore (5 * Minute) [OpDrain])\<rparr>"

theorem location_leads_to_parked_request_witness:
  "mux_route (demo_request ''bob'' ''GET'' (the (resp_Location (fst (writeParked demo_server demo_readings
     drain_request OpDrain ''arn:aws:eks:x:1:cluster/prod'' ''n1'' None parking_state))))) = RouteScoped"
proof -
  let ?w = "writeParked demo_server demo_readings drain_request OpDrain ''arn:aws:eks:x:1:cluster/prod'' ''n1''
    None parking_state"
  obtain a where a: "st_Approvals parking_state = Some a" by (simp add: parking_state_def)
  then have "resp_Location (fst ?w) \<noteq> None" by (auto simp: writeParked_def split: prod.splits)
  then obtain l where "resp_Location (fst ?w) = Some l" by blast
  then show ?thesis
    using location_leads_to_parked_request [OF a prod.collapse [symmetric, of ?w],
      of "demo_request ''bob'' ''GET'' l"]
    by (auto simp: demo_request_def)
qed

text \<open>A mutation parked for a cluster with id \<open>.\<close> or \<open>..\<close> is answered with a \<open>Location\<close> that the server itself
  redirects elsewhere: the segment is not escaped, and the mux cleans it away.\<close>

theorem dot_cluster_location_is_redirected:
  assumes "st_Approvals st = Some a" and "c \<in> {''.'', ''..''}"
    and "resp_Location (fst (writeParked s ora r op c t n st)) = Some (req_EscapedPath r')"
  shows "mux_route r' = RouteRedirect"
proof -
  have "req_EscapedPath r' = approval_path c (randomApprovalID (ora_random ora))"
    using assms(1,3) by (auto simp: writeParked_def approval_path_def Park_def Let_def)
  from approval_path_route [OF this] assms(2) approval_id_shape show ?thesis by auto
qed

theorem dot_cluster_location_is_redirected_witness:
  "mux_route (demo_request ''bob'' ''GET'' ''/v1/clusters/../approvals/apr-72616e646f6d313262797465'')
     = RouteRedirect"
  by (rule dot_cluster_location_is_redirected [of parking_state _ "''..''" demo_server demo_readings
        drain_request OpDrain "''n1''" None])
    (simp_all add: parking_state_def, code_simp)

text \<open>C2: approving. The approver of a pending, unexpired request of the cluster, other than its requester, makes
  the server execute it once and is answered 200 with the final record, which keeps what was captured and
  names the approver: succeeded with the drain job's id if the backend accepted, failed with the
  message safe for clients if it refused. The record is stored.\<close>

theorem approve_executes_and_records:
  assumes "st_Approvals st = Some a" and "acceptedTokens s \<noteq> []" and "rid \<noteq> []"
    and "approvable ora c rid (identity s r) a p"
  shows "\<exists>q a' st'. handleApprove s c rid ora r st = (writeJSON 200 (BodyApproval q), st')
    \<and> st_Approvals st' = Some a' \<and> map_of (reqs a') rid = Some q
    \<and> same_mutation p q \<and> pr_Approver q = identity s r
    \<and> (case executePending s p (st_World st) of
         (Inr resultID, w) \<Rightarrow> st_World st' = w \<and> pr_Phase q = ApprovalPhaseSucceeded \<and> pr_ResultID q = resultID
       | (Inl e, w) \<Rightarrow> st_World st' = w \<and>
           (publicErrMessage e \<noteq> [] \<longrightarrow>
             pr_Phase q = ApprovalPhaseFailed \<and> pr_Reason q = publicErrMessage e))"
proof -
  define p' where "p' = p\<lparr>pr_Approver := identity s r, pr_Phase := ApprovalPhaseApproved,
    pr_UpdatedAt := UnixMilli (ora_store ora 2)\<rparr>"
  have p: "map_of (reqs a) rid = Some p" "pr_ClusterID p = c" "pr_Requester p \<noteq> identity s r"
    "expireLocked (ora_get ora 0) (ora_get ora 1) p = p" "expireLocked (ora_store ora 0) (ora_store ora 1) p = p"
    "pr_Phase p = ApprovalPhasePending"
    using assms(4) by (auto simp: approvable_def expireLocked_def)
  have "handleApprove s c rid ora r st = finish_approval s rid p' ora r
      (st\<lparr>st_Approvals := Some (a\<lparr>reqs := AList.update rid p' (reqs a)\<rparr>)\<rparr>)"
    using assms(1-3) p
    by (auto simp: handleApprove_def Get_def Approve_def Let_def update_conv' update_update p'_def)
  moreover have "executePending s p' w = executePending s p w" for w
    by (simp add: executePending_def p'_def split: option.splits)
  ultimately show ?thesis
    by (cases "executePending s p (st_World st)"; cases "fst (executePending s p (st_World st))")
      (auto simp: finish_approval_def Let_def Complete_def update_conv' update_update
        same_mutation_def p'_def target_entry_def)
qed

definition approving_state :: "(time \<times> mutation_call list) state" where
  "approving_state = demo_state\<lparr>st_Approvals := Some demo_parked\<rparr>"

theorem approve_executes_and_records_witness:
  "resp_Status (fst (handleApprove demo_server ''c'' ''apr-1'' demo_readings
     (demo_request ''bob'' ''POST'' ''/v1/clusters/c/approvals/apr-1/approve'') approving_state)) = 200"
proof -
  let ?r = "demo_request ''bob'' ''POST'' ''/v1/clusters/c/approvals/apr-1/approve''"
  have "approvable demo_readings ''c'' ''apr-1'' (identity demo_server ?r) demo_parked
      (the (map_of (reqs demo_parked) ''apr-1''))"
    by (simp add: approvable_def demo_parked_value demo_readings_def UnixMilli_def)
      (simp add: identity_def demo_server_def acceptedTokens_def hex_encode_def)
  from approve_executes_and_records [OF _ _ _ this, of approving_state] show ?thesis
    by (auto simp: approving_state_def acceptedTokens_def demo_server_def)
qed

end
