(* ===== verification/Approval_System.thy ===== *)
theory Approval_System
  imports Gateway
begin

text \<open>
  Concurrent requests on one approval store. The store's methods are atomic, but \<open>handleApprove\<close> is not:
  between its \<open>Approve\<close>, the execution of the mutation and its \<open>Complete\<close>, any other request can run. The
  step relation \<open>sys_step\<close> interleaves these pieces and the other store operations freely. The state keeps,
  beside the store, what was parked, what was approved and waits for its execution, what was executed,
  and what was executed and waits for its \<open>Complete\<close>. \<open>handleApprove_runs\<close> shows that the handler is a
  sequence of such steps.

  Generated ids are taken never to repeat (they are 96 random bits).
\<close>

subsection \<open>Operations that leave approved requests alone\<close>

locale non_completing = approval_operation +
  assumes approved_untouched: "store_ok s \<Longrightarrow> step s s' \<Longrightarrow> map_of (reqs s) k = Some r \<Longrightarrow>
    pr_Phase r = ApprovalPhaseApproved \<Longrightarrow> map_of (reqs s') k = Some r"

lemma expire_not_pending: "pr_Phase r \<noteq> ApprovalPhasePending \<Longrightarrow> expireLocked t1 t2 r = r"
  by (simp add: expireLocked_def)

lemma map_of_key: "map_of m k = Some v \<Longrightarrow> k \<in> set (keys m)"
  by (force dest: map_of_SomeD)

lemma map_of_no_key: "k \<notin> set (keys m) \<longleftrightarrow> map_of m k = None"
  by (simp add: map_of_eq_None_iff)

lemma key_map_of: "k \<in> set (keys m) \<Longrightarrow> \<exists>v. map_of m k = Some v"
  by (cases "map_of m k") (simp_all add: map_of_eq_None_iff)

lemma sweep_no_new:
  "map_of (reqs (sweepLocked now clk s)) k = Some r \<Longrightarrow> \<exists>r. map_of (reqs s) k = Some r"
  using keys_sweep [of now clk s] map_of_key [of "reqs (sweepLocked now clk s)" k r]
    map_of_no_key [of k "reqs s"] by blast

lemma sweep_untouched:
  "store_ok s \<Longrightarrow> map_of (reqs s) k = Some r \<Longrightarrow> pr_Phase r = ApprovalPhaseApproved \<Longrightarrow>
     map_of (reqs (sweepLocked now clk s)) k = Some r"
  by (rule sweep_keeps_approved)

interpretation park_nc: non_completing park_step
proof unfold_locales
  fix s s' k r
  assume ok: "store_ok s" and step: "park_step s s'"
    and r: "map_of (reqs s) k = Some r" "pr_Phase r = ApprovalPhaseApproved"
  from step obtain clk newID op c t n who where "newID \<notin> set (keys (reqs s))"
    "s' = snd (Park clk newID op c t n who s)" by (auto simp: park_step_def)
  moreover from this r have "k \<noteq> newID" by (force dest: map_of_SomeD)
  ultimately show "map_of (reqs s') k = Some r"
    using sweep_untouched [OF ok r] by (simp add: Park_other)
qed

interpretation list_nc: non_completing list_step
  by unfold_locales (auto simp: list_step_def List_store sweep_untouched)

interpretation get_nc: non_completing get_step
proof unfold_locales
  fix s s' k r
  assume "get_step s s'" and r: "map_of (reqs s) k = Some r" "pr_Phase r = ApprovalPhaseApproved"
  then obtain clk j where s': "s' = snd (Get clk j s)" by (auto simp: get_step_def)
  show "map_of (reqs s') k = Some r"
    by (cases rule: Get_cases [of s j clk])
      (use r in \<open>auto simp: s' update_conv' expire_not_pending\<close>)
qed

interpretation approve_nc: non_completing approve_step
proof unfold_locales
  fix s s' k r
  assume "approve_step s s'" and r: "map_of (reqs s) k = Some r" "pr_Phase r = ApprovalPhaseApproved"
  then obtain clk j a where s': "s' = snd (Approve clk j a s)" by (auto simp: approve_step_def)
  show "map_of (reqs s') k = Some r"
    by (cases rule: Approve_cases [of s j clk a])
      (use r in \<open>auto simp: s' update_conv' expire_not_pending\<close>)
qed

interpretation reject_nc: non_completing reject_step
proof unfold_locales
  fix s s' k r
  assume "reject_step s s'" and r: "map_of (reqs s) k = Some r" "pr_Phase r = ApprovalPhaseApproved"
  then obtain clk j a where s': "s' = snd (Reject clk j a s)" by (auto simp: reject_step_def)
  show "map_of (reqs s') k = Some r"
    by (cases rule: Reject_cases [of s j clk a])
      (use r in \<open>auto simp: s' update_conv' expire_not_pending\<close>)
qed

text \<open>Such an operation that, unlike \<open>Park\<close>, brings no new request into the store.\<close>

locale existing_only = non_completing +
  assumes no_new: "store_ok s \<Longrightarrow> step s s' \<Longrightarrow> map_of (reqs s') k \<noteq> None \<Longrightarrow> map_of (reqs s) k \<noteq> None"

interpretation list_ex: existing_only list_step
proof unfold_locales
  fix s s' k
  assume "store_ok s" "list_step s s'" "map_of (reqs s') k \<noteq> None"
  then show "map_of (reqs s) k \<noteq> None"
    by (auto simp: list_step_def List_store dest: sweep_no_new)
qed

interpretation get_ex: existing_only get_step
proof unfold_locales
  fix s s' k
  assume "get_step s s'" and new: "map_of (reqs s') k \<noteq> None"
  then obtain clk j where s': "s' = snd (Get clk j s)" by (auto simp: get_step_def)
  show "map_of (reqs s) k \<noteq> None"
    by (cases rule: Get_cases [of s j clk])
      (use new in \<open>auto simp: s' update_conv' split: if_splits\<close>)
qed

interpretation approve_ex: existing_only approve_step
proof unfold_locales
  fix s s' k
  assume "approve_step s s'" and new: "map_of (reqs s') k \<noteq> None"
  then obtain clk j a where s': "s' = snd (Approve clk j a s)" by (auto simp: approve_step_def)
  show "map_of (reqs s) k \<noteq> None"
    by (cases rule: Approve_cases [of s j clk a])
      (use new in \<open>auto simp: s' update_conv' split: if_splits\<close>)
qed

interpretation reject_ex: existing_only reject_step
proof unfold_locales
  fix s s' k
  assume "reject_step s s'" and new: "map_of (reqs s') k \<noteq> None"
  then obtain clk j a where s': "s' = snd (Reject clk j a s)" by (auto simp: reject_step_def)
  show "map_of (reqs s) k \<noteq> None"
    by (cases rule: Reject_cases [of s j clk a])
      (use new in \<open>auto simp: s' update_conv' split: if_splits\<close>)
qed

subsection \<open>The system\<close>

type_synonym tickets = "(string \<times> pending_request) list"

record system =
  sys_store :: approval_store
  sys_parked :: tickets
  sys_approved :: tickets
  sys_executed :: tickets
  sys_open :: tickets

definition initial_system :: "duration \<Rightarrow> string list \<Rightarrow> system" where
  "initial_system d required = \<lparr>sys_store = NewApprovalStore d required, sys_parked = [],
     sys_approved = [], sys_executed = [], sys_open = []\<rparr>"

inductive sys_step :: "system \<Rightarrow> system \<Rightarrow> bool" where
  park: "newID \<notin> set (keys (sys_parked y)) \<Longrightarrow>
    Park clk newID op c t n who (sys_store y) = (p, s') \<Longrightarrow>
    sys_step y (y\<lparr>sys_store := s', sys_parked := (newID, p) # sys_parked y\<rparr>)"
| list: "List_for clk c (sys_store y) = (out, s') \<Longrightarrow> sys_step y (y\<lparr>sys_store := s'\<rparr>)"
| get: "Get clk k (sys_store y) = (found, s') \<Longrightarrow> sys_step y (y\<lparr>sys_store := s'\<rparr>)"
| reject: "Reject clk k reason (sys_store y) = (res, s') \<Longrightarrow> sys_step y (y\<lparr>sys_store := s'\<rparr>)"
| refused: "Approve clk k who (sys_store y) = (Inl e, s') \<Longrightarrow> sys_step y (y\<lparr>sys_store := s'\<rparr>)"
| approve: "Approve clk k who (sys_store y) = (Inr p, s') \<Longrightarrow>
    sys_step y (y\<lparr>sys_store := s', sys_approved := (k, p) # sys_approved y\<rparr>)"
| execute: "sys_approved y = before @ (k, p) # after \<Longrightarrow>
    sys_step y (y\<lparr>sys_approved := before @ after, sys_executed := (k, p) # sys_executed y,
                  sys_open := (k, p) # sys_open y\<rparr>)"
| complete: "sys_open y = before @ (k, p) # after \<Longrightarrow>
    Complete clk k resultID errMsg (sys_store y) = (res, s') \<Longrightarrow>
    sys_step y (y\<lparr>sys_store := s', sys_open := before @ after\<rparr>)"

inductive_cases sys_stepE: "sys_step y y'"

text \<open>An approval that another identity gave to what was parked under the id.\<close>

definition genuine :: "tickets \<Rightarrow> string \<Rightarrow> pending_request \<Rightarrow> bool" where
  "genuine parked k p \<longleftrightarrow> (\<exists>p0. map_of parked k = Some p0 \<and> same_mutation p0 p)
     \<and> pr_Approver p \<noteq> pr_Requester p"

definition recorded_in :: "tickets \<Rightarrow> approval_store \<Rightarrow> bool" where
  "recorded_in parked s \<longleftrightarrow> (\<forall>k r. map_of (reqs s) k = Some r \<longrightarrow>
     (\<exists>p0. map_of parked k = Some p0 \<and> same_mutation p0 r))"

definition still_approved :: "approval_store \<Rightarrow> string \<Rightarrow> bool" where
  "still_approved s k \<longleftrightarrow> (\<exists>r. map_of (reqs s) k = Some r \<and> pr_Phase r = ApprovalPhaseApproved)"

definition never_pending :: "approval_store \<Rightarrow> string \<Rightarrow> bool" where
  "never_pending s k \<longleftrightarrow> (\<forall>r. map_of (reqs s) k = Some r \<longrightarrow> pr_Phase r \<noteq> ApprovalPhasePending)"

definition sys_ok :: "system \<Rightarrow> bool" where
  "sys_ok y \<longleftrightarrow> store_ok (sys_store y) \<and> recorded_in (sys_parked y) (sys_store y)
     \<and> (\<forall>(k, p) \<in> set (sys_approved y @ sys_executed y). genuine (sys_parked y) k p)
     \<and> (\<forall>k \<in> set (keys (sys_approved y @ sys_open y)). still_approved (sys_store y) k)
     \<and> (\<forall>k \<in> set (keys (sys_executed y)). never_pending (sys_store y) k)
     \<and> distinct_keys (sys_approved y @ sys_executed y)
     \<and> distinct_keys (sys_open y) \<and> set (sys_open y) \<subseteq> set (sys_executed y)"

subsection \<open>The invariant\<close>

lemma sys_okD:
  assumes "sys_ok y"
  shows "store_ok (sys_store y)" "recorded_in (sys_parked y) (sys_store y)"
    "(k, p) \<in> set (sys_approved y) \<union> set (sys_executed y) \<Longrightarrow> genuine (sys_parked y) k p"
    "k \<in> set (keys (sys_approved y)) \<union> set (keys (sys_open y)) \<Longrightarrow> still_approved (sys_store y) k"
    "k \<in> set (keys (sys_executed y)) \<Longrightarrow> never_pending (sys_store y) k"
    "distinct_keys (sys_approved y @ sys_executed y)"
    "distinct_keys (sys_open y)" "set (sys_open y) \<subseteq> set (sys_executed y)"
  using assms by (auto simp: sys_ok_def)

lemma sys_okI:
  assumes "store_ok (sys_store y)" and "recorded_in (sys_parked y) (sys_store y)"
    and "\<And>k p. (k, p) \<in> set (sys_approved y) \<union> set (sys_executed y) \<Longrightarrow> genuine (sys_parked y) k p"
    and "\<And>k. k \<in> set (keys (sys_approved y)) \<union> set (keys (sys_open y)) \<Longrightarrow> still_approved (sys_store y) k"
    and "\<And>k. k \<in> set (keys (sys_executed y)) \<Longrightarrow> never_pending (sys_store y) k"
    and "distinct_keys (sys_approved y @ sys_executed y)"
    and "distinct_keys (sys_open y)" and "set (sys_open y) \<subseteq> set (sys_executed y)"
  shows "sys_ok y"
  unfolding sys_ok_def using assms by (simp add: ball_Un split_beta)

lemma same_mutation_trans: "same_mutation r s \<Longrightarrow> same_mutation s t \<Longrightarrow> same_mutation r t"
  by (simp add: same_mutation_def)

context non_completing
begin

lemma keeps_still_approved:
  "store_ok s \<Longrightarrow> step s s' \<Longrightarrow> still_approved s k \<Longrightarrow> still_approved s' k"
  using approved_untouched by (auto simp: still_approved_def)

lemma keeps_same_mutation:
  "store_ok s \<Longrightarrow> step s s' \<Longrightarrow> map_of (reqs s) k = Some r \<Longrightarrow> map_of (reqs s') k = Some r' \<Longrightarrow>
     same_mutation r r'"
  using evolution by (auto simp: evolves_def)

lemma keeps_not_pending:
  "store_ok s \<Longrightarrow> step s s' \<Longrightarrow> map_of (reqs s) k = Some r \<Longrightarrow> map_of (reqs s') k = Some r' \<Longrightarrow>
     pr_Phase r \<noteq> ApprovalPhasePending \<Longrightarrow> pr_Phase r' \<noteq> ApprovalPhasePending"
  using evolution never_pending_again by (fastforce simp: evolves_def)

end

context existing_only
begin

lemma keeps_recorded:
  assumes "store_ok s" and "step s s'" and "recorded_in parked s"
  shows "recorded_in parked s'"
  unfolding recorded_in_def
proof (intro allI impI)
  fix k r'
  assume r': "map_of (reqs s') k = Some r'"
  then obtain r where r: "map_of (reqs s) k = Some r" using no_new [OF assms(1,2), of k] by auto
  then obtain p0 where "map_of parked k = Some p0" "same_mutation p0 r"
    using assms(3) by (auto simp: recorded_in_def)
  then show "\<exists>p0. map_of parked k = Some p0 \<and> same_mutation p0 r'"
    using keeps_same_mutation [OF assms(1,2) r r'] same_mutation_trans by blast
qed

lemma keeps_never_pending:
  assumes "store_ok s" and "step s s'" and "never_pending s k"
  shows "never_pending s' k"
  unfolding never_pending_def
proof (intro allI impI)
  fix r'
  assume r': "map_of (reqs s') k = Some r'"
  then obtain r where r: "map_of (reqs s) k = Some r" using no_new [OF assms(1,2), of k] by auto
  with assms(3) show "pr_Phase r' \<noteq> ApprovalPhasePending"
    using keeps_not_pending [OF assms(1,2) r r'] by (auto simp: never_pending_def)
qed

lemma keeps_sys_ok:
  assumes "sys_ok y" and "step (sys_store y) s'"
  shows "sys_ok (y\<lparr>sys_store := s'\<rparr>)"
proof -
  note ok = sys_okD [OF assms(1)]
  show ?thesis
    using assms(1) keeps_ok [OF ok(1) assms(2)] keeps_recorded [OF ok(1) assms(2)]
      keeps_still_approved [OF ok(1) assms(2)] keeps_never_pending [OF ok(1) assms(2)]
    by (auto simp: sys_ok_def)
qed

end

lemma approved_ticket:
  assumes "store_ok s" and "Approve clk k who s = (Inr p, s')"
  shows "\<exists>r. map_of (reqs s) k = Some r \<and> pr_Phase r = ApprovalPhasePending \<and> same_mutation r p
    \<and> pr_Approver p \<noteq> pr_Requester p \<and> map_of (reqs s') k = Some p \<and> pr_Phase p = ApprovalPhaseApproved"
  by (cases rule: Approve_cases [of s k clk who])
    (use assms(2) in \<open>auto simp: same_mutation_def update_conv'\<close>)

lemma sys_ok_approve:
  assumes "sys_ok y" and "Approve clk k who (sys_store y) = (Inr p, s')"
  shows "sys_ok (y\<lparr>sys_store := s', sys_approved := (k, p) # sys_approved y\<rparr>)"
proof -
  note ok = sys_okD [OF assms(1)]
  have "approve_step (sys_store y) s'"
    using one_step_intros(4) [of "sys_store y" clk k who] assms(2) by simp
  then have y': "sys_ok (y\<lparr>sys_store := s'\<rparr>)" by (rule approve_ex.keeps_sys_ok [OF assms(1)])
  obtain r where r: "map_of (reqs (sys_store y)) k = Some r" "pr_Phase r = ApprovalPhasePending"
    "same_mutation r p" "pr_Approver p \<noteq> pr_Requester p" "map_of (reqs s') k = Some p"
    "pr_Phase p = ApprovalPhaseApproved"
    using approved_ticket [OF ok(1) assms(2)] by blast
  have "genuine (sys_parked y) k p"
    using r(1,3,4) ok(2) same_mutation_trans by (auto simp: genuine_def recorded_in_def) blast
  moreover have "still_approved s' k" using r by (simp add: still_approved_def)
  moreover have "k \<notin> set (keys (sys_approved y))"
    using ok(4) [of k] r by (auto simp: still_approved_def)
  moreover have "k \<notin> set (keys (sys_executed y))"
    using ok(5) [of k] r by (auto simp: never_pending_def)
  ultimately show ?thesis using y' by (auto simp: sys_ok_def)
qed

lemma sys_ok_execute:
  assumes "sys_ok y" and "sys_approved y = before @ (k, p) # after"
  shows "sys_ok (y\<lparr>sys_approved := before @ after, sys_executed := (k, p) # sys_executed y,
                   sys_open := (k, p) # sys_open y\<rparr>)"
proof -
  note ok = sys_okD [OF assms(1)]
  have "k \<notin> set (keys (sys_executed y))" using ok(6) assms(2) by auto
  then have "k \<notin> set (keys (sys_open y))" using ok(8) by auto
  moreover have "never_pending (sys_store y) k"
    using ok(4) [of k] assms(2) by (auto simp: never_pending_def still_approved_def)
  ultimately show ?thesis using assms by (auto simp: sys_ok_def)
qed

lemma sys_ok_complete:
  assumes "sys_ok y" and "sys_open y = before @ (k, p) # after"
    and "Complete clk k resultID errMsg (sys_store y) = (res, s')"
  shows "sys_ok (y\<lparr>sys_store := s', sys_open := before @ after\<rparr>)" and "\<exists>q. res = Inr q"
proof -
  note ok = sys_okD [OF assms(1)]
  obtain r where r: "map_of (reqs (sys_store y)) k = Some r" "pr_Phase r = ApprovalPhaseApproved"
    using ok(4) [of k] assms(2) by (auto simp: still_approved_def)
  show "\<exists>q. res = Inr q"
    by (cases rule: Complete_cases [of "sys_store y" k clk resultID errMsg]) (use r assms(3) in auto)
  have step: "complete_step (sys_store y) s'"
    using one_step_intros(6) [OF r, of clk resultID errMsg] assms(3) by simp
  obtain q where q: "s' = (sys_store y)\<lparr>reqs := AList.update k q (reqs (sys_store y))\<rparr>"
    by (cases rule: Complete_cases [of "sys_store y" k clk resultID errMsg]) (use r assms(3) in auto)
  have look: "map_of (reqs s') j = (if j = k then Some q else map_of (reqs (sys_store y)) j)" for j
    by (simp add: q update_conv')
  have qr: "evolves r q"
    using complete.evolution [OF ok(1) step r(1)] by (simp add: look)
  then have "same_mutation r q" "pr_Phase q \<noteq> ApprovalPhasePending"
    using r(2) never_pending_again by (auto simp: evolves_def)
  then have rec: "recorded_in (sys_parked y) s'"
    using ok(2) r(1) same_mutation_trans by (auto simp: recorded_in_def look) blast
  have pend: "never_pending s' j" if "never_pending (sys_store y) j" for j
    using that \<open>pr_Phase q \<noteq> ApprovalPhasePending\<close> by (auto simp: never_pending_def look)
  have appr: "still_approved s' j" if "still_approved (sys_store y) j" "j \<noteq> k" for j
    using that by (simp add: still_approved_def look)
  have "(k, p) \<in> set (sys_executed y)" using ok(8) assms(2) by auto
  then have "k \<in> set (keys (sys_executed y))" by force
  then have gone: "k \<notin> set (keys (sys_approved y)) \<union> set (keys (before @ after))"
    using ok(6,7) assms(2) by auto
  let ?y = "y\<lparr>sys_store := s', sys_open := before @ after\<rparr>"
  have y: "sys_store ?y = s'" "sys_open ?y = before @ after" "sys_parked ?y = sys_parked y"
    "sys_approved ?y = sys_approved y" "sys_executed ?y = sys_executed y" by simp_all
  show "sys_ok ?y"
  proof (rule sys_okI, unfold y)
    show "store_ok s'" by (rule complete.keeps_ok [OF ok(1) step])
    show "recorded_in (sys_parked y) s'" by (rule rec)
    show "genuine (sys_parked y) j q" if "(j, q) \<in> set (sys_approved y) \<union> set (sys_executed y)" for j q
      using that by (rule ok(3))
    show "still_approved s' j" if "j \<in> set (keys (sys_approved y)) \<union> set (keys (before @ after))" for j
      using that ok(4) [of j] gone assms(2) by (intro appr) auto
    show "never_pending s' j" if "j \<in> set (keys (sys_executed y))" for j
      using that by (intro pend ok(5))
    show "distinct_keys (sys_approved y @ sys_executed y)" by (rule ok(6))
    show "distinct_keys (before @ after)" using ok(7) assms(2) by simp
    show "set (before @ after) \<subseteq> set (sys_executed y)" using ok(8) assms(2) by simp
  qed
qed

lemma sys_ok_park:
  assumes "sys_ok y" and "newID \<notin> set (keys (sys_parked y))"
    and "Park clk newID op c t n who (sys_store y) = (p, s')"
  shows "sys_ok (y\<lparr>sys_store := s', sys_parked := (newID, p) # sys_parked y\<rparr>)"
proof -
  note ok = sys_okD [OF assms(1)]
  have fresh: "newID \<notin> set (keys (reqs (sys_store y)))"
  proof
    assume old: "newID \<in> set (keys (reqs (sys_store y)))"
    obtain r where "map_of (reqs (sys_store y)) newID = Some r"
      using key_map_of [OF old] by auto
    with ok(2) obtain p0 where "map_of (sys_parked y) newID = Some p0" by (auto simp: recorded_in_def)
    with assms(2) show False using map_of_key by metis
  qed
  have step: "park_step (sys_store y) s'"
    using one_step_intros(1) [OF fresh, of clk op c t n who] assms(3) by simp
  have s': "s' = snd (Park clk newID op c t n who (sys_store y))" using assms(3) by simp
  have new: "map_of (reqs s') newID = Some p"
    using assms(3) by (auto simp: Park_def Let_def update_conv')
  have old: "map_of (reqs (sys_store y)) k \<noteq> None" if "map_of (reqs s') k \<noteq> None" "k \<noteq> newID" for k
    using that by (auto simp: s' Park_other dest: sweep_no_new)
  have keep: "same_mutation r r' \<and> (pr_Phase r \<noteq> ApprovalPhasePending \<longrightarrow> pr_Phase r' \<noteq> ApprovalPhasePending)"
    if "map_of (reqs (sys_store y)) k = Some r" "map_of (reqs s') k = Some r'" for k r r'
    using that park_nc.keeps_same_mutation [OF ok(1) step] park_nc.keeps_not_pending [OF ok(1) step] by blast
  have rec: "recorded_in ((newID, p) # sys_parked y) s'"
    unfolding recorded_in_def
  proof (intro allI impI)
    fix k r'
    assume r': "map_of (reqs s') k = Some r'"
    show "\<exists>p0. map_of ((newID, p) # sys_parked y) k = Some p0 \<and> same_mutation p0 r'"
    proof (cases "k = newID")
      case True
      with new r' show ?thesis by (simp add: same_mutation_def)
    next
      case False
      then obtain r where r: "map_of (reqs (sys_store y)) k = Some r" using old [of k] r' by auto
      with ok(2) obtain p0 where "map_of (sys_parked y) k = Some p0" "same_mutation p0 r"
        by (auto simp: recorded_in_def)
      with keep [OF r r'] False show ?thesis using same_mutation_trans by auto
    qed
  qed
  have gen: "genuine ((newID, p) # sys_parked y) k q" and ne: "k \<noteq> newID"
    if "genuine (sys_parked y) k q" for k q
  proof -
    from that obtain p0 where p0: "map_of (sys_parked y) k = Some p0" by (auto simp: genuine_def)
    with assms(2) show "k \<noteq> newID" using map_of_key by metis
    with that show "genuine ((newID, p) # sys_parked y) k q" by (simp add: genuine_def)
  qed
  have pend: "never_pending s' k" if k: "k \<in> set (keys (sys_executed y))" for k
  proof -
    obtain q where "map_of (sys_executed y) k = Some q"
      using key_map_of [OF k] by auto
    then have "(k, q) \<in> set (sys_executed y)" by (rule map_of_SomeD)
    then have "k \<noteq> newID" using ne ok(3) by blast
    then show ?thesis
      unfolding never_pending_def using ok(5) [OF k] old [of k] keep [of k]
      by (metis never_pending_def not_None_eq)
  qed
  let ?y = "y\<lparr>sys_store := s', sys_parked := (newID, p) # sys_parked y\<rparr>"
  have y: "sys_store ?y = s'" "sys_parked ?y = (newID, p) # sys_parked y" "sys_open ?y = sys_open y"
    "sys_approved ?y = sys_approved y" "sys_executed ?y = sys_executed y" by simp_all
  show "sys_ok ?y"
  proof (rule sys_okI, unfold y)
    show "store_ok s'" by (rule park.keeps_ok [OF ok(1) step])
    show "recorded_in ((newID, p) # sys_parked y) s'" by (rule rec)
    show "genuine ((newID, p) # sys_parked y) k q"
      if "(k, q) \<in> set (sys_approved y) \<union> set (sys_executed y)" for k q
      using that by (intro gen ok(3))
    show "still_approved s' k" if "k \<in> set (keys (sys_approved y)) \<union> set (keys (sys_open y))" for k
      using park_nc.keeps_still_approved [OF ok(1) step ok(4) [OF that]] .
    show "never_pending s' k" if "k \<in> set (keys (sys_executed y))" for k
      using that by (rule pend)
    show "distinct_keys (sys_approved y @ sys_executed y)" by (rule ok(6))
    show "distinct_keys (sys_open y)" by (rule ok(7))
    show "set (sys_open y) \<subseteq> set (sys_executed y)" by (rule ok(8))
  qed
qed

lemma sys_step_ok: "sys_step y y' \<Longrightarrow> sys_ok y \<Longrightarrow> sys_ok y'"
proof (induction rule: sys_step.induct)
  case (list clk c y out s')
  then have "list_step (sys_store y) s'" using one_step_intros(2) [of "sys_store y" clk c] by simp
  with list show ?case by (intro list_ex.keeps_sys_ok)
next
  case (get clk k y found s')
  then have "get_step (sys_store y) s'" using one_step_intros(3) [of "sys_store y" clk k] by simp
  with get show ?case by (intro get_ex.keeps_sys_ok)
next
  case (reject clk k reason y res s')
  then have "reject_step (sys_store y) s'" using one_step_intros(5) [of "sys_store y" clk k reason] by simp
  with reject show ?case by (intro reject_ex.keeps_sys_ok)
next
  case (refused clk k who y e s')
  then have "approve_step (sys_store y) s'" using one_step_intros(4) [of "sys_store y" clk k who] by simp
  with refused show ?case by (intro approve_ex.keeps_sys_ok)
qed (auto intro: sys_ok_park sys_ok_approve sys_ok_execute sys_ok_complete)

lemma reachable_ok: "sys_step\<^sup>*\<^sup>* (initial_system d required) y \<Longrightarrow> sys_ok y"
proof (induction rule: rtranclp_induct)
  case base
  show ?case
    by (simp add: sys_ok_def initial_system_def recorded_in_def NewApprovalStore_def [of d required])
      (simp add: store_ok_def)
qed (rule sys_step_ok)

subsection \<open>The handler in the system\<close>

text \<open>
  A run of \<open>handleApprove\<close> is such steps: its \<open>Get\<close>, its \<open>Approve\<close> and, when that succeeds, the execution of
  the approved request on the backend and its \<open>Complete\<close>; the backend is left alone otherwise. Where no other
  request comes in between, the handler leaves nothing approved or open behind.
\<close>

lemma finish_approval_runs:
  assumes "st_Approvals st = Some (sys_store y)" and "sys_approved y = (rid, p) # A"
  shows "\<exists>y'. sys_step\<^sup>*\<^sup>* y y' \<and> st_Approvals (snd (finish_approval s rid p ora r st)) = Some (sys_store y')
    \<and> sys_executed y' = (rid, p) # sys_executed y \<and> sys_approved y' = A \<and> sys_open y' = sys_open y
    \<and> st_World (snd (finish_approval s rid p ora r st)) = snd (executePending s p (st_World st))"
proof -
  obtain res w where exec: "executePending s p (st_World st) = (res, w)" by fastforce
  define resultID reason where "resultID = (case res of Inr i \<Rightarrow> i | Inl e \<Rightarrow> '''')"
    and "reason = (case res of Inr i \<Rightarrow> '''' | Inl e \<Rightarrow> publicErrMessage e)"
  obtain done' a where complete: "Complete (ora_complete ora) rid resultID reason (sys_store y) = (done', a)" by fastforce
  let ?y1 = "y\<lparr>sys_approved := A, sys_executed := (rid, p) # sys_executed y, sys_open := (rid, p) # sys_open y\<rparr>"
  have "sys_step y ?y1"
    using sys_step.execute [of y "[]" rid p A] assms(2) by simp
  moreover have "sys_step ?y1 (?y1\<lparr>sys_store := a, sys_open := sys_open y\<rparr>)"
    using sys_step.complete [of ?y1 "[]" rid p "sys_open y" "ora_complete ora" resultID reason done' a] complete by simp
  moreover have "st_Approvals (snd (finish_approval s rid p ora r st)) = Some a \<and> st_World (snd (finish_approval s rid p ora r st)) = w"
    using assms(1) exec complete
    by (auto simp: finish_approval_def resultID_def reason_def audit_def Let_def split: sum.splits)
  ultimately show ?thesis
    using exec by (intro exI [of _ "?y1\<lparr>sys_store := a, sys_open := sys_open y\<rparr>"]) auto
qed

lemma handleApprove_runs:
  assumes "st_Approvals st = Some (sys_store y)"
  shows "\<exists>y'. sys_step\<^sup>*\<^sup>* y y' \<and> st_Approvals (snd (handleApprove s c rid ora r st)) = Some (sys_store y')
    \<and> sys_approved y' = sys_approved y \<and> sys_open y' = sys_open y
    \<and> (sys_executed y' = sys_executed y \<and> st_World (snd (handleApprove s c rid ora r st)) = st_World st
       \<or> (\<exists>p. sys_executed y' = (rid, p) # sys_executed y
          \<and> st_World (snd (handleApprove s c rid ora r st)) = snd (executePending s p (st_World st))))"
proof (cases "rid = '''' \<or> acceptedTokens s = []")
  case True
  with assms show ?thesis
    by (intro exI [of _ y]) (auto simp: handleApprove_def audit_def Let_def)
next
  case False
  obtain found a where get: "Get (ora_get ora) rid (sys_store y) = (found, a)" by fastforce
  let ?y1 = "y\<lparr>sys_store := a\<rparr>"
  have one: "sys_step y ?y1" by (rule sys_step.get [OF get])
  show ?thesis
  proof (cases "\<exists>pr. found = Some pr \<and> pr_ClusterID pr = c")
    case False
    with get assms \<open>\<not> (rid = '''' \<or> acceptedTokens s = [])\<close> one show ?thesis
      by (intro exI [of _ ?y1]) (auto simp: handleApprove_def Let_def split: option.splits)
  next
    case True
    then obtain pr where pr: "found = Some pr" "pr_ClusterID pr = c" by blast
    obtain res a' where app: "Approve (ora_store ora) rid (identity s r) a = (res, a')" by fastforce
    show ?thesis
    proof (cases res)
      case (Inl e)
      have "sys_step ?y1 (?y1\<lparr>sys_store := a'\<rparr>)"
        using app Inl by (intro sys_step.refused [of _ _ _ _ e]) simp
      with one get app assms Inl pr \<open>\<not> (rid = '''' \<or> acceptedTokens s = [])\<close> show ?thesis
        by (intro exI [of _ "?y1\<lparr>sys_store := a'\<rparr>"]) (auto simp: handleApprove_def audit_def Let_def)
    next
      case (Inr p)
      let ?y2 = "?y1\<lparr>sys_store := a', sys_approved := (rid, p) # sys_approved ?y1\<rparr>"
      have two: "sys_step ?y1 ?y2" using app Inr by (intro sys_step.approve [of _ _ "identity s r"]) simp
      have run: "handleApprove s c rid ora r st = finish_approval s rid p ora r (st\<lparr>st_Approvals := Some a'\<rparr>)"
        using get app assms Inr pr False by (simp add: handleApprove_def Let_def)
      obtain y' where "sys_step\<^sup>*\<^sup>* ?y2 y'"
        "st_Approvals (snd (handleApprove s c rid ora r st)) = Some (sys_store y')"
        "sys_executed y' = (rid, p) # sys_executed y" "sys_approved y' = sys_approved y" "sys_open y' = sys_open y"
        "st_World (snd (handleApprove s c rid ora r st)) = snd (executePending s p (st_World st))"
        using finish_approval_runs [of "st\<lparr>st_Approvals := Some a'\<rparr>" ?y2 rid p "sys_approved y" s ora r]
        unfolding run by auto
      moreover from this(1) one two have "sys_step\<^sup>*\<^sup>* y y'" by (meson converse_rtranclp_into_rtranclp)
      ultimately show ?thesis by blast
    qed
  qed
qed

subsection \<open>What concurrent approvals guarantee\<close>

abbreviation runs :: "duration \<Rightarrow> string list \<Rightarrow> system \<Rightarrow> bool" where
  "runs d required y \<equiv> sys_step\<^sup>*\<^sup>* (initial_system d required) y"

text \<open>C8: at-most-once execution. However the pieces of concurrent requests are interleaved, every parked
  mutation is executed at most once; what is executed is exactly what was parked under that id; and it was
  approved by an identity other than the one that parked it.\<close>

theorem executed_at_most_once:
  assumes "runs d required y"
  shows "distinct_keys (sys_executed y)
    \<and> (\<forall>k p. (k, p) \<in> set (sys_executed y) \<longrightarrow>
         (\<exists>p0. map_of (sys_parked y) k = Some p0 \<and> same_mutation p0 p
            \<and> captured_call p = captured_call p0 \<and> pr_Approver p \<noteq> pr_Requester p0))"
proof -
  note ok = sys_okD [OF reachable_ok [OF assms]]
  have "\<exists>p0. map_of (sys_parked y) k = Some p0 \<and> same_mutation p0 p
      \<and> captured_call p = captured_call p0 \<and> pr_Approver p \<noteq> pr_Requester p0"
    if kp: "(k, p) \<in> set (sys_executed y)" for k p
  proof -
    obtain p0 where p0: "map_of (sys_parked y) k = Some p0" "same_mutation p0 p"
      and "pr_Approver p \<noteq> pr_Requester p"
      using ok(3) [OF UnI2 [OF kp]] by (auto simp: genuine_def)
    moreover from p0(2) have "pr_Requester p = pr_Requester p0" by (simp add: same_mutation_def)
    ultimately show ?thesis using captured_call_same [OF p0(2)] by simp
  qed
  then show ?thesis using ok(6) by simp
qed

text \<open>C9: the final bookkeeping cannot fail. While an approved mutation runs, its request stays in the store as
  approved, whatever other requests do meanwhile (the sweep included); so the \<open>Complete\<close> after the execution
  finds it, and the handler's 500 answer for a vanished request is unreachable.\<close>

theorem complete_finds_its_request:
  assumes "runs d required y" and "k \<in> set (keys (sys_approved y)) \<union> set (keys (sys_open y))"
  shows "\<exists>r q. map_of (reqs (sys_store y)) k = Some r \<and> pr_Phase r = ApprovalPhaseApproved
    \<and> fst (Complete clk k resultID errMsg (sys_store y)) = Inr q"
proof -
  obtain r where r: "map_of (reqs (sys_store y)) k = Some r" "pr_Phase r = ApprovalPhaseApproved"
    using sys_okD(4) [OF reachable_ok [OF assms(1)] assms(2)] by (auto simp: still_approved_def)
  moreover have "\<exists>q. fst (Complete clk k resultID errMsg (sys_store y)) = Inr q"
    by (cases rule: Complete_cases [of "sys_store y" k clk resultID errMsg]) (use r in auto)
  ultimately show ?thesis by blast
qed

text \<open>A history: a drain is parked, approved by another identity, and executed.\<close>

definition demo_ticket :: pending_request where
  "demo_ticket = the (map_of (reqs demo_approved) ''apr-1'')"

definition demo_system :: system where
  "demo_system = \<lparr>sys_store = demo_approved,
     sys_parked = [(''apr-1'', the (map_of (reqs demo_parked) ''apr-1''))], sys_approved = [],
     sys_executed = [(''apr-1'', demo_ticket)], sys_open = [(''apr-1'', demo_ticket)]\<rparr>"

lemma demo_system_runs: "runs (5 * Minute) [OpDrain] demo_system"
proof -
  let ?p = "the (map_of (reqs demo_parked) ''apr-1'')"
  let ?y1 = "(initial_system (5 * Minute) [OpDrain])\<lparr>sys_store := demo_parked, sys_parked := [(''apr-1'', ?p)]\<rparr>"
  let ?y2 = "?y1\<lparr>sys_store := demo_approved, sys_approved := [(''apr-1'', demo_ticket)]\<rparr>"
  have p: "Park (\<lambda>i. 0) ''apr-1'' OpDrain ''c'' ''n1'' None ''token:a'' demo_store = (?p, demo_parked)"
    by (rule prod_eqI) (simp_all add: demo_parked_def Park_def Let_def update_conv')
  have a: "Approve (\<lambda>i. 2 * Second) ''apr-1'' ''token:b'' demo_parked = (Inr demo_ticket, demo_approved)"
    by (rule prod_eqI)
      (simp_all add: demo_ticket_def demo_approved_def demo_parked_value Approve_def expireLocked_def
        UnixMilli_def Let_def)
  have "sys_step (initial_system (5 * Minute) [OpDrain]) ?y1"
    using sys_step.park [of "''apr-1''" "initial_system (5 * Minute) [OpDrain]" "\<lambda>i. 0" OpDrain "''c''"
        "''n1''" None "''token:a''" ?p demo_parked] p
    by (simp add: initial_system_def demo_store_def)
  moreover have "sys_step ?y1 ?y2"
    using sys_step.approve [of "\<lambda>i. 2 * Second" "''apr-1''" "''token:b''" ?y1 demo_ticket demo_approved] a
    by (simp add: initial_system_def)
  moreover have "sys_step ?y2 demo_system"
    using sys_step.execute [of ?y2 "[]" "''apr-1''" demo_ticket "[]"]
    by (simp add: initial_system_def demo_system_def)
  ultimately show ?thesis by (meson rtranclp.rtrancl_into_rtrancl rtranclp.rtrancl_refl)
qed

theorem executed_at_most_once_witness:
  "keys (sys_executed demo_system) = [''apr-1''] \<and> distinct_keys (sys_executed demo_system)"
  using executed_at_most_once [OF demo_system_runs] by (simp add: demo_system_def)

theorem complete_finds_its_request_witness:
  "\<exists>q. fst (Complete (\<lambda>i. 0) ''apr-1'' ''drain-1'' [] (sys_store demo_system)) = Inr q"
  using complete_finds_its_request [OF demo_system_runs, of "''apr-1''" "\<lambda>i. 0" "''drain-1''" "[]"]
  by (auto simp: demo_system_def)

end
