(* ===== verification/Go_Net.thy ===== *)
theory Go_Net
  imports Go_Url Go_Errors
begin

text \<open>
  The values of Go's \<open>net/url\<close> and \<open>net/http\<close> packages that the Kubernetes client builds: a parsed URL and
  how it prints, query parameters, a request, and the texts of HTTP status codes.
\<close>

subsection \<open>URLs\<close>

text \<open>
  \<open>url.URL\<close>. \<open>User\<close> is a name and a password that may be absent; \<open>Fragment\<close> is the fragment as it prints.
\<close>

record url =
  url_Scheme :: string
  url_User :: "(string \<times> string option) option"
  url_Host :: string
  url_Path :: string
  url_RawPath :: string
  url_ForceQuery :: bool
  url_RawQuery :: string
  url_Fragment :: string

definition percent :: "char \<Rightarrow> string" where
  "percent c = [CHR ''%'', upper_hex (of_char c div 16), upper_hex (of_char c mod 16)]"

definition unreserved :: "char \<Rightarrow> bool" where
  "unreserved c \<longleftrightarrow> is_alnum c \<or> c \<in> set ''-_.~''"

text \<open>\<open>!shouldEscape(c, encodePath)\<close>, \<open>!shouldEscape(c, encodeHost)\<close>\<close>

definition path_safe :: "char \<Rightarrow> bool" where
  "path_safe c \<longleftrightarrow> unreserved c \<or> c \<in> set ''$&+,/:;=@''"

definition host_safe :: "char \<Rightarrow> bool" where
  "host_safe c \<longleftrightarrow> unreserved c \<or> c \<in> set ''!$&()*+,;=:[]<>'' \<or> c = CHR 0x27 \<or> c = CHR 0x22"

text \<open>\<open>!shouldEscape(c, encodeUserPassword)\<close>, \<open>!shouldEscape(c, encodeFragment)\<close>\<close>

definition user_safe :: "char \<Rightarrow> bool" where
  "user_safe c \<longleftrightarrow> unreserved c \<or> c \<in> set ''$&+,;=''"

definition fragment_safe :: "char \<Rightarrow> bool" where
  "fragment_safe c \<longleftrightarrow> unreserved c \<or> c \<in> set ''$&+,/:;=?@!()*''"

definition escape_with :: "(char \<Rightarrow> bool) \<Rightarrow> string \<Rightarrow> string" where
  "escape_with safe s = concat (map (\<lambda>c. if safe c then [c] else percent c) s)"

definition valid_encoded_for :: "(char \<Rightarrow> bool) \<Rightarrow> string \<Rightarrow> bool" where
  "valid_encoded_for safe s = list_all (\<lambda>c. c \<in> set ''!$&()*+,;=:@[]%'' \<or> c = CHR 0x27 \<or> safe c) s"

abbreviation validEncoded :: "string \<Rightarrow> bool" where
  "validEncoded \<equiv> valid_encoded_for path_safe"

definition EscapedPath :: "url \<Rightarrow> string" where
  "EscapedPath u =
     (if url_RawPath u \<noteq> '''' \<and> validEncoded (url_RawPath u)
         \<and> PathUnescape (url_RawPath u) = Some (url_Path u) then url_RawPath u
      else if url_Path u = ''*'' then ''*''
      else escape_with path_safe (url_Path u))"

text \<open>\<open>URL.String()\<close> of a URL with a host.\<close>

definition url_origin :: "url \<Rightarrow> string" where
  "url_origin u = (if url_Scheme u \<noteq> '''' then url_Scheme u @ '':'' else '''') @ ''//''
     @ (case url_User u of None \<Rightarrow> ''''
         | Some (name, password) \<Rightarrow> escape_with user_safe name
             @ (case password of None \<Rightarrow> '''' | Some pw \<Rightarrow> '':'' @ escape_with user_safe pw) @ ''@'')
      @ escape_with host_safe (url_Host u)"

definition url_String :: "url \<Rightarrow> string" where
  "url_String u =
     (let path = EscapedPath u
      in url_origin u @ (if path \<noteq> '''' \<and> hd path \<noteq> CHR ''/'' then ''/'' else '''') @ path
         @ (if url_ForceQuery u \<or> url_RawQuery u \<noteq> '''' then ''?'' @ url_RawQuery u else '''')
         @ (if url_Fragment u \<noteq> '''' then ''#'' @ url_Fragment u else ''''))"

subsection \<open>Parsing a URL\<close>

text \<open>\<open>unescape\<close> in the modes for a path, a user name and a fragment, with the text of its error.\<close>

definition escape_error :: "string \<Rightarrow> string" where
  "escape_error s = ''invalid URL escape '' @ Quote (take 3 s)"

fun unescape :: "string \<Rightarrow> string + string" where
  "unescape [] = Inr []"
| "unescape (c # cs) =
     (if c = CHR ''%'' then
        (case cs of
           a # b # rest \<Rightarrow>
             if is_hex a \<and> is_hex b
             then map_sum id ((#) (char_of (16 * unhex a + unhex b))) (unescape rest)
             else Inl (escape_error (c # cs))
         | _ \<Rightarrow> Inl (escape_error (c # cs)))
      else map_sum id ((#) c) (unescape cs))"

text \<open>
  \<open>unescape\<close> in the modes for a host and for an IPv6 zone (\<open>zone\<close>): which escapes and which bytes they accept.
\<close>

definition host_escape_ok :: "bool \<Rightarrow> char \<Rightarrow> char \<Rightarrow> bool" where
  "host_escape_ok zone a b \<longleftrightarrow> [a, b] = ''25''
     \<or> (if zone then let v = char_of (16 * unhex a + unhex b) in v = CHR '' '' \<or> host_safe v
        else 8 \<le> unhex a)"

fun unescape_host :: "bool \<Rightarrow> string \<Rightarrow> string + string" where
  "unescape_host zone [] = Inr []"
| "unescape_host zone (c # cs) =
     (if c = CHR ''%'' then
        (case cs of
           a # b # rest \<Rightarrow>
             if is_hex a \<and> is_hex b \<and> host_escape_ok zone a b
             then map_sum id ((#) (char_of (16 * unhex a + unhex b))) (unescape_host zone rest)
             else Inl (escape_error (c # cs))
         | _ \<Rightarrow> Inl (escape_error (c # cs)))
      else if (of_char c :: nat) < 0x80 \<and> \<not> host_safe c
        then Inl (''invalid character '' @ Quote [c] @ '' in host name'')
      else map_sum id ((#) c) (unescape_host zone cs))"

text \<open>The parts before and after the last \<open>c\<close>.\<close>

definition CutLast :: "string \<Rightarrow> char \<Rightarrow> (string \<times> string) option" where
  "CutLast s c = (let (a, b, found) = Cut (rev s) c in if found then Some (rev b, rev a) else None)"

definition validOptionalPort :: "string \<Rightarrow> bool" where
  "validOptionalPort port = (case port of [] \<Rightarrow> True | c # cs \<Rightarrow> c = CHR '':'' \<and> list_all is_digit cs)"

definition parseHost :: "string \<Rightarrow> string + string" where
  "parseHost host =
     (if HasPrefix host ''['' then
        (case CutLast host (CHR '']'') of
           None \<Rightarrow> Inl (''missing '' @ [CHR 0x27] @ '']'' @ [CHR 0x27] @ '' in host'')
         | Some (before, colonPort) \<Rightarrow>
             if \<not> validOptionalPort colonPort then Inl (''invalid port '' @ Quote colonPort @ '' after host'')
             else (case Index before ''%25'' of
                 Some z \<Rightarrow>
                   (case (unescape_host False (take z before), unescape_host True (drop z before),
                          unescape_host False ('']'' @ colonPort)) of
                      (Inl e, _, _) \<Rightarrow> Inl e
                    | (_, Inl e, _) \<Rightarrow> Inl e
                    | (_, _, Inl e) \<Rightarrow> Inl e
                    | (Inr h1, Inr h2, Inr h3) \<Rightarrow> Inr (h1 @ h2 @ h3))
               | None \<Rightarrow> unescape_host False host))
      else (case CutLast host (CHR '':'') of
           Some (before, port) \<Rightarrow>
             if \<not> validOptionalPort ('':'' @ port)
             then Inl (''invalid port '' @ Quote ('':'' @ port) @ '' after host'')
             else unescape_host False host
         | None \<Rightarrow> unescape_host False host))"

definition validUserinfo :: "string \<Rightarrow> bool" where
  "validUserinfo s = list_all (\<lambda>c. is_alnum c \<or> c \<in> set ''-._:~!$&()*+,;=%@'' \<or> c = CHR 0x27) s"

definition parseUserinfo :: "string \<Rightarrow> string + (string \<times> string option)" where
  "parseUserinfo userinfo =
     (if \<not> validUserinfo userinfo then Inl ''net/url: invalid userinfo''
      else (case Cut userinfo (CHR '':'') of
          (name, password, True) \<Rightarrow>
            (case (unescape name, unescape password) of
               (Inl e, _) \<Rightarrow> Inl e | (_, Inl e) \<Rightarrow> Inl e | (Inr n, Inr p) \<Rightarrow> Inr (n, Some p))
        | (name, _, False) \<Rightarrow> map_sum id (\<lambda>n. (n, None)) (unescape name)))"

definition parseAuthority :: "string \<Rightarrow> string + ((string \<times> string option) option \<times> string)" where
  "parseAuthority authority =
     (case CutLast authority (CHR ''@'') of
        None \<Rightarrow> map_sum id (Pair None) (parseHost authority)
      | Some (userinfo, h) \<Rightarrow>
          (case parseHost h of Inl e \<Rightarrow> Inl e
           | Inr host \<Rightarrow> map_sum id (\<lambda>u. (Some u, host)) (parseUserinfo userinfo)))"

text \<open>\<open>getScheme\<close>: the scheme and the rest.\<close>

fun scheme_from :: "string \<Rightarrow> string \<Rightarrow> string \<Rightarrow> string + string \<times> string" where
  "scheme_from raw seen [] = Inr ('''', raw)"
| "scheme_from raw seen (c # cs) =
     (if byte_in CHR ''a'' CHR ''z'' c \<or> byte_in CHR ''A'' CHR ''Z'' c then scheme_from raw (seen @ [c]) cs
      else if is_digit c \<or> c \<in> set ''+-.'' then
        if seen = [] then Inr ('''', raw) else scheme_from raw (seen @ [c]) cs
      else if c = CHR '':'' then
        if seen = [] then Inl ''missing protocol scheme'' else Inr (seen, cs)
      else Inr ('''', raw))"

definition getScheme :: "string \<Rightarrow> string + string \<times> string" where
  "getScheme rawURL = scheme_from rawURL [] rawURL"

definition empty_url :: url where
  "empty_url = \<lparr>url_Scheme = '''', url_User = None, url_Host = '''', url_Path = '''', url_RawPath = '''',
     url_ForceQuery = False, url_RawQuery = '''', url_Fragment = ''''\<rparr>"

definition set_path :: "string \<Rightarrow> url \<Rightarrow> string + url" where
  "set_path p u = (case unescape p of Inl e \<Rightarrow> Inl e
     | Inr path \<Rightarrow> Inr (u\<lparr>url_Path := path,
         url_RawPath := if p = escape_with path_safe path then '''' else p\<rparr>))"

text \<open>
  \<open>parse\<close>, for a URL that does not come from a request line. A URL with a scheme and no \<open>/\<close> after it is
  opaque: it has no host and no path, and what it has is not kept here.
\<close>

definition parse_url :: "string \<Rightarrow> string + url" where
  "parse_url rawURL =
     (if list_ex (\<lambda>c. (of_char c :: nat) < 32 \<or> of_char c = (127 :: nat)) rawURL
      then Inl ''net/url: invalid control character in URL''
      else if rawURL = ''*'' then Inr (empty_url\<lparr>url_Path := ''*''\<rparr>)
      else (case getScheme rawURL of Inl e \<Rightarrow> Inl e | Inr (scheme, rest) \<Rightarrow>
        let scheme = ToLower scheme;
            force = HasSuffix rest ''?'' \<and> CHR ''?'' \<notin> set (butlast rest);
            (rest, query) = (if force then (butlast rest, '''')
              else let (a, b, _) = Cut rest (CHR ''?'') in (a, b));
            u = empty_url\<lparr>url_Scheme := scheme, url_ForceQuery := force, url_RawQuery := query\<rparr>
        in if \<not> HasPrefix rest ''/'' \<and> scheme \<noteq> '''' then Inr u
           else if \<not> HasPrefix rest ''/'' \<and> CHR '':'' \<in> set (fst (Cut rest (CHR ''/''))) then
             Inl ''first path segment in URL cannot contain colon''
           else if (scheme \<noteq> '''' \<or> \<not> HasPrefix rest ''///'') \<and> HasPrefix rest ''//'' then
             let authority = takeWhile (\<lambda>c. c \<noteq> CHR ''/'') (drop 2 rest);
                 rest = dropWhile (\<lambda>c. c \<noteq> CHR ''/'') (drop 2 rest)
             in (case parseAuthority authority of Inl e \<Rightarrow> Inl e
                 | Inr (user, host) \<Rightarrow> set_path rest (u\<lparr>url_User := user, url_Host := host\<rparr>))
           else set_path rest u))"

definition escaped_fragment :: "string \<Rightarrow> string \<Rightarrow> string" where
  "escaped_fragment raw frag = (if valid_encoded_for fragment_safe raw then raw
     else escape_with fragment_safe frag)"

text \<open>\<open>url.Parse\<close>\<close>

definition Parse :: "string \<Rightarrow> go_error + url" where
  "Parse rawURL =
     (let (u, frag, _) = Cut rawURL (CHR ''#'')
      in case parse_url u of Inl e \<Rightarrow> Inl (ErrorString (''parse '' @ Quote u @ '': '' @ e))
       | Inr url \<Rightarrow>
           (case unescape frag of
              Inl e \<Rightarrow> Inl (ErrorString (''parse '' @ Quote rawURL @ '': '' @ e))
            | Inr f \<Rightarrow> Inr (url\<lparr>url_Fragment := escaped_fragment frag f\<rparr>)))"

text \<open>\<open>URL.Hostname\<close>: the host without a port and without brackets.\<close>

definition Hostname :: "url \<Rightarrow> string" where
  "Hostname u =
     (let host = (case CutLast (url_Host u) (CHR '':'') of
          Some (h, port) \<Rightarrow> if validOptionalPort ('':'' @ port) then h else url_Host u
        | None \<Rightarrow> url_Host u)
      in if HasPrefix host ''['' \<and> HasSuffix host '']'' then butlast (tl host) else host)"

subsection \<open>Query parameters\<close>

definition QueryEscape :: "string \<Rightarrow> string" where
  "QueryEscape s = concat (map (\<lambda>c. if c = CHR '' '' then ''+'' else if unreserved c then [c] else percent c) s)"

text \<open>\<open>Values.Encode\<close>: the pairs sorted by key.\<close>

definition Encode :: "(string \<times> string list) list \<Rightarrow> string" where
  "Encode v = Join (concat (map (\<lambda>(k, vs). map (\<lambda>x. QueryEscape k @ ''='' @ QueryEscape x) vs)
     (sort_key fst v))) ''&''"

subsection \<open>Requests\<close>

text \<open>A header that is not set is empty.\<close>

record http_request =
  req_Method :: string
  req_URL :: string
  req_Accept :: string
  req_ContentType :: string
  req_Authorization :: string
  req_Body :: "string option"

text \<open>\<open>http.StatusText\<close>\<close>

definition StatusText :: "int \<Rightarrow> string" where
  "StatusText code = (case map_of
     [(100, ''Continue''), (101, ''Switching Protocols''), (102, ''Processing''), (103, ''Early Hints''),
      (200, ''OK''), (201, ''Created''), (202, ''Accepted''), (203, ''Non-Authoritative Information''),
      (204, ''No Content''), (205, ''Reset Content''), (206, ''Partial Content''), (207, ''Multi-Status''),
      (208, ''Already Reported''), (226, ''IM Used''), (300, ''Multiple Choices''),
      (301, ''Moved Permanently''), (302, ''Found''), (303, ''See Other''), (304, ''Not Modified''),
      (305, ''Use Proxy''), (307, ''Temporary Redirect''), (308, ''Permanent Redirect''),
      (400, ''Bad Request''), (401, ''Unauthorized''), (402, ''Payment Required''), (403, ''Forbidden''),
      (404, ''Not Found''), (405, ''Method Not Allowed''), (406, ''Not Acceptable''),
      (407, ''Proxy Authentication Required''), (408, ''Request Timeout''), (409, ''Conflict''),
      (410, ''Gone''), (411, ''Length Required''), (412, ''Precondition Failed''),
      (413, ''Request Entity Too Large''), (414, ''Request URI Too Long''),
      (415, ''Unsupported Media Type''), (416, ''Requested Range Not Satisfiable''),
      (417, ''Expectation Failed''), (418, ''I'' @ [CHR 0x27] @ ''m a teapot''), (421, ''Misdirected Request''),
      (422, ''Unprocessable Entity''), (423, ''Locked''), (424, ''Failed Dependency''), (425, ''Too Early''),
      (426, ''Upgrade Required''), (428, ''Precondition Required''), (429, ''Too Many Requests''),
      (431, ''Request Header Fields Too Large''), (451, ''Unavailable For Legal Reasons''),
      (500, ''Internal Server Error''), (501, ''Not Implemented''), (502, ''Bad Gateway''),
      (503, ''Service Unavailable''), (504, ''Gateway Timeout''), (505, ''HTTP Version Not Supported''),
      (506, ''Variant Also Negotiates''), (507, ''Insufficient Storage''), (508, ''Loop Detected''),
      (510, ''Not Extended''), (511, ''Network Authentication Required'')] code of
     None \<Rightarrow> '''' | Some t \<Rightarrow> t)"

subsection \<open>An escaped path prints as it is\<close>

lemma path_safe_not_percent: "path_safe c \<Longrightarrow> c \<noteq> CHR ''%''"
  by (auto simp: path_safe_def unreserved_def is_alnum_def less_eq_char_def)

lemma PathUnescape_percent: "PathUnescape (percent c @ s) = map_option ((#) c) (PathUnescape s)"
proof -
  have "16 * (of_char c div 16) + of_char c mod 16 = (of_char c :: nat)" by simp
  then show ?thesis
    by (simp add: percent_def is_hex_upper_hex unhex_upper_hex nibbles)
qed

lemma PathUnescape_escape_path: "PathUnescape (escape_with path_safe s) = Some s"
  by (induction s) (auto simp: escape_with_def PathUnescape_percent path_safe_not_percent)

lemma alnum_path_safe: "is_alnum c \<Longrightarrow> path_safe c"
  by (simp add: path_safe_def unreserved_def)

lemma validEncoded_append [simp]: "validEncoded (a @ b) \<longleftrightarrow> validEncoded a \<and> validEncoded b"
  by (simp add: valid_encoded_for_def)

lemma validEncoded_percent: "validEncoded (percent c)"
  by (simp add: valid_encoded_for_def percent_def alnum_path_safe upper_hex_plain nibbles)

lemma validEncoded_escape_path: "validEncoded (escape_with path_safe s)"
proof (induction s)
  case (Cons c s)
  have "validEncoded (if path_safe c then [c] else percent c)"
    by (simp add: validEncoded_percent) (simp add: valid_encoded_for_def)
  with Cons show ?case by (simp add: escape_with_def)
qed (simp add: escape_with_def valid_encoded_for_def)

lemma validEncoded_PathEscape: "validEncoded (PathEscape s)"
proof -
  have "validEncoded (escape_byte c)" for c
  proof (cases "segment_safe c")
    case True
    then show ?thesis
      by (auto simp: escape_byte_def valid_encoded_for_def segment_safe_def path_safe_def unreserved_def)
  next
    case False
    then show ?thesis using validEncoded_percent [of c] by (simp add: escape_byte_def percent_def)
  qed
  moreover have "validEncoded []" by (simp add: valid_encoded_for_def)
  ultimately show ?thesis by (induction s) (simp_all add: PathEscape_def)
qed

lemma EscapedPath_valid: "validEncoded (EscapedPath u)"
  by (simp add: EscapedPath_def validEncoded_escape_path) (simp add: valid_encoded_for_def)

lemma EscapedPath_unescapes: "PathUnescape (EscapedPath u) = Some (url_Path u)"
  by (simp add: EscapedPath_def PathUnescape_escape_path)

lemma PathUnescape_prefix:
  "PathUnescape (a @ b) = Some c \<Longrightarrow> hd b \<noteq> CHR ''%'' \<Longrightarrow> \<not> is_hex (hd b) \<Longrightarrow> b \<noteq> [] \<Longrightarrow>
    \<exists>a'. PathUnescape a = Some a'"
proof (induction a arbitrary: c rule: PathUnescape.induct)
  case (2 x xs)
  show ?case
  proof (cases "x = CHR ''%''")
    case True
    with 2(3-) obtain p q rest where xs: "xs = p # q # rest" "is_hex p" "is_hex q"
      by (cases xs; cases "tl xs"; cases b) (auto split: list.splits if_splits)
    with 2(3) True obtain c' where "PathUnescape (rest @ b) = Some c'" by auto
    with "2.IH"(1) [OF True xs(1) refl] xs 2(4-) True show ?thesis by auto
  next
    case False
    with "2.IH"(2) [OF False] 2(3-) show ?thesis by auto
  qed
qed simp

lemma TrimSuffix_slash_unescapes:
  assumes "PathUnescape p = Some q"
  shows "\<exists>q'. PathUnescape (TrimSuffix p ''/'') = Some q'"
proof (cases "HasSuffix p ''/''")
  case True
  then obtain t where "p = t @ ''/''" by (auto simp: HasSuffix_iff)
  with assms PathUnescape_prefix [of t "''/''" q] show ?thesis
    by (simp add: is_hex_def less_eq_char_def)
next
  case False
  with assms show ?thesis by (simp add: TrimSuffix_def)
qed

lemma validEncoded_TrimSuffix: "validEncoded p \<Longrightarrow> validEncoded (TrimSuffix p s)"
  using TrimSuffix_recover [of p s] validEncoded_append [of "TrimSuffix p s" s]
  by (cases "HasSuffix p s") (simp_all add: TrimSuffix_def)

text \<open>A path built from escaped pieces is sent as it was built.\<close>

lemma EscapedPath_raw:
  "url_RawPath u \<noteq> [] \<Longrightarrow> validEncoded (url_RawPath u) \<Longrightarrow> PathUnescape (url_RawPath u) = Some (url_Path u) \<Longrightarrow>
    EscapedPath u = url_RawPath u"
  by (simp add: EscapedPath_def)

lemma parse_url_examples:
  "map_sum id (\<lambda>u. (url_Scheme u, url_Host u, url_Path u, Hostname u)) (Parse ''HTTPS://10.0.0.1:6443/k8s/c-1/'')
     = Inr (''https'', ''10.0.0.1:6443'', ''/k8s/c-1/'', ''10.0.0.1'')"
  "map_sum id Hostname (Parse ''https://[fe80::1]:6443'') = Inr ''fe80::1''"
  "map_sum id url_Host (Parse ''10.0.0.1:6443'') = Inl (ErrorString (''parse '' @ Quote ''10.0.0.1:6443'' @
     '': first path segment in URL cannot contain colon''))"
  by code_simp+

end
