(* ===== verification/Kubeconfig.thy ===== *)
theory Kubeconfig
  imports Go_Net
begin

text \<open>
  \<open>kubeconfig/kubeconfig.go\<close>: a kubeconfig file, resolved to what the gateway needs of a cluster.

  The YAML decoder is third-party code: \<open>yaml_Unmarshal\<close> is the parameter that gives the raw document of a
  text. The file system is the parameter \<open>read_file\<close> (\<open>os.ReadFile\<close> at start-up); paths are Unix paths.
\<close>

subsection \<open>\<open>path/filepath\<close>\<close>

fun clean_elements :: "bool \<Rightarrow> string list \<Rightarrow> string list \<Rightarrow> string list" where
  "clean_elements rooted [] stack = rev stack"
| "clean_elements rooted (e # es) stack =
     (if e = '''' \<or> e = ''.'' then clean_elements rooted es stack
      else if e = ''..'' then
        (if stack \<noteq> [] \<and> hd stack \<noteq> ''..'' then clean_elements rooted es (tl stack)
         else if rooted then clean_elements rooted es stack
         else clean_elements rooted es (''..'' # stack))
      else clean_elements rooted es (e # stack))"

definition IsAbs :: "string \<Rightarrow> bool" where
  "IsAbs p = HasPrefix p ''/''"

definition Clean :: "string \<Rightarrow> string" where
  "Clean p = (let q = Join (clean_elements (IsAbs p) (Split p (CHR ''/'')) []) ''/''
     in if IsAbs p then ''/'' @ q else if q = '''' then ''.'' else q)"

definition join_path :: "string list \<Rightarrow> string" where
  "join_path es = (let es = filter (\<lambda>e. e \<noteq> '''') es in if es = [] then '''' else Clean (Join es ''/''))"

definition Dir :: "string \<Rightarrow> string" where
  "Dir p = Clean (case CutLast p (CHR ''/'') of None \<Rightarrow> '''' | Some (before, _) \<Rightarrow> before @ ''/'')"

subsection \<open>\<open>base64.StdEncoding.DecodeString\<close>\<close>

definition base64_val :: "char \<Rightarrow> nat option" where
  "base64_val c = (let n = of_char c in
     if 65 \<le> n \<and> n \<le> 90 then Some (n - 65) else if 97 \<le> n \<and> n \<le> 122 then Some (n - 71)
     else if 48 \<le> n \<and> n \<le> 57 then Some (n + 4) else if n = 43 then Some 62
     else if n = 47 then Some 63 else None)"

text \<open>
  Line breaks are skipped; the rest comes in groups of four, of which only the last may be padded. The bits
  that padding cuts off are ignored. \<open>None\<close> is the error.
\<close>

fun base64_groups :: "string \<Rightarrow> string option" where
  "base64_groups [] = Some []"
| "base64_groups (a # b # c # d # rest) =
     (case (base64_val a, base64_val b) of
        (Some x, Some y) \<Rightarrow>
          if c = CHR ''='' then
            if d = CHR ''='' \<and> rest = [] then Some [char_of (x * 4 + y div 16)] else None
          else (case base64_val c of None \<Rightarrow> None | Some z \<Rightarrow>
            if d = CHR ''='' then
              if rest = [] then Some [char_of (x * 4 + y div 16), char_of (y mod 16 * 16 + z div 4)] else None
            else (case base64_val d of None \<Rightarrow> None | Some u \<Rightarrow>
              map_option ((@) [char_of (x * 4 + y div 16), char_of (y mod 16 * 16 + z div 4),
                char_of (z mod 4 * 64 + u)]) (base64_groups rest)))
      | _ \<Rightarrow> None)"
| "base64_groups _ = None"

definition base64_decode :: "string \<Rightarrow> string option" where
  "base64_decode s = base64_groups (filter (\<lambda>c. c \<noteq> CHR 0x0A \<and> c \<noteq> CHR 0x0D) s)"

subsection \<open>Documents\<close>

definition EnvVarKubeconfig :: string where
  "EnvVarKubeconfig = ''CLUSTERORBIT_GATEWAY_KUBECONFIG''"

definition EnvVarContext :: string where
  "EnvVarContext = ''CLUSTERORBIT_GATEWAY_KUBE_CONTEXT''"

record resolved_cluster =
  res_ContextName :: string
  res_ClusterName :: string
  res_Server :: string
  res_Namespace :: string
  res_BearerToken :: string
  res_CAData :: string
  res_ClientCertData :: string
  res_ClientKeyData :: string
  res_InsecureSkipTLS :: bool
  res_EnvironmentLabel :: string

record context_entry =
  ctx_Name :: string
  ctx_Cluster :: string
  ctx_User :: string
  ctx_Namespace :: string

record cluster_entry =
  ce_Name :: string
  ce_Server :: string
  ce_CAData :: string
  ce_CAFile :: string
  ce_InsecureSkipTLSVerify :: bool

record user_entry =
  ue_Name :: string
  ue_Token :: string
  ue_TokenFile :: string
  ue_ClientCertData :: string
  ue_ClientCertFile :: string
  ue_ClientKeyData :: string
  ue_ClientKeyFile :: string
  ue_UsesExec :: bool
  ue_UsesAuthProvider :: bool

record document =
  doc_Dir :: string
  doc_CurrentContext :: string
  doc_Contexts :: "context_entry list"
  doc_Clusters :: "cluster_entry list"
  doc_Users :: "user_entry list"

text \<open>
  \<open>rawKubeconfig\<close>: the fields of the YAML document. Of the \<open>any\<close> values \<open>exec\<close> and \<open>auth-provider\<close> only
  whether they are nil is used.
\<close>

record raw_cluster =
  rw_Name :: string
  rw_Server :: string
  rw_CertificateAuthority :: string
  rw_CertificateAuthorityData :: string
  rw_InsecureSkipTLSVerify :: bool

record raw_user =
  ru_Name :: string
  ru_Token :: string
  ru_TokenFile :: string
  ru_ClientCertificate :: string
  ru_ClientCertificateData :: string
  ru_ClientKey :: string
  ru_ClientKeyData :: string
  ru_Exec :: bool
  ru_AuthProvider :: bool

record raw_kubeconfig =
  raw_CurrentContext :: string
  raw_Contexts :: "context_entry list"
  raw_Clusters :: "raw_cluster list"
  raw_Users :: "raw_user list"

text \<open>\<open>decodeBase64\<close>; the error is the decoder's, without the offset in its text.\<close>

definition decodeBase64 :: "string \<Rightarrow> go_error + string" where
  "decodeBase64 s = (if s = '''' then Inr '''' else
     (case base64_decode s of None \<Rightarrow> Inl (ErrorString ''illegal base64 data'') | Some d \<Rightarrow> Inr d))"

fun parse_clusters :: "raw_cluster list \<Rightarrow> go_error + cluster_entry list" where
  "parse_clusters [] = Inr []"
| "parse_clusters (cl # cls) =
     (case decodeBase64 (rw_CertificateAuthorityData cl) of
        Inl e \<Rightarrow> Inl (Errorf (''decode CA data for cluster '' @ Quote (rw_Name cl) @ '': '') e '''')
      | Inr decoded \<Rightarrow>
          let entry = \<lparr>ce_Name = rw_Name cl, ce_Server = rw_Server cl, ce_CAData = decoded,
            ce_CAFile = rw_CertificateAuthority cl, ce_InsecureSkipTLSVerify = rw_InsecureSkipTLSVerify cl\<rparr>
          in map_sum id ((#) entry) (parse_clusters cls))"

fun parse_users :: "raw_user list \<Rightarrow> go_error + user_entry list" where
  "parse_users [] = Inr []"
| "parse_users (u # us) =
     (case decodeBase64 (ru_ClientCertificateData u) of
        Inl e \<Rightarrow> Inl (Errorf (''decode client certificate data for user '' @ Quote (ru_Name u) @ '': '') e '''')
      | Inr cert \<Rightarrow>
          (case decodeBase64 (ru_ClientKeyData u) of
             Inl e \<Rightarrow> Inl (Errorf (''decode client key data for user '' @ Quote (ru_Name u) @ '': '') e '''')
           | Inr key \<Rightarrow>
               let entry = \<lparr>ue_Name = ru_Name u, ue_Token = ru_Token u, ue_TokenFile = ru_TokenFile u,
                 ue_ClientCertData = cert, ue_ClientCertFile = ru_ClientCertificate u,
                 ue_ClientKeyData = key, ue_ClientKeyFile = ru_ClientKey u,
                 ue_UsesExec = ru_Exec u, ue_UsesAuthProvider = ru_AuthProvider u\<rparr>
               in map_sum id ((#) entry) (parse_users us)))"

definition ParseDocument :: "(string \<Rightarrow> go_error + raw_kubeconfig) \<Rightarrow> string \<Rightarrow> go_error + document" where
  "ParseDocument yaml_Unmarshal data =
     (case yaml_Unmarshal data of
        Inl e \<Rightarrow> Inl (Errorf ''parse kubeconfig: '' e '''')
      | Inr raw \<Rightarrow>
          (case parse_clusters (raw_Clusters raw) of Inl e \<Rightarrow> Inl e | Inr clusters \<Rightarrow>
          (case parse_users (raw_Users raw) of Inl e \<Rightarrow> Inl e | Inr users \<Rightarrow>
             Inr \<lparr>doc_Dir = '''', doc_CurrentContext = raw_CurrentContext raw, doc_Contexts = raw_Contexts raw,
                  doc_Clusters = clusters, doc_Users = users\<rparr>)))"

definition LoadFile :: "(string \<Rightarrow> go_error + string) \<Rightarrow> (string \<Rightarrow> go_error + raw_kubeconfig) \<Rightarrow> string \<Rightarrow>
    go_error + document" where
  "LoadFile read_file yaml_Unmarshal path =
     (case read_file path of
        Inl e \<Rightarrow> Inl (Errorf ''read kubeconfig: '' e '''')
      | Inr data \<Rightarrow>
          (case ParseDocument yaml_Unmarshal data of
             Inl e \<Rightarrow> Inl e
           | Inr doc \<Rightarrow> Inr (doc\<lparr>doc_Dir := Dir path\<rparr>)))"

definition readRef :: "(string \<Rightarrow> go_error + string) \<Rightarrow> document \<Rightarrow> string \<Rightarrow> go_error + string" where
  "readRef read_file d path =
     (let path = (if doc_Dir d \<noteq> '''' \<and> \<not> IsAbs path then join_path [doc_Dir d, path] else path)
      in read_file path)"

definition ResolvePath :: "string \<Rightarrow> (string \<Rightarrow> string) \<Rightarrow> string" where
  "ResolvePath goos env =
     (if env EnvVarKubeconfig \<noteq> '''' then env EnvVarKubeconfig
      else let kc = env ''KUBECONFIG'';
               sep = (if goos = ''windows'' then CHR '';'' else CHR '':'');
               parts = (if kc \<noteq> '''' then filter (\<lambda>t. t \<noteq> '''') (map TrimSpace (Split kc sep)) else [])
           in case parts of
                trimmed # _ \<Rightarrow> trimmed
              | [] \<Rightarrow>
                  let home = env ''HOME'';
                      home = (if home = '''' then env ''USERPROFILE'' else home)
                  in if home = '''' then '''' else join_path [home, ''.kube'', ''config''])"

subsection \<open>Resolving a context\<close>

definition environmentLabelFor :: "string \<Rightarrow> string \<Rightarrow> string" where
  "environmentLabelFor contextName clusterName =
     (let probe = ToLower contextName @ '' '' @ ToLower clusterName
      in if Contains probe ''prod'' then ''Production''
         else if Contains probe ''stage'' then ''Staging''
         else if Contains probe ''dev'' then ''Development''
         else if Contains probe ''test'' then ''Testing''
         else if Contains probe ''home'' \<or> Contains probe ''lab'' then ''Homelab''
         else ''Direct access'')"

text \<open>A file that is read only when the inline value is empty.\<close>

definition inline_or_file :: "(string \<Rightarrow> go_error + string) \<Rightarrow> document \<Rightarrow> string \<Rightarrow> string \<Rightarrow> string \<Rightarrow>
    go_error + string" where
  "inline_or_file read_file doc what inline file =
     (if length inline = 0 \<and> file \<noteq> '''' then
        (case readRef read_file doc file of
           Inl e \<Rightarrow> Inl (Errorf (''read '' @ what @ '' file: '') e '''')
         | Inr data \<Rightarrow> Inr data)
      else Inr inline)"

definition resolveUser :: "(string \<Rightarrow> go_error + string) \<Rightarrow> document \<Rightarrow> user_entry \<Rightarrow> resolved_cluster \<Rightarrow>
    go_error + resolved_cluster" where
  "resolveUser read_file doc user resolved =
     (case (if ue_Token user \<noteq> '''' then Inr (ue_Token user)
            else if ue_TokenFile user \<noteq> '''' then
              (case readRef read_file doc (ue_TokenFile user) of
                 Inl e \<Rightarrow> Inl (Errorf ''read token file: '' e '''')
               | Inr data \<Rightarrow> Inr (TrimSpace data))
            else Inr (res_BearerToken resolved)) of
        Inl e \<Rightarrow> Inl e
      | Inr token \<Rightarrow>
          (case inline_or_file read_file doc ''client certificate'' (ue_ClientCertData user) (ue_ClientCertFile user) of
             Inl e \<Rightarrow> Inl e
           | Inr cert \<Rightarrow>
          (case inline_or_file read_file doc ''client key'' (ue_ClientKeyData user) (ue_ClientKeyFile user) of
             Inl e \<Rightarrow> Inl e
           | Inr key \<Rightarrow>
               if (length cert = 0) \<noteq> (length key = 0) then
                 Inl (ErrorString (''user '' @ Quote (ue_Name user) @ '' needs both a client certificate and a client key''))
               else if token = '''' \<and> length cert = 0 \<and> (ue_UsesExec user \<or> ue_UsesAuthProvider user) then
                 Inl (ErrorString (''user '' @ Quote (ue_Name user)
                   @ '' uses exec or auth-provider credentials, which are not supported''))
               else Inr (resolved\<lparr>res_BearerToken := token, res_ClientCertData := cert, res_ClientKeyData := key\<rparr>))))"

definition Resolve :: "(string \<Rightarrow> go_error + string) \<Rightarrow> document option \<Rightarrow> string \<Rightarrow>
    go_error + resolved_cluster" where
  "Resolve read_file doc ctxName = (case doc of
       None \<Rightarrow> Inl (ErrorString ''nil document'')
     | Some doc \<Rightarrow>
       let ctxName = (if ctxName = '''' then doc_CurrentContext doc else ctxName)
       in if ctxName = '''' then Inl (ErrorString ''no context specified and no current-context set'')
          else (case find (\<lambda>c. ctx_Name c = ctxName) (doc_Contexts doc) of
              None \<Rightarrow> Inl (ErrorString (''context '' @ Quote ctxName @ '' not found''))
            | Some ctx \<Rightarrow>
          (case find (\<lambda>c. ce_Name c = ctx_Cluster ctx) (doc_Clusters doc) of
              None \<Rightarrow> Inl (ErrorString (''cluster '' @ Quote (ctx_Cluster ctx) @ '' not found or missing server''))
            | Some cluster \<Rightarrow>
              if ce_Server cluster = '''' then
                Inl (ErrorString (''cluster '' @ Quote (ctx_Cluster ctx) @ '' not found or missing server''))
              else
          (case inline_or_file read_file doc ''CA'' (ce_CAData cluster) (ce_CAFile cluster) of
              Inl e \<Rightarrow> Inl e
            | Inr caData \<Rightarrow>
                let resolved = \<lparr>res_ContextName = ctx_Name ctx, res_ClusterName = ce_Name cluster,
                      res_Server = ce_Server cluster, res_Namespace = ctx_Namespace ctx, res_BearerToken = '''',
                      res_CAData = caData, res_ClientCertData = '''', res_ClientKeyData = '''',
                      res_InsecureSkipTLS = ce_InsecureSkipTLSVerify cluster,
                      res_EnvironmentLabel = environmentLabelFor (ctx_Name ctx) (ce_Name cluster)\<rparr>
                in (case find (\<lambda>u. ue_Name u = ctx_User ctx) (doc_Users doc) of
                    None \<Rightarrow> Inl (ErrorString (''user '' @ Quote (ctx_User ctx) @ '' not found''))
                  | Some user \<Rightarrow>
                      if ctx_User ctx = '''' then
                        Inl (ErrorString (''user '' @ Quote (ctx_User ctx) @ '' not found''))
                      else resolveUser read_file doc user resolved)))))"

text \<open>The loop of \<open>ResolveAll\<close> over the contexts.\<close>

fun resolve_contexts :: "(string \<Rightarrow> go_error + string) \<Rightarrow> document \<Rightarrow> context_entry list \<Rightarrow>
    resolved_cluster list \<times> go_error list" where
  "resolve_contexts read_file doc [] = ([], [])"
| "resolve_contexts read_file doc (ctx # rest) =
     (let (out, errs) = resolve_contexts read_file doc rest
      in if ctx_Name ctx = '''' then (out, ErrorString ''context with empty name skipped'' # errs)
         else (case Resolve read_file (Some doc) (ctx_Name ctx) of
             Inl e \<Rightarrow> (out, Errorf (''context '' @ Quote (ctx_Name ctx) @ '': '') e '''' # errs)
           | Inr r \<Rightarrow> (r # out, errs)))"

definition ResolveAll :: "(string \<Rightarrow> go_error + string) \<Rightarrow> document option \<Rightarrow>
    resolved_cluster list \<times> go_error list" where
  "ResolveAll read_file doc = (case doc of
       None \<Rightarrow> ([], [ErrorString ''nil document''])
     | Some doc \<Rightarrow> resolve_contexts read_file doc (doc_Contexts doc))"

definition APIServerHost :: "resolved_cluster \<Rightarrow> string" where
  "APIServerHost r = (case Parse (res_Server r) of
       Inl e \<Rightarrow> res_Server r
     | Inr u \<Rightarrow> if url_Host u = '''' then res_Server r else Hostname u)"

subsection \<open>What a resolved cluster is\<close>

text \<open>The token of a user entry, and data that an entry gives inline or by a file; inline data wins.\<close>

definition token_of :: "(string \<Rightarrow> go_error + string) \<Rightarrow> document \<Rightarrow> user_entry \<Rightarrow> string \<Rightarrow> bool" where
  "token_of read_file doc user token \<longleftrightarrow>
     (if ue_Token user \<noteq> '''' then token = ue_Token user
      else if ue_TokenFile user \<noteq> '''' then
        (\<exists>data. readRef read_file doc (ue_TokenFile user) = Inr data \<and> token = TrimSpace data)
      else token = '''')"

definition data_of :: "(string \<Rightarrow> go_error + string) \<Rightarrow> document \<Rightarrow> string \<Rightarrow> string \<Rightarrow> string \<Rightarrow> bool" where
  "data_of read_file doc inline file data \<longleftrightarrow>
     (if inline \<noteq> '''' then data = inline
      else if file \<noteq> '''' then readRef read_file doc file = Inr data
      else data = '''')"

lemma inline_or_file_Inr:
  "inline_or_file read_file doc what inline file = Inr data \<longleftrightarrow> data_of read_file doc inline file data"
  by (auto simp: inline_or_file_def data_of_def split: sum.splits)

text \<open>The credentials of a user entry; \<open>usable\<close> rejects half a client certificate and a user of plugins only.\<close>

definition usable :: "user_entry \<Rightarrow> string \<Rightarrow> string \<Rightarrow> string \<Rightarrow> bool" where
  "usable user token cert key \<longleftrightarrow> (cert = '''' \<longleftrightarrow> key = '''')
     \<and> \<not> ((ue_UsesExec user \<or> ue_UsesAuthProvider user) \<and> token = '''' \<and> cert = '''')"

text \<open>When a chain of fallible steps succeeds.\<close>

lemma steps_succeed:
  "(case x of Inl e \<Rightarrow> Inl (f e) | Inr a \<Rightarrow> g a) = Inr r \<longleftrightarrow> (\<exists>a. x = Inr a \<and> g a = Inr r)"
  "(case y of None \<Rightarrow> Inl e | Some b \<Rightarrow> h b) = Inr r \<longleftrightarrow> (\<exists>b. y = Some b \<and> h b = Inr r)"
  "(if c then Inl e else z) = Inr r \<longleftrightarrow> \<not> c \<and> z = Inr r"
  by (simp_all split: sum.split option.split)

lemma resolveUser_Inr:
  assumes "res_BearerToken resolved = ''''"
  shows "resolveUser read_file doc user resolved = Inr r \<longleftrightarrow>
    (\<exists>token cert key. r = resolved\<lparr>res_BearerToken := token, res_ClientCertData := cert, res_ClientKeyData := key\<rparr>
      \<and> token_of read_file doc user token
      \<and> data_of read_file doc (ue_ClientCertData user) (ue_ClientCertFile user) cert
      \<and> data_of read_file doc (ue_ClientKeyData user) (ue_ClientKeyFile user) key
      \<and> usable user token cert key)"
proof -
  let ?token = "if ue_Token user \<noteq> '''' then Inr (ue_Token user)
     else if ue_TokenFile user \<noteq> '''' then
       (case readRef read_file doc (ue_TokenFile user) of Inl e \<Rightarrow> Inl (Errorf ''read token file: '' e '''')
        | Inr data \<Rightarrow> Inr (TrimSpace data))
     else Inr (res_BearerToken resolved)"
  have token: "?token = Inr t \<longleftrightarrow> token_of read_file doc user t" for t
    using assms by (auto simp: token_of_def split: sum.splits)
  show ?thesis
    unfolding resolveUser_def steps_succeed token inline_or_file_Inr usable_def by (simp, blast)
qed

text \<open>C40: a cluster the gateway serves is what its kubeconfig says. A context resolves exactly when it has a name,
  is in the document, and names a cluster with a server and a user that are there, and the files it refers
  to can be read; the result joins the first entries of those names: server, TLS setting and CA data
  are the cluster's, the namespace is the context's; the token is the user's own or else that of its token file
  without surrounding space; client certificate and key are the user's, inline before file, and come
  together; and a user whose only credentials are an exec or auth-provider plugin is rejected.\<close>

theorem Resolve_joins:
  "Resolve read_file (Some doc) ctxName = Inr r \<longleftrightarrow>
     (\<exists>name ctx cluster user token cert key ca.
        name = (if ctxName = '''' then doc_CurrentContext doc else ctxName) \<and> name \<noteq> ''''
      \<and> find (\<lambda>c. ctx_Name c = name) (doc_Contexts doc) = Some ctx
      \<and> find (\<lambda>c. ce_Name c = ctx_Cluster ctx) (doc_Clusters doc) = Some cluster \<and> ce_Server cluster \<noteq> ''''
      \<and> find (\<lambda>u. ue_Name u = ctx_User ctx) (doc_Users doc) = Some user \<and> ctx_User ctx \<noteq> ''''
      \<and> data_of read_file doc (ce_CAData cluster) (ce_CAFile cluster) ca
      \<and> token_of read_file doc user token
      \<and> data_of read_file doc (ue_ClientCertData user) (ue_ClientCertFile user) cert
      \<and> data_of read_file doc (ue_ClientKeyData user) (ue_ClientKeyFile user) key
      \<and> usable user token cert key
      \<and> r = \<lparr>res_ContextName = ctx_Name ctx, res_ClusterName = ce_Name cluster, res_Server = ce_Server cluster,
             res_Namespace = ctx_Namespace ctx, res_BearerToken = token, res_CAData = ca,
             res_ClientCertData = cert, res_ClientKeyData = key,
             res_InsecureSkipTLS = ce_InsecureSkipTLSVerify cluster,
             res_EnvironmentLabel = environmentLabelFor (ctx_Name ctx) (ce_Name cluster)\<rparr>)"
  unfolding Resolve_def option.case Let_def steps_succeed inline_or_file_Inr
    resolveUser_Inr [OF resolved_cluster.select_convs(5)] resolved_cluster.update_convs
  by blast

definition demo_doc :: document where
  "demo_doc = \<lparr>doc_Dir = ''/etc/kube'', doc_CurrentContext = ''lab'',
     doc_Contexts = [\<lparr>ctx_Name = ''lab'', ctx_Cluster = ''k3s'', ctx_User = ''ops'', ctx_Namespace = ''''\<rparr>,
       \<lparr>ctx_Name = ''old'', ctx_Cluster = ''gone'', ctx_User = ''ops'', ctx_Namespace = ''''\<rparr>],
     doc_Clusters = [\<lparr>ce_Name = ''k3s'', ce_Server = ''https://10.0.0.1:6443'', ce_CAData = '''', ce_CAFile = '''',
       ce_InsecureSkipTLSVerify = False\<rparr>],
     doc_Users = [\<lparr>ue_Name = ''ops'', ue_Token = ''abc'', ue_TokenFile = '''', ue_ClientCertData = '''',
       ue_ClientCertFile = ''ops.crt'', ue_ClientKeyData = '''', ue_ClientKeyFile = ''/etc/ops.key'', ue_UsesExec = True,
       ue_UsesAuthProvider = False\<rparr>]\<rparr>"

definition demo_file :: "string \<Rightarrow> go_error + string" where
  "demo_file p = (if p = ''/etc/kube/ops.crt'' then Inr ''cert'' else if p = ''/etc/ops.key'' then Inr ''key''
     else Inl (ErrorString ''no such file''))"

definition demo_cluster :: resolved_cluster where
  "demo_cluster = \<lparr>res_ContextName = ''lab'', res_ClusterName = ''k3s'', res_Server = ''https://10.0.0.1:6443'',
     res_Namespace = '''', res_BearerToken = ''abc'', res_CAData = '''', res_ClientCertData = ''cert'',
     res_ClientKeyData = ''key'', res_InsecureSkipTLS = False, res_EnvironmentLabel = environmentLabelFor ''lab'' ''k3s''\<rparr>"

lemma demo_resolves: "Resolve demo_file (Some demo_doc) '''' = Inr demo_cluster"
proof -
  have "readRef demo_file demo_doc ''ops.crt'' = Inr ''cert''"
    "readRef demo_file demo_doc ''/etc/ops.key'' = Inr ''key''" by code_simp+
  then show ?thesis
    by (simp add: Resolve_def demo_doc_def demo_cluster_def inline_or_file_def resolveUser_def Let_def)
qed

text \<open>What one context contributes: a cluster or an error.\<close>

definition context_outcome :: "(string \<Rightarrow> go_error + string) \<Rightarrow> document \<Rightarrow> context_entry \<Rightarrow>
    go_error + resolved_cluster" where
  "context_outcome read_file doc c =
     (if ctx_Name c = '''' then Inl (ErrorString ''context with empty name skipped'')
      else map_sum (\<lambda>e. Errorf (''context '' @ Quote (ctx_Name c) @ '': '') e '''') id
             (Resolve read_file (Some doc) (ctx_Name c)))"

definition successes :: "('e + 'a) list \<Rightarrow> 'a list" where
  "successes rs = List.map_filter (case_sum (\<lambda>_. None) Some) rs"

definition failures :: "('e + 'a) list \<Rightarrow> 'e list" where
  "failures rs = List.map_filter (case_sum Some (\<lambda>_. None)) rs"

lemma length_successes_failures: "length (successes rs) + length (failures rs) = length rs"
proof (induction rs)
  case (Cons r rs)
  then show ?case by (cases r) (simp_all add: successes_def failures_def map_filter_simps)
qed (simp add: successes_def failures_def map_filter_simps)

lemma resolve_contexts_eq:
  "resolve_contexts read_file doc cs =
     (successes (map (context_outcome read_file doc) cs), failures (map (context_outcome read_file doc) cs))"
proof (induction cs)
  case (Cons c cs)
  then show ?case
    by (cases "Resolve read_file (Some doc) (ctx_Name c)")
      (simp_all add: successes_def failures_def context_outcome_def map_filter_simps)
qed (simp add: successes_def failures_def map_filter_simps)

text \<open>\<open>ResolveAll\<close> reports every context: in the order of the document, each context contributes either its
  resolved cluster or one error, and none gets lost.\<close>

theorem ResolveAll_complete:
  "ResolveAll read_file (Some doc) =
     (successes (map (context_outcome read_file doc) (doc_Contexts doc)),
      failures (map (context_outcome read_file doc) (doc_Contexts doc)))
   \<and> length (fst (ResolveAll read_file (Some doc))) + length (snd (ResolveAll read_file (Some doc)))
       = length (doc_Contexts doc)"
  using length_successes_failures [of "map (context_outcome read_file doc) (doc_Contexts doc)"]
  by (simp add: ResolveAll_def resolve_contexts_eq)

end
