(* ===== verification/Json.thy ===== *)
theory Json
  imports Go_Strings Float64
begin

text \<open>
  Go's \<open>encoding/json\<close> decoder and the part of \<open>unicode/utf8\<close> it needs, as far as the gateway uses them:
  \<open>json.Unmarshal\<close> into a \<open>map[string]any\<close> and into a struct of strings.

  \<open>parse_json\<close> is the syntax: it reads a text into a value of \<open>js\<close>, which keeps the members of an object in
  the order of the text, repeated names included, and a number as the exact value of its literal.
  \<open>to_any\<close> is what the decoder stores for it in an \<open>any\<close>: the type \<open>gval\<close> of dynamic values.
\<close>

subsection \<open>UTF-8\<close>

abbreviation byte :: "char \<Rightarrow> nat" where
  "byte \<equiv> of_char"

definition continuation :: "char \<Rightarrow> bool" where
  "continuation c \<longleftrightarrow> byte c div 64 = 2"

text \<open>\<open>utf8.RuneStart\<close>\<close>

definition RuneStart :: "char \<Rightarrow> bool" where
  "RuneStart c \<longleftrightarrow> \<not> continuation c"

text \<open>The length of the valid encoding at the head of \<open>s\<close>, 0 where there is none.\<close>

definition second_ok :: "nat \<Rightarrow> nat \<Rightarrow> bool" where
  "second_ok b0 b1 \<longleftrightarrow>
     (let lo = (if b0 = 0xE0 then 0xA0 else if b0 = 0xF0 then 0x90 else 0x80);
          hi = (if b0 = 0xED then 0x9F else if b0 = 0xF4 then 0x8F else 0xBF)
      in lo \<le> b1 \<and> b1 \<le> hi)"

definition rune_len :: "string \<Rightarrow> nat" where
  "rune_len s = (case s of [] \<Rightarrow> 0 | c # cs \<Rightarrow>
     let b = byte c;
         n = (if b < 0x80 then 1 else if b < 0xC2 then 0 else if b < 0xE0 then 2
              else if b < 0xF0 then 3 else if b < 0xF5 then 4 else 0)
     in if n = 0 \<or> length cs < n - 1 then 0
        else if n = 1 then 1
        else if second_ok b (byte (hd cs)) \<and> list_all continuation (take (n - 2) (tl cs)) then n
        else 0)"

definition encode_rune :: "nat \<Rightarrow> string" where
  "encode_rune r = map char_of
     (if r < 0x80 then [r]
      else if r < 0x800 then [0xC0 + r div 64, 0x80 + r mod 64]
      else if r < 0x10000 then [0xE0 + r div 4096, 0x80 + r div 64 mod 64, 0x80 + r mod 64]
      else [0xF0 + r div 262144, 0x80 + r div 4096 mod 64, 0x80 + r div 64 mod 64, 0x80 + r mod 64])"

text \<open>\<open>utf8.RuneError\<close>, what replaces an invalid byte.\<close>

definition rune_error :: string where
  "rune_error = [CHR 0xEF, CHR 0xBF, CHR 0xBD]"

subsection \<open>Strings\<close>

definition hex_val :: "char \<Rightarrow> nat option" where
  "hex_val c = (let b = byte c in
     if 48 \<le> b \<and> b \<le> 57 then Some (b - 48) else if 97 \<le> b \<and> b \<le> 102 then Some (b - 87)
     else if 65 \<le> b \<and> b \<le> 70 then Some (b - 55) else None)"

text \<open>The four hexadecimal digits after \<open>\u\<close>.\<close>

definition hex4 :: "string \<Rightarrow> nat option" where
  "hex4 s = (case s of
       a # b # c # d # _ \<Rightarrow>
         (case (hex_val a, hex_val b, hex_val c, hex_val d) of
            (Some a, Some b, Some c, Some d) \<Rightarrow> Some (((a * 16 + b) * 16 + c) * 16 + d)
          | _ \<Rightarrow> None)
     | _ \<Rightarrow> None)"

definition simple_escape :: "char \<Rightarrow> char option" where
  "simple_escape c = map_of
     [(CHR 0x22, CHR 0x22), (CHR 0x5C, CHR 0x5C), (CHR ''/'', CHR ''/''), (CHR ''b'', CHR 0x08),
      (CHR ''f'', CHR 0x0C), (CHR ''n'', CHR 0x0A), (CHR ''r'', CHR 0x0D), (CHR ''t'', CHR 0x09)] c"

text \<open>
  An escape \<open>\uXXXX\<close> whose digits are at the head of \<open>s\<close>: its text and how much of \<open>s\<close> it takes. A high
  surrogate takes the low surrogate escaped after it; a surrogate without its partner is replaced.
\<close>

definition unicode_escape :: "string \<Rightarrow> (string \<times> nat) option" where
  "unicode_escape s = (case hex4 s of None \<Rightarrow> None | Some r \<Rightarrow>
     if r < 0xD800 \<or> 0xDFFF < r then Some (encode_rune r, 4)
     else (case (take 2 (drop 4 s) = [CHR 0x5C, CHR ''u''], hex4 (drop 6 s)) of
         (True, Some r1) \<Rightarrow>
           if r < 0xDC00 \<and> 0xDC00 \<le> r1 \<and> r1 \<le> 0xDFFF
           then Some (encode_rune (0x10000 + (r - 0xD800) * 1024 + (r1 - 0xDC00)), 10)
           else Some (rune_error, 4)
       | _ \<Rightarrow> Some (rune_error, 4)))"

text \<open>The rest of a string literal, after its opening quote: its value and what follows.\<close>

function parse_string :: "string \<Rightarrow> (string \<times> string) option" where
  "parse_string s = (case s of [] \<Rightarrow> None | c # cs \<Rightarrow>
     if c = CHR 0x22 then Some ([], cs)
     else if c = CHR 0x5C then
       (case cs of [] \<Rightarrow> None | e # ds \<Rightarrow>
          if e = CHR ''u'' then
            (case unicode_escape ds of None \<Rightarrow> None
             | Some (t, n) \<Rightarrow> map_option (apfst ((@) t)) (parse_string (drop n ds)))
          else (case simple_escape e of None \<Rightarrow> None
             | Some t \<Rightarrow> map_option (apfst ((#) t)) (parse_string ds)))
     else if byte c < 0x20 then None
     else if rune_len s = 0 then map_option (apfst ((@) rune_error)) (parse_string cs)
     else map_option (apfst ((@) (take (rune_len s) s))) (parse_string (drop (rune_len s - 1) cs)))"
  by pat_completeness auto
termination by (relation "measure length") auto

declare parse_string.simps [simp del]

subsection \<open>Values\<close>

datatype js =
    JsNull | JsBool bool | JsNumber real | JsString string
  | JsArray "js list" | JsObject "(string \<times> js) list"

fun skip_ws :: "string \<Rightarrow> string" where
  "skip_ws [] = []"
| "skip_ws (c # cs) = (if c \<in> {CHR '' '', CHR 0x09, CHR 0x0A, CHR 0x0D} then skip_ws cs else c # cs)"

definition take_digits :: "string \<Rightarrow> string \<times> string" where
  "take_digits s = (takeWhile is_digit s, dropWhile is_digit s)"

text \<open>The integer part: \<open>0\<close>, or digits that do not start with \<open>0\<close>.\<close>

definition parse_int_part :: "string \<Rightarrow> (nat \<times> string) option" where
  "parse_int_part s = (case s of [] \<Rightarrow> None | c # cs \<Rightarrow>
     if c = CHR ''0'' then Some (0, cs)
     else if is_digit c then (let (ds, r) = take_digits s in Some (digits_val ds, r))
     else None)"

definition parse_frac :: "string \<Rightarrow> (string \<times> string) option" where
  "parse_frac s = (case s of [] \<Rightarrow> Some ([], [])
     | c # cs \<Rightarrow>
       if c = CHR ''.'' then (let (ds, r) = take_digits cs in if ds = [] then None else Some (ds, r))
       else Some ([], s))"

definition parse_exp :: "string \<Rightarrow> (int \<times> string) option" where
  "parse_exp s = (case s of [] \<Rightarrow> Some (0, [])
     | c # cs \<Rightarrow>
       if c = CHR ''e'' \<or> c = CHR ''E'' then
         (let (neg, t) = (case cs of [] \<Rightarrow> (False, cs)
            | d # ds \<Rightarrow> if d = CHR ''-'' then (True, ds) else if d = CHR ''+'' then (False, ds) else (False, cs));
            (ds, r) = take_digits t
          in if ds = [] then None else Some (if neg then - int (digits_val ds) else int (digits_val ds), r))
       else Some (0, s))"

definition scaled :: "real \<Rightarrow> int \<Rightarrow> real" where
  "scaled m e = (if 0 \<le> e then m * 10 ^ nat e else m / 10 ^ nat (- e))"

definition parse_number :: "string \<Rightarrow> (real \<times> string) option" where
  "parse_number s =
     (let (neg, s) = (if s \<noteq> [] \<and> hd s = CHR ''-'' then (True, tl s) else (False, s))
      in case parse_int_part s of None \<Rightarrow> None | Some (i, s) \<Rightarrow>
         case parse_frac s of None \<Rightarrow> None | Some (f, s) \<Rightarrow>
         case parse_exp s of None \<Rightarrow> None | Some (e, s) \<Rightarrow>
         let v = scaled (real (i * 10 ^ length f + digits_val f)) (e - int (length f))
         in Some (if neg then - v else v, s))"

text \<open>\<open>maxNestingDepth\<close> of \<open>encoding/json\<close>\<close>

definition max_nesting :: nat where
  "max_nesting = 10000"

text \<open>What follows the punctuation character \<open>c\<close>, when it is the next token.\<close>

definition token :: "char \<Rightarrow> string \<Rightarrow> string option" where
  "token c s = (case skip_ws s of [] \<Rightarrow> None | x # r \<Rightarrow> if x = c then Some r else None)"

text \<open>
  The value at the head of a text, the rest of an array after \<open>[\<close> or \<open>,\<close> and the rest of an object after
  \<open>{\<close> or \<open>,\<close>. The first argument is fuel; \<open>d\<close> is the nesting depth.
\<close>

fun parse_value :: "nat \<Rightarrow> nat \<Rightarrow> string \<Rightarrow> (js \<times> string) option"
and parse_elems :: "nat \<Rightarrow> nat \<Rightarrow> string \<Rightarrow> (js list \<times> string) option"
and parse_members :: "nat \<Rightarrow> nat \<Rightarrow> string \<Rightarrow> ((string \<times> js) list \<times> string) option" where
  "parse_value 0 d s = None"
| "parse_value (Suc n) d s = (case skip_ws s of [] \<Rightarrow> None | c # cs \<Rightarrow>
     if c = CHR 0x22 then map_option (apfst JsString) (parse_string cs)
     else if c = CHR ''{'' then
       if max_nesting \<le> d then None
       else (case token (CHR ''}'') cs of
           Some r \<Rightarrow> Some (JsObject [], r)
         | None \<Rightarrow> map_option (apfst JsObject) (parse_members n (Suc d) cs))
     else if c = CHR ''['' then
       if max_nesting \<le> d then None
       else (case token (CHR '']'') cs of
           Some r \<Rightarrow> Some (JsArray [], r)
         | None \<Rightarrow> map_option (apfst JsArray) (parse_elems n (Suc d) cs))
     else if HasPrefix (c # cs) ''true'' then Some (JsBool True, drop 4 (c # cs))
     else if HasPrefix (c # cs) ''false'' then Some (JsBool False, drop 5 (c # cs))
     else if HasPrefix (c # cs) ''null'' then Some (JsNull, drop 4 (c # cs))
     else map_option (apfst JsNumber) (parse_number (c # cs)))"
| "parse_elems 0 d s = None"
| "parse_elems (Suc n) d s = (case parse_value n d s of None \<Rightarrow> None | Some (v, r) \<Rightarrow>
     (case token (CHR '']'') r of
        Some r \<Rightarrow> Some ([v], r)
      | None \<Rightarrow> (case token (CHR '','') r of
          None \<Rightarrow> None
        | Some r \<Rightarrow> map_option (apfst ((#) v)) (parse_elems n d r))))"
| "parse_members 0 d s = None"
| "parse_members (Suc n) d s = (case token (CHR 0x22) s of None \<Rightarrow> None | Some cs \<Rightarrow>
     (case parse_string cs of None \<Rightarrow> None | Some (k, r) \<Rightarrow>
     (case token (CHR '':'') r of None \<Rightarrow> None | Some r \<Rightarrow>
     (case parse_value n d r of None \<Rightarrow> None | Some (v, r) \<Rightarrow>
     (case token (CHR ''}'') r of
        Some r \<Rightarrow> Some ([(k, v)], r)
      | None \<Rightarrow> (case token (CHR '','') r of
          None \<Rightarrow> None
        | Some r \<Rightarrow> map_option (apfst ((#) (k, v))) (parse_members n d r)))))))"

text \<open>Every call consumes a byte or passes from a list to its element, so the fuel is enough.\<close>

definition parse_json :: "string \<Rightarrow> js option" where
  "parse_json s = (case parse_value (2 * length s + 2) 0 s of
       None \<Rightarrow> None | Some (v, r) \<Rightarrow> if skip_ws r = [] then Some v else None)"

subsection \<open>What the decoder stores\<close>

text \<open>The dynamic values of Go's \<open>any\<close> that the gateway meets. The decoder never stores a \<open>VInt\<close>.\<close>

datatype gval =
    VNil | VBool bool | VFloat real | VInt int | VString string
  | VList "gval list" | VMap "(string \<times> gval) list"

text \<open>
  A number is rounded to a \<open>float64\<close> and refused when it is out of range; of two members of one name the
  later one stays.
\<close>

fun to_any :: "js \<Rightarrow> gval option"
and to_any_list :: "js list \<Rightarrow> gval list option"
and to_any_members :: "(string \<times> js) list \<Rightarrow> (string \<times> gval) list \<Rightarrow> (string \<times> gval) list option" where
  "to_any JsNull = Some VNil"
| "to_any (JsBool b) = Some (VBool b)"
| "to_any (JsNumber x) = (let r = f64_round x in if \<bar>r\<bar> < 2 ^ 1024 then Some (VFloat r) else None)"
| "to_any (JsString s) = Some (VString s)"
| "to_any (JsArray vs) = map_option VList (to_any_list vs)"
| "to_any (JsObject ms) = map_option VMap (to_any_members ms [])"
| "to_any_list [] = Some []"
| "to_any_list (v # vs) = (case (to_any v, to_any_list vs) of
     (Some x, Some xs) \<Rightarrow> Some (x # xs) | _ \<Rightarrow> None)"
| "to_any_members [] acc = Some acc"
| "to_any_members ((k, v) # ms) acc = (case to_any v of None \<Rightarrow> None
     | Some x \<Rightarrow> to_any_members ms (AList.update k x acc))"

text \<open>\<open>json.Unmarshal(body, &out)\<close> for \<open>out := map[string]any{}\<close>; \<open>None\<close> is the error.\<close>

definition Unmarshal_map :: "string \<Rightarrow> (string \<times> gval) list option" where
  "Unmarshal_map body = (case parse_json body of
       Some (JsObject ms) \<Rightarrow> to_any_members ms []
     | Some JsNull \<Rightarrow> Some []
     | _ \<Rightarrow> None)"

text \<open>
  \<open>json.Unmarshal\<close> into a struct: the value a field of type \<open>string\<close> has afterwards. Names match up to case
  (with the two code points outside ASCII that fold to a letter); a member of another type leaves
  the field alone, and a syntax error leaves the whole struct alone.
\<close>

definition upper :: "char \<Rightarrow> char" where
  "upper c = (if byte_in CHR ''a'' CHR ''z'' c then char_of (byte c - 32) else c)"

fun fold_name :: "string \<Rightarrow> string" where
  "fold_name [] = []"
| "fold_name (c # cs) =
     (if take 2 (c # cs) = [CHR 0xC5, CHR 0xBF] then CHR ''S'' # fold_name (drop 1 cs)
      else if take 3 (c # cs) = [CHR 0xE2, CHR 0x84, CHR 0xAA] then CHR ''K'' # fold_name (drop 2 cs)
      else upper c # fold_name cs)"

fun string_field :: "string \<Rightarrow> (string \<times> js) list \<Rightarrow> string \<Rightarrow> string" where
  "string_field name [] cur = cur"
| "string_field name ((k, v) # ms) cur = string_field name ms
     (case v of JsString s \<Rightarrow> if fold_name k = fold_name name then s else cur | _ \<Rightarrow> cur)"

definition Unmarshal_field :: "string \<Rightarrow> string \<Rightarrow> string" where
  "Unmarshal_field name body = (case parse_json body of
       Some (JsObject ms) \<Rightarrow> string_field name ms [] | _ \<Rightarrow> [])"


subsection \<open>The fuel is enough\<close>

lemma length_skip_ws: "length (skip_ws s) \<le> length s"
  by (induction s) auto

lemma token_shorter: "token c s = Some r \<Longrightarrow> length r < length s"
  using length_skip_ws [of s] by (auto simp: token_def split: list.splits if_splits)

lemma parse_string_shorter: "parse_string s = Some (t, r) \<Longrightarrow> length r < length s"
proof (induction s arbitrary: t r rule: parse_string.induct)
  case (1 s)
  show ?case
  proof (cases s)
    case Nil
    with "1.prems" show ?thesis by (simp add: parse_string.simps)
  next
    case (Cons c cs)
    note prems = "1.prems" [unfolded Cons parse_string.simps [of "c # cs"]]
    show ?thesis
      using prems Cons 1(1-4)
      by (simp split: if_splits list.splits option.splits prod.splits)
        (fastforce simp: less_Suc_eq_le dest: less_imp_le_nat intro: order.trans)+
  qed
qed

lemma parse_int_part_shorter: "parse_int_part s = Some (i, r) \<Longrightarrow> length r < length s"
  by (cases s) (auto simp: parse_int_part_def take_digits_def le_imp_less_Suc length_dropWhile_le
    split: if_splits)

lemma parse_frac_shorter: "parse_frac s = Some (f, r) \<Longrightarrow> length r \<le> length s"
  by (cases s) (auto simp: parse_frac_def take_digits_def le_SucI length_dropWhile_le split: if_splits)

lemma parse_exp_shorter: "parse_exp s = Some (e, r) \<Longrightarrow> length r \<le> length s"
proof (cases s)
  case (Cons c cs)
  moreover have "length (dropWhile is_digit (tl t)) \<le> length t" for t
    by (rule order.trans [OF length_dropWhile_le]) simp
  from this [of cs] have "length (dropWhile is_digit (tl cs)) \<le> Suc (length cs)" by linarith
  ultimately show "parse_exp s = Some (e, r) \<Longrightarrow> length r \<le> length s"
    using length_dropWhile_le [of is_digit cs]
    by (auto simp: parse_exp_def take_digits_def Let_def split: if_splits list.splits prod.splits)
qed (simp add: parse_exp_def)

lemma parse_number_shorter:
  assumes "parse_number s = Some (v, r)"
  shows "length r < length s"
proof -
  define t where "t = (if s \<noteq> [] \<and> hd s = CHR ''-'' then tl s else s)"
  have "length t \<le> length s" by (simp add: t_def)
  moreover obtain i s1 f s2 e where "parse_int_part t = Some (i, s1)" "parse_frac s1 = Some (f, s2)"
    "parse_exp s2 = Some (e, r)"
    using assms by (auto simp: parse_number_def t_def Let_def split: if_splits option.splits)
  ultimately show ?thesis
    using parse_int_part_shorter parse_frac_shorter parse_exp_shorter by fastforce
qed

lemma parse_shorter:
  "parse_value n d s = Some (v, r) \<Longrightarrow> length r < length s"
  "parse_elems n d s = Some (vs, r) \<Longrightarrow> length r < length s"
  "parse_members n d s = Some (ms, r) \<Longrightarrow> length r < length s"
proof (induction n d s and n d s and n d s arbitrary: v r and vs r and ms r
    rule: parse_value_parse_elems_parse_members.induct)
  case (2 n d s)
  obtain c cs where s: "skip_ws s = c # cs" using "2.prems" by (auto split: list.splits)
  then have "Suc (length cs) \<le> length s" using length_skip_ws [of s] by simp
  moreover have "length r < Suc (length cs)"
    using "2.prems" "2.IH" [OF s] s
    by (auto split: if_splits option.splits dest!: parse_string_shorter token_shorter parse_number_shorter
      intro: less_SucI)
  ultimately show ?case by linarith
next
  case (4 n d s)
  then show ?case
    by (fastforce split: option.splits prod.splits dest: token_shorter)
next
  case (6 n d s)
  then show ?case
    by (fastforce split: option.splits prod.splits dest: token_shorter parse_string_shorter)
qed simp_all

text \<open>From \<open>2 * length s + 2\<close> on, more fuel does not change the result.\<close>

lemmas parse_Suc = parse_value.simps(2) parse_elems.simps(2) parse_members.simps(2)

declare parse_Suc [simp del]

lemma more_fuel:
  "2 * length s + 1 \<le> n \<Longrightarrow> parse_value n d s = parse_value (Suc n) d s"
  "2 * length s + 2 \<le> n \<Longrightarrow> parse_elems n d s = parse_elems (Suc n) d s"
  "2 * length s + 2 \<le> n \<Longrightarrow> parse_members n d s = parse_members (Suc n) d s"
proof (induction n d s and n d s and n d s rule: parse_value_parse_elems_parse_members.induct)
  case (2 n d s)
  note step = parse_value.simps(2) [of "Suc n" d s] parse_value.simps(2) [of n d s]
  show ?case
  proof (cases "skip_ws s")
    case (Cons c cs)
    then have "2 * length cs + 2 \<le> n" using length_skip_ws [of s] "2.prems" by simp
    with "2.IH" [OF Cons] Cons show ?thesis by (auto simp: step split: option.splits)
  qed (simp add: step)
next
  case (4 n d s)
  have v: "parse_value (Suc n) d s = parse_value n d s"
    using 4 by simp
  note step = parse_elems.simps(2) [of "Suc n" d s] parse_elems.simps(2) [of n d s]
  show ?case
  proof (cases "parse_value n d s")
    case None
    then show ?thesis using v by (simp add: step)
  next
    case (Some vr)
    obtain x r where vr: "vr = (x, r)" by (cases vr)
    have r: "length r < length s" using Some vr parse_shorter(1) by blast
    show ?thesis
    proof (cases "token (CHR '']'') r = None \<and> token (CHR '','') r \<noteq> None")
      case True
      then obtain r' where r': "token (CHR '']'') r = None" "token (CHR '','') r = Some r'" by auto
      then have "2 * length r' + 2 \<le> n" using token_shorter [OF r'(2)] r "4.prems" by simp
      with "4.IH"(2) [OF Some vr [symmetric] r'] v Some vr r' show ?thesis by (simp add: step)
    next
      case False
      then show ?thesis using v Some vr by (auto simp: step split: option.splits)
    qed
  qed
next
  case (6 n d s)
  note step = parse_members.simps(2) [of "Suc n" d s] parse_members.simps(2) [of n d s]
  show ?case
  proof (cases "token (CHR 0x22) s")
    case (Some cs)
    note cs = this
    show ?thesis
    proof (cases "parse_string cs")
      case (Some kr)
      obtain k r where kr: "kr = (k, r)" by (cases kr)
      show ?thesis
      proof (cases "token (CHR '':'') r")
        case (Some q)
        have q: "length q + 3 \<le> length s"
          using token_shorter [OF cs] parse_string_shorter [of cs k r] token_shorter [OF Some]
            \<open>parse_string cs = Some kr\<close> kr by simp
        then have v: "parse_value (Suc n) d q = parse_value n d q"
          using "6.IH"(1) [OF cs \<open>parse_string cs = Some kr\<close> kr [symmetric] Some] "6.prems" by simp
        show ?thesis
        proof (cases "parse_value n d q")
          case None
          then show ?thesis using cs \<open>parse_string cs = Some kr\<close> kr Some v by (simp add: step)
        next
          case (Some vr)
          obtain x u where vr: "vr = (x, u)" by (cases vr)
          have u: "length u < length q" using Some vr parse_shorter(1) by blast
          show ?thesis
          proof (cases "token (CHR ''}'') u = None \<and> token (CHR '','') u \<noteq> None")
            case True
            then obtain u' where u': "token (CHR ''}'') u = None" "token (CHR '','') u = Some u'" by auto
            then have "2 * length u' + 2 \<le> n" using token_shorter [OF u'(2)] u q "6.prems" by simp
            with "6.IH"(2) [OF cs \<open>parse_string cs = Some kr\<close> kr [symmetric] \<open>token (CHR '':'') r = Some q\<close> Some vr [symmetric] u']
              v Some vr u' cs \<open>parse_string cs = Some kr\<close> kr \<open>token (CHR '':'') r = Some q\<close>
            show ?thesis by (simp add: step)
          next
            case False
            then show ?thesis
              using v Some vr cs \<open>parse_string cs = Some kr\<close> kr \<open>token (CHR '':'') r = Some q\<close>
              by (auto simp: step split: option.splits)
          qed
        qed
      qed (use cs \<open>parse_string cs = Some kr\<close> kr in \<open>simp add: step\<close>)
    qed (use cs in \<open>simp add: step\<close>)
  qed (simp add: step)
qed simp_all

lemma parse_fuel_enough:
  assumes "2 * length s + 1 \<le> n"
  shows "parse_value (n + k) d s = parse_value n d s"
proof (induction k)
  case (Suc k)
  have "parse_value (n + k) d s = parse_value (Suc (n + k)) d s"
    using assms by (intro more_fuel) simp
  with Suc show ?case by simp
qed simp

lemma parse_json_fuel:
  assumes "2 * length s + 1 \<le> n"
  shows "parse_json s = (case parse_value n 0 s of
     None \<Rightarrow> None | Some (v, r) \<Rightarrow> if skip_ws r = [] then Some v else None)"
proof -
  have "parse_value n 0 s = parse_value (2 * length s + 1) 0 s"
    using parse_fuel_enough [of s "2 * length s + 1" "n - (2 * length s + 1)" 0] assms by simp
  moreover have "parse_value (2 * length s + 2) 0 s = parse_value (2 * length s + 1) 0 s"
    using parse_fuel_enough [of s "2 * length s + 1" 1 0] by simp
  ultimately show ?thesis by (simp add: parse_json_def)
qed

subsection \<open>Reading what the gateway prints\<close>

definition plain :: "char \<Rightarrow> bool" where
  "plain c \<longleftrightarrow> 0x20 \<le> byte c \<and> byte c < 0x7F \<and> c \<noteq> CHR 0x22 \<and> c \<noteq> CHR 0x5C"

lemma Quote_plain:
  assumes "list_all plain s"
  shows "Quote s = CHR 0x22 # s @ [CHR 0x22]"
proof -
  have "quote_byte c = [c]" if "plain c" for c
  proof -
    have "byte c \<noteq> 34" "byte c \<noteq> 92"
      using that of_char_eq_iff [of c "CHR 0x22", where 'a = nat] of_char_eq_iff [of c "CHR 0x5C", where 'a = nat]
      by (auto simp: plain_def)
    with that show ?thesis by (simp add: quote_byte_def plain_def)
  qed
  with assms have "concat (map quote_byte s) = s" by (induction s) auto
  then show ?thesis by (simp add: Quote_def)
qed

lemma parse_string_quote: "parse_string (CHR 0x22 # s) = Some ([], s)"
  by (simp add: parse_string.simps)

lemma parse_string_Cons: "plain c \<Longrightarrow> parse_string (c # s) = map_option (apfst ((#) c)) (parse_string s)"
proof -
  assume "plain c"
  moreover have "(@) [c] = (#) c" by (simp add: fun_eq_iff)
  ultimately show ?thesis by (simp add: plain_def rune_len_def parse_string.simps [of "c # s"])
qed

lemma parse_string_plain:
  "list_all plain s \<Longrightarrow> parse_string (s @ CHR 0x22 # r) = Some (s, r)"
  by (induction s) (simp_all add: parse_string_quote parse_string_Cons)

text \<open>Rules that read a text of known shape: its fuel as a number of successors.\<close>

lemma parse_json_Suc:
  assumes "6 \<le> length s"
  shows "\<exists>m. parse_json s = (case parse_value (Suc (Suc (Suc (Suc (Suc (Suc (Suc (Suc (Suc (Suc (Suc (Suc m)))))))))))) 0 s of
     None \<Rightarrow> None | Some (v, r) \<Rightarrow> if skip_ws r = [] then Some v else None)"
proof -
  have "2 * length s + 2 = Suc (Suc (Suc (Suc (Suc (Suc (Suc (Suc (Suc (Suc (Suc (Suc (2 * length s - 10))))))))))))"
    using assms by simp
  then show ?thesis unfolding parse_json_def by metis
qed

lemma parse_value_head:
  "parse_value (Suc n) d (CHR ''{'' # s) = (if max_nesting \<le> d then None
     else (case token (CHR ''}'') s of Some r \<Rightarrow> Some (JsObject [], r)
       | None \<Rightarrow> map_option (apfst JsObject) (parse_members n (Suc d) s)))"
  "parse_value (Suc n) d (CHR 0x22 # s) = map_option (apfst JsString) (parse_string s)"
  "parse_value (Suc n) d (''true'' @ s) = Some (JsBool True, s)"
  "parse_value (Suc n) d (''false'' @ s) = Some (JsBool False, s)"
  by (simp_all add: parse_Suc HasPrefix_def)

lemmas parse_text = parse_value_head [unfolded append.simps] parse_Suc(2,3) token_def parse_string_quote
  parse_string_Cons plain_def max_nesting_def

lemma show_nat_no_leading_zero: "0 < n \<Longrightarrow> hd (show_nat n) \<noteq> CHR ''0''"
proof (induction n rule: show_nat.induct)
  case (1 n)
  have "digit d \<noteq> CHR ''0''" if "0 < d" "d < 10" for d
    using that of_char_digit [of d] by auto
  with 1 show ?case
    using show_nat_digits [of "n div 10"] by (cases "n < 10") (simp_all add: show_nat.simps [of n])
qed

lemma takeWhile_digits:
  "list_all is_digit ds \<Longrightarrow> r = [] \<or> \<not> is_digit (hd r) \<Longrightarrow> take_digits (ds @ r) = (ds, r)"
  by (cases r) (auto simp: take_digits_def list_all_iff)

lemma parse_int_part_show:
  assumes "r = [] \<or> \<not> is_digit (hd r)"
  shows "parse_int_part (show_nat n @ r) = Some (n, r)"
proof (cases "n = 0")
  case True
  moreover have "digit 0 = CHR ''0''" by code_simp
  ultimately show ?thesis by (simp add: parse_int_part_def show_nat.simps [of 0])
next
  case False
  obtain c cs where c: "show_nat n = c # cs" "is_digit c" using show_nat_head by blast
  moreover have "c \<noteq> CHR ''0''" using show_nat_no_leading_zero [of n] False c(1) by simp
  moreover have "take_digits (show_nat n @ r) = (show_nat n, r)"
    using takeWhile_digits assms show_nat_digits by blast
  moreover have "digits_val (c # cs) = n" using digits_val_show_nat [of n] c(1) by simp
  ultimately show ?thesis by (simp add: parse_int_part_def)
qed

lemma parse_number_show:
  assumes "r = [] \<or> hd r \<notin> set ''.eE'' \<and> \<not> is_digit (hd r)"
  shows "parse_number (show_int i @ r) = Some (of_int i, r)"
proof -
  have r: "parse_frac r = Some ([], r)" "parse_exp r = Some (0, r)"
    using assms by (auto simp: parse_frac_def parse_exp_def split: list.splits)
  have "r = [] \<or> \<not> is_digit (hd r)" using assms by blast
  then have nat: "parse_int_part (show_nat n @ r) = Some (n, r)" for n
    by (rule parse_int_part_show)
  obtain c cs where c: "show_nat (nat i) = c # cs" "is_digit c" using show_nat_head by blast
  then have "c \<noteq> CHR ''-''" by (auto simp: is_digit_def less_eq_char_def)
  with c nat [of "nat i"] nat [of "nat (- i)"] r show ?thesis
    by (simp add: parse_number_def show_int_def scaled_def digits_val_def Let_def)
qed

lemma show_int_head: "\<exists>c cs. show_int i = c # cs \<and> (is_digit c \<or> c = CHR ''-'')"
  using show_nat_head [of "nat i"] by (auto simp: show_int_def)

lemma parse_value_show:
  assumes "hd r \<notin> set ''.eE''" and "\<not> is_digit (hd r)"
  shows "parse_value (Suc n) d (show_int i @ r) = Some (JsNumber (of_int i), r)"
proof -
  obtain c cs where c: "show_int i = c # cs" "is_digit c \<or> c = CHR ''-''" using show_int_head by blast
  then have "c \<noteq> CHR 0x22" "c \<noteq> CHR ''{''" "c \<noteq> CHR ''[''" "c \<noteq> CHR ''t''" "c \<noteq> CHR ''f''" "c \<noteq> CHR ''n''"
    "c \<notin> {CHR '' '', CHR 0x09, CHR 0x0A, CHR 0x0D}"
    by (auto simp: is_digit_def less_eq_char_def)
  with c(1) parse_number_show [of r i] assms show ?thesis by (auto simp: parse_Suc HasPrefix_def)
qed

end
