(* ===== verification/Kube_Objects.thy ===== *)
theory Kube_Objects
  imports Json Go_Time "HOL-Library.Monad_Syntax"
begin

text \<open>
  How \<open>kubebackend\<close> reads Kubernetes objects: the accessors at the head of \<open>transform.go\<close>, on the values that
  the JSON decoder stores (a \<open>map[string]any\<close> is an association list with distinct keys; a nil map or slice
  reads as an empty one), and \<open>parseTimestamp\<close> with the parser of Go's \<open>time\<close> package for \<open>time.RFC3339\<close>.
\<close>

type_synonym object = "(string \<times> gval) list"

subsection \<open>Accessors\<close>

definition lookup :: "object \<Rightarrow> string \<Rightarrow> gval" where
  "lookup m k = (case map_of m k of None \<Rightarrow> VNil | Some v \<Rightarrow> v)"

fun walk :: "gval \<Rightarrow> string list \<Rightarrow> gval" where
  "walk cur [] = cur"
| "walk cur (seg # path) = (case cur of VMap m \<Rightarrow> walk (lookup m seg) path | _ \<Rightarrow> VNil)"

definition valueAt :: "object \<Rightarrow> string list \<Rightarrow> gval" where
  "valueAt src path = walk (VMap src) path"

fun as_object :: "gval \<Rightarrow> object option" where
  "as_object (VMap m) = Some m"
| "as_object v = None"

text \<open>The elements of a list that are objects: \<open>m, ok := x.(map[string]any); if !ok { continue }\<close>.\<close>

definition objects :: "gval list \<Rightarrow> object list" where
  "objects vs = List.map_filter as_object vs"

definition listItems :: "object \<Rightarrow> object list" where
  "listItems response = (case lookup response ''items'' of VList raw \<Rightarrow> objects raw | _ \<Rightarrow> [])"

definition stringAt :: "object \<Rightarrow> string list \<Rightarrow> string" where
  "stringAt src path = (case valueAt src path of VString s \<Rightarrow> s | _ \<Rightarrow> '''')"

definition boolAt :: "object \<Rightarrow> string list \<Rightarrow> bool" where
  "boolAt src path = (case valueAt src path of VBool b \<Rightarrow> b | _ \<Rightarrow> False)"

text \<open>
  The conversion \<open>int(x)\<close> of a \<open>float64\<close> drops the fraction. Where the result does not fit, Go leaves it to
  the platform; on amd64 it is the smallest integer.
\<close>

definition int_of_float :: "real \<Rightarrow> int" where
  "int_of_float x = (let i = (if 0 \<le> x then \<lfloor>x\<rfloor> else \<lceil>x\<rceil>)
     in if int_min \<le> i \<and> i \<le> int_max then i else int_min)"

definition intAt :: "object \<Rightarrow> string list \<Rightarrow> int" where
  "intAt src path = (case valueAt src path of
       VFloat x \<Rightarrow> int_of_float x
     | VInt x \<Rightarrow> x
     | VString s \<Rightarrow> (case Atoi s of Some n \<Rightarrow> n | None \<Rightarrow> 0)
     | _ \<Rightarrow> 0)"

definition mapAt :: "object \<Rightarrow> string list \<Rightarrow> (string \<times> string) list" where
  "mapAt src path = (case valueAt src path of
       VMap m \<Rightarrow> map (\<lambda>(k, v). (k, case v of VString s \<Rightarrow> s | _ \<Rightarrow> '''')) m
     | _ \<Rightarrow> [])"

definition listAt :: "object \<Rightarrow> string list \<Rightarrow> gval list" where
  "listAt src path = (case valueAt src path of VList l \<Rightarrow> l | _ \<Rightarrow> [])"

definition resourceKey :: "string \<Rightarrow> string \<Rightarrow> string" where
  "resourceKey namespace name = namespace @ ''/'' @ name"

definition resourceID :: "string \<Rightarrow> string \<Rightarrow> string \<Rightarrow> string" where
  "resourceID prefix namespace name = prefix @ '':'' @ namespace @ ''/'' @ name"

definition orDefault :: "string \<Rightarrow> string \<Rightarrow> string" where
  "orDefault v def = (if v = '''' then def else v)"

definition stringPtr :: "string \<Rightarrow> string option" where
  "stringPtr s = (if s = '''' then None else Some s)"

lemma int_of_float_range: "int_min \<le> int_of_float x \<and> int_of_float x \<le> int_max"
  by (simp add: int_of_float_def Let_def)

lemma intAt_range:
  assumes "\<And>i. valueAt src path \<noteq> VInt i"
  shows "int_min \<le> intAt src path \<and> intAt src path \<le> int_max"
  using assms int_of_float_range
  by (auto simp: intAt_def Atoi_def Let_def split: gval.splits option.splits if_splits prod.splits)

lemma int_of_float_of_int: "int_min \<le> i \<Longrightarrow> i \<le> int_max \<Longrightarrow> int_of_float (of_int i) = i"
  by (simp add: int_of_float_def)

lemma keys_mapAt_distinct:
  "(\<And>m. valueAt src path = VMap m \<Longrightarrow> distinct_keys m) \<Longrightarrow> distinct_keys (mapAt src path)"
  by (auto simp: mapAt_def comp_def case_prod_beta split: gval.splits)

subsection \<open>Timestamps\<close>

text \<open>The number of days from the epoch to a civil date.\<close>

definition days_from_civil :: "int \<Rightarrow> int \<Rightarrow> int \<Rightarrow> int" where
  "days_from_civil y m d =
     (let y = (if m \<le> 2 then y - 1 else y);
          era = y div 400;
          yoe = y mod 400;
          doy = (153 * (if 2 < m then m - 3 else m + 9) + 2) div 5 + d - 1;
          doe = yoe * 365 + yoe div 4 - yoe div 100 + doy
      in era * 146097 + doe - 719468)"

definition days_in :: "int \<Rightarrow> int \<Rightarrow> int" where
  "days_in m y = (if m = 2 then if y mod 4 = 0 \<and> (y mod 100 \<noteq> 0 \<or> y mod 400 = 0) then 29 else 28
     else if m \<in> {4, 6, 9, 11} then 30 else 31)"

text \<open>The first \<open>n\<close> bytes as a number, when they are digits.\<close>

definition digits_fixed :: "nat \<Rightarrow> string \<Rightarrow> (int \<times> string) option" where
  "digits_fixed n s = (if n \<le> length s \<and> list_all is_digit (take n s)
     then Some (int (digits_val (take n s)), drop n s) else None)"

definition literal :: "char \<Rightarrow> string \<Rightarrow> string option" where
  "literal c s = (case s of [] \<Rightarrow> None | x # r \<Rightarrow> if x = c then Some r else None)"

definition in_bounds :: "int \<Rightarrow> int \<Rightarrow> int \<Rightarrow> unit option" where
  "in_bounds lo hi x = (if lo \<le> x \<and> x \<le> hi then Some () else None)"

text \<open>The hour may have one digit only.\<close>

definition digits_hour :: "string \<Rightarrow> (int \<times> string) option" where
  "digits_hour s = (case digits_fixed 2 s of Some r \<Rightarrow> Some r | None \<Rightarrow> digits_fixed 1 s)"

text \<open>A fraction of a second is accepted after the seconds; digits beyond the ninth are dropped.\<close>

definition fraction :: "string \<Rightarrow> int \<times> string" where
  "fraction s = (case s of
       p # d # r \<Rightarrow>
         if (p = CHR ''.'' \<or> p = CHR '','') \<and> is_digit d
         then (let ds = takeWhile is_digit (d # r); ns = take 9 ds
               in (int (digits_val ns) * 10 ^ (9 - length ns), dropWhile is_digit (d # r)))
         else (0, s)
     | _ \<Rightarrow> (0, s))"

text \<open>The zone: \<open>Z\<close> or an offset, in seconds.\<close>

definition zone :: "string \<Rightarrow> (int \<times> string) option" where
  "zone s = (case s of [] \<Rightarrow> None | c # r \<Rightarrow>
     if c = CHR ''Z'' then Some (0, r)
     else if c = CHR ''+'' \<or> c = CHR ''-'' then do {
       (h, r) \<leftarrow> digits_fixed 2 r;
       r \<leftarrow> literal (CHR '':'') r;
       (m, r) \<leftarrow> digits_fixed 2 r;
       _ \<leftarrow> in_bounds 0 24 h;
       _ \<leftarrow> in_bounds 0 60 m;
       Some ((if c = CHR ''-'' then - 1 else 1) * ((h * 60 + m) * 60), r) }
     else None)"

text \<open>\<open>time.Parse(time.RFC3339, s)\<close>; \<open>None\<close> is the error.\<close>

definition Parse_RFC3339 :: "string \<Rightarrow> time option" where
  "Parse_RFC3339 s = do {
     (y, s) \<leftarrow> digits_fixed 4 s;
     s \<leftarrow> literal (CHR ''-'') s;
     (mon, s) \<leftarrow> digits_fixed 2 s;
     _ \<leftarrow> in_bounds 1 12 mon;
     s \<leftarrow> literal (CHR ''-'') s;
     (d, s) \<leftarrow> digits_fixed 2 s;
     s \<leftarrow> literal (CHR ''T'') s;
     (h, s) \<leftarrow> digits_hour s;
     _ \<leftarrow> in_bounds 0 23 h;
     s \<leftarrow> literal (CHR '':'') s;
     (mi, s) \<leftarrow> digits_fixed 2 s;
     _ \<leftarrow> in_bounds 0 59 mi;
     s \<leftarrow> literal (CHR '':'') s;
     (sec, s) \<leftarrow> digits_fixed 2 s;
     _ \<leftarrow> in_bounds 0 59 sec;
     let (ns, s) = fraction s;
     (off, s) \<leftarrow> zone s;
     _ \<leftarrow> (if s = [] then Some () else None);
     _ \<leftarrow> in_bounds 1 (days_in mon y) d;
     Some ((days_from_civil y mon d * 86400 + h * 3600 + mi * 60 + sec - off) * Second + ns) }"

definition parseTimestamp :: "gval \<Rightarrow> time" where
  "parseTimestamp v = (case v of
       VString s \<Rightarrow> if s = '''' then zero_time else
         (case Parse_RFC3339 s of None \<Rightarrow> zero_time | Some t \<Rightarrow> t)
     | _ \<Rightarrow> zero_time)"

definition IsZero :: "time \<Rightarrow> bool" where
  "IsZero t \<longleftrightarrow> t = zero_time"

lemma parse_examples:
  "Parse_RFC3339 ''2025-12-31T23:59:59Z'' = Some (1767225599 * Second)"
  "Parse_RFC3339 ''2024-02-29T00:00:00.5-01:30'' = Some (1709170200 * Second + 500 * Millisecond)"
  "Parse_RFC3339 ''2023-02-29T00:00:00Z'' = None"
  "Parse_RFC3339 ''0001-01-01T00:00:00Z'' = Some zero_time"
  by code_simp+

end
