(* ===== verification/Rest_Client.thy ===== *)
theory Rest_Client
  imports Kubeconfig Kube_Objects
begin

text \<open>
  \<open>kubebackend/rest_client.go\<close>: the client of the Kubernetes API server. The exchange of one request for a
  status and a body is the field \<open>rc_Do\<close> of the client: Go's \<open>http.Client.Do\<close> followed by reading the body, over
  the state \<open>'w\<close> of the world outside. Its error is a transport error, or one of reading the body of a
  response with a status. The text of the JSON decoder's error for a body is the field
  \<open>rc_decode_error\<close>. The context of a request is part of the world.

  What the client's connections verify and present is the record \<open>tls_config\<close>. Go's certificate parsing is
  two parameters of \<open>NewRestClient\<close>: whether PEM data holds a certificate (\<open>AppendCertsFromPEM\<close>) and
  whether a certificate and a key load as a pair (\<open>X509KeyPair\<close>).
\<close>

text \<open>The TLS version 1.2 is \<open>0x0303\<close>; the system's certificate authorities are used where \<open>RootCAs\<close> is \<open>None\<close>.\<close>

record tls_config =
  tls_MinVersion :: int
  tls_InsecureSkipVerify :: bool
  tls_RootCAs :: "string option"
  tls_Certificates :: "(string \<times> string) list"

record http_transport =
  tr_TLSClientConfig :: tls_config
  tr_MaxIdleConnsPerHost :: int
  tr_Timeout :: time

record 'w rest_client =
  rc_baseURL :: url
  rc_bearerToken :: string
  rc_Do :: "http_request \<Rightarrow> 'w \<Rightarrow> (go_error + int \<times> (go_error + string)) \<times> 'w"
  rc_decode_error :: "string \<Rightarrow> go_error"

subsection \<open>Construction\<close>

definition tls_config_for :: "(string \<Rightarrow> bool) \<Rightarrow> (string \<Rightarrow> string \<Rightarrow> go_error option) \<Rightarrow> resolved_cluster \<Rightarrow>
    go_error + tls_config" where
  "tls_config_for AppendCertsFromPEM X509KeyPair cluster =
     (let cfg = \<lparr>tls_MinVersion = 0x0303, tls_InsecureSkipVerify = False, tls_RootCAs = None, tls_Certificates = []\<rparr>
      in case (if res_InsecureSkipTLS cluster then Inr (cfg\<lparr>tls_InsecureSkipVerify := True\<rparr>)
               else if 0 < length (res_CAData cluster) then
                 if \<not> AppendCertsFromPEM (res_CAData cluster)
                 then Inl (ErrorString ''CA data did not parse as PEM certificates'')
                 else Inr (cfg\<lparr>tls_RootCAs := Some (res_CAData cluster)\<rparr>)
               else Inr cfg) of
           Inl e \<Rightarrow> Inl e
         | Inr cfg \<Rightarrow>
             if 0 < length (res_ClientCertData cluster) then
               (case X509KeyPair (res_ClientCertData cluster) (res_ClientKeyData cluster) of
                  Some e \<Rightarrow> Inl (Errorf ''load client certificate: '' e '''')
                | None \<Rightarrow> Inr (cfg\<lparr>tls_Certificates := [(res_ClientCertData cluster, res_ClientKeyData cluster)]\<rparr>))
             else Inr cfg)"

definition NewRestClient :: "(string \<Rightarrow> bool) \<Rightarrow> (string \<Rightarrow> string \<Rightarrow> go_error option) \<Rightarrow>
    (http_transport \<Rightarrow> http_request \<Rightarrow> 'w \<Rightarrow> (go_error + int \<times> (go_error + string)) \<times> 'w) \<Rightarrow>
    (string \<Rightarrow> go_error) \<Rightarrow> resolved_cluster option \<Rightarrow> go_error + 'w rest_client" where
  "NewRestClient AppendCertsFromPEM X509KeyPair Do decode_error cluster = (case cluster of
       None \<Rightarrow> Inl (ErrorString ''nil cluster'')
     | Some cluster \<Rightarrow>
         (case Parse (res_Server cluster) of
            Inl e \<Rightarrow> Inl (Errorf ''parse server url: '' e '''')
          | Inr base \<Rightarrow>
              if url_Scheme base = '''' \<or> url_Host base = '''' then
                Inl (ErrorString (''server url missing scheme or host: '' @ Quote (res_Server cluster)))
              else (case tls_config_for AppendCertsFromPEM X509KeyPair cluster of
                  Inl e \<Rightarrow> Inl e
                | Inr tlsConfig \<Rightarrow>
                    Inr \<lparr>rc_baseURL = base, rc_bearerToken = res_BearerToken cluster,
                         rc_Do = Do \<lparr>tr_TLSClientConfig = tlsConfig, tr_MaxIdleConnsPerHost = 8,
                                      tr_Timeout = 30 * Second\<rparr>,
                         rc_decode_error = decode_error\<rparr>)))"

subsection \<open>Errors of the API server\<close>

definition maxStatusMessage :: nat where
  "maxStatusMessage = 256"

definition ellipsis :: string where
  "ellipsis = [CHR 0xE2, CHR 0x80, CHR 0xA6]"

text \<open>The loop that backs up from \<open>cut\<close> to the start of a rune.\<close>

fun back_up :: "string \<Rightarrow> nat \<Rightarrow> nat" where
  "back_up m 0 = 0"
| "back_up m (Suc n) = (if \<not> RuneStart (m ! Suc n) then back_up m n else Suc n)"

definition newStatusError :: "int \<Rightarrow> string \<Rightarrow> go_error" where
  "newStatusError code body =
     (let reason = Unmarshal_field ''reason'' body;
          message = Unmarshal_field ''message'' body;
          reason = (if reason = '''' then StatusText code else reason);
          message = (if maxStatusMessage < length message
                     then take (back_up message maxStatusMessage) message @ ellipsis else message)
      in StatusError code reason message)"

definition isSuccess :: "int \<Rightarrow> bool" where
  "isSuccess status \<longleftrightarrow> 200 \<le> status \<and> status < 300"

subsection \<open>Requests\<close>

text \<open>The request that \<open>do\<close> builds, or the error when the joined path does not decode.\<close>

definition build_request :: "'w rest_client \<Rightarrow> string \<Rightarrow> string \<Rightarrow> (string \<times> string list) list \<Rightarrow> string \<Rightarrow>
    string option \<Rightarrow> go_error + http_request" where
  "build_request c method path query contentType body =
     (let u = rc_baseURL c;
          u = u\<lparr>url_RawPath := TrimSuffix (EscapedPath (rc_baseURL c)) ''/'' @ path\<rparr>
      in case PathUnescape (url_RawPath u) of
           None \<Rightarrow> Inl (Errorf (''invalid request path '' @ Quote path @ '': '')
                     (ErrorString ''invalid URL escape'') '''')
         | Some decoded \<Rightarrow>
             let u = u\<lparr>url_Path := decoded, url_RawQuery := Encode query\<rparr>
             in Inr \<lparr>req_Method = method, req_URL = url_String u, req_Accept = ''application/json'',
                     req_ContentType = contentType,
                     req_Authorization = (if rc_bearerToken c \<noteq> '''' then ''Bearer '' @ rc_bearerToken c else ''''),
                     req_Body = body\<rparr>)"

text \<open>\<open>do\<close>: the status and the body, or the error.\<close>

definition do_request :: "'w rest_client \<Rightarrow> string \<Rightarrow> string \<Rightarrow> (string \<times> string list) list \<Rightarrow> string \<Rightarrow>
    string option \<Rightarrow> 'w \<Rightarrow> (go_error + int \<times> string) \<times> 'w" where
  "do_request c method path query contentType body w =
     (case build_request c method path query contentType body of
        Inl e \<Rightarrow> (Inl e, w)
      | Inr req \<Rightarrow> (case rc_Do c req w of
            (Inl e, w) \<Rightarrow> (Inl (Errorf ''kube api request: '' e ''''), w)
          | (Inr (status, Inl e), w) \<Rightarrow> (Inl (Errorf ''read response body: '' e ''''), w)
          | (Inr (status, Inr respBody), w) \<Rightarrow> (Inr (status, respBody), w)))"

definition GetJSON :: "'w rest_client \<Rightarrow> string \<Rightarrow> (string \<times> string list) list \<Rightarrow> 'w \<Rightarrow>
    (go_error + object) \<times> 'w" where
  "GetJSON c path query w =
     (case do_request c ''GET'' path query '''' None w of
        (Inl e, w) \<Rightarrow> (Inl e, w)
      | (Inr (status, body), w) \<Rightarrow>
          (if \<not> isSuccess status then (Inl (newStatusError status body), w)
           else if length body = 0 then (Inr [], w)
           else (case Unmarshal_map body of
               None \<Rightarrow> (Inl (Errorf ''decode kube api response: '' (rc_decode_error c body) ''''), w)
             | Some out \<Rightarrow> (Inr out, w))))"

definition BaseURL :: "'w rest_client \<Rightarrow> string" where
  "BaseURL c = url_String (rc_baseURL c)"

definition Patch :: "'w rest_client \<Rightarrow> string \<Rightarrow> string \<Rightarrow> string \<Rightarrow> 'w \<Rightarrow> (go_error + string) \<times> 'w" where
  "Patch c path contentType body w =
     (case do_request c ''PATCH'' path [] contentType (Some body) w of
        (Inl e, w) \<Rightarrow> (Inl e, w)
      | (Inr (status, respBody), w) \<Rightarrow>
          (if \<not> isSuccess status then (Inl (newStatusError status respBody), w)
           else (Inr respBody, w)))"

definition Post :: "'w rest_client \<Rightarrow> string \<Rightarrow> string \<Rightarrow> string \<Rightarrow> 'w \<Rightarrow> (go_error + int \<times> string) \<times> 'w" where
  "Post c path contentType body w = do_request c ''POST'' path [] contentType (Some body) w"

subsection \<open>What is sent\<close>

text \<open>Where the paths of the API start: the server URL without a \<open>/\<close> at its end.\<close>

definition api_root :: "'w rest_client \<Rightarrow> string" where
  "api_root c = (let p = TrimSuffix (EscapedPath (rc_baseURL c)) ''/''
     in url_origin (rc_baseURL c) @ (if p \<noteq> [] \<and> hd p \<noteq> CHR ''/'' then ''/'' else '''') @ p)"

definition sent_query :: "'w rest_client \<Rightarrow> (string \<times> string list) list \<Rightarrow> string" where
  "sent_query c query = (if url_ForceQuery (rc_baseURL c) \<or> Encode query \<noteq> '''' then ''?'' @ Encode query else '''')
     @ (if url_Fragment (rc_baseURL c) \<noteq> '''' then ''#'' @ url_Fragment (rc_baseURL c) else '''')"

text \<open>A path that starts with \<open>/\<close> and is made of escaped segments.\<close>

definition api_path :: "string \<Rightarrow> bool" where
  "api_path p \<longleftrightarrow> p \<noteq> [] \<and> hd p = CHR ''/'' \<and> validEncoded p \<and> PathUnescape p \<noteq> None"

definition authorization :: "'w rest_client \<Rightarrow> string" where
  "authorization c = (if rc_bearerToken c \<noteq> '''' then ''Bearer '' @ rc_bearerToken c else '''')"

lemma build_request_api_path:
  assumes "api_path path"
  shows "build_request c method path query ct body = Inr \<lparr>req_Method = method,
    req_URL = api_root c @ path @ sent_query c query, req_Accept = ''application/json'', req_ContentType = ct,
    req_Authorization = authorization c, req_Body = body\<rparr>"
proof -
  define p where "p = TrimSuffix (EscapedPath (rc_baseURL c)) ''/''"
  obtain q where q: "PathUnescape p = Some q"
    using TrimSuffix_slash_unescapes [OF EscapedPath_unescapes] p_def by blast
  obtain r where r: "PathUnescape path = Some r" using assms by (auto simp: api_path_def)
  have dec: "PathUnescape (p @ path) = Some (q @ r)"
    by (simp add: PathUnescape_append [OF q] r)
  have "validEncoded (p @ path)"
    using assms EscapedPath_valid [of "rc_baseURL c"] by (simp add: p_def api_path_def validEncoded_TrimSuffix)
  then have "EscapedPath (rc_baseURL c\<lparr>url_RawPath := p @ path, url_Path := q @ r, url_RawQuery := qs\<rparr>) = p @ path"
    for qs
    using dec assms by (subst EscapedPath_raw) (auto simp: api_path_def)
  moreover have "(if p @ path \<noteq> [] \<and> hd (p @ path) \<noteq> CHR ''/'' then ''/'' else '''')
      = (if p \<noteq> [] \<and> hd p \<noteq> CHR ''/'' then ''/'' else '''')"
    using assms by (auto simp: api_path_def hd_append)
  ultimately show ?thesis
    using dec
    by (simp add: build_request_def Let_def url_String_def url_origin_def api_root_def sent_query_def
        authorization_def flip: p_def)
qed

definition api_request :: "'w rest_client \<Rightarrow> string \<Rightarrow> string \<Rightarrow> (string \<times> string list) list \<Rightarrow> string \<Rightarrow>
    string option \<Rightarrow> http_request" where
  "api_request c method path query ct body = \<lparr>req_Method = method, req_URL = api_root c @ path @ sent_query c query,
     req_Accept = ''application/json'', req_ContentType = ct, req_Authorization = authorization c, req_Body = body\<rparr>"

text \<open>What the operations of the client make of a response.\<close>

definition reply :: "go_error + int \<times> (go_error + string) \<Rightarrow> go_error + int \<times> string" where
  "reply resp = (case resp of
       Inl e \<Rightarrow> Inl (Errorf ''kube api request: '' e '''')
     | Inr (status, Inl e) \<Rightarrow> Inl (Errorf ''read response body: '' e '''')
     | Inr (status, Inr body) \<Rightarrow> Inr (status, body))"

definition reply_json :: "'w rest_client \<Rightarrow> go_error + int \<times> (go_error + string) \<Rightarrow> go_error + object" where
  "reply_json c resp = (case reply resp of
       Inl e \<Rightarrow> Inl e
     | Inr (status, body) \<Rightarrow>
         if \<not> isSuccess status then Inl (newStatusError status body)
         else if body = [] then Inr []
         else (case Unmarshal_map body of
             None \<Rightarrow> Inl (Errorf ''decode kube api response: '' (rc_decode_error c body) '''')
           | Some out \<Rightarrow> Inr out))"

definition reply_patch :: "go_error + int \<times> (go_error + string) \<Rightarrow> go_error + string" where
  "reply_patch resp = (case reply resp of
       Inl e \<Rightarrow> Inl e
     | Inr (status, body) \<Rightarrow> if \<not> isSuccess status then Inl (newStatusError status body) else Inr body)"

lemma do_api_request:
  "api_path path \<Longrightarrow> do_request c method path query ct body w =
     (let (resp, w) = rc_Do c (api_request c method path query ct body) w in (reply resp, w))"
  by (simp add: do_request_def build_request_api_path api_request_def reply_def split: prod.splits sum.splits)

lemma GetJSON_sends:
  "api_path path \<Longrightarrow> GetJSON c path query w =
     (let (resp, w) = rc_Do c (api_request c ''GET'' path query '''' None) w in (reply_json c resp, w))"
  by (simp add: GetJSON_def do_api_request reply_json_def split: prod.splits sum.splits option.splits)

lemma Patch_sends:
  "api_path path \<Longrightarrow> Patch c path ct body w =
     (let (resp, w) = rc_Do c (api_request c ''PATCH'' path [] ct (Some body)) w in (reply_patch resp, w))"
  by (simp add: Patch_def do_api_request reply_patch_def split: prod.splits sum.splits)

lemma Post_sends:
  "api_path path \<Longrightarrow> Post c path ct body w =
     (let (resp, w) = rc_Do c (api_request c ''POST'' path [] ct (Some body)) w in (reply resp, w))"
  by (simp add: Post_def do_api_request)

lemma api_path_append:
  assumes "api_path p" and "validEncoded s" and "PathUnescape s = Some t"
  shows "api_path (p @ s)"
proof -
  obtain r where "PathUnescape p = Some r" using assms(1) by (auto simp: api_path_def)
  from PathUnescape_append [OF this, of s] assms show ?thesis by (auto simp: api_path_def)
qed

lemma api_path_segment: "api_path p \<Longrightarrow> api_path (p @ PathEscape s)"
  by (rule api_path_append [OF _ validEncoded_PathEscape PathUnescape_PathEscape])

lemma path_safe_plain:
  assumes "list_all path_safe p"
  shows "PathUnescape p = Some p" and "validEncoded p"
proof -
  have "CHR ''%'' \<notin> set p" using assms path_safe_not_percent by (auto simp: list_all_iff)
  then show "PathUnescape p = Some p" by (rule PathUnescape_plain)
  show "validEncoded p" using assms by (auto simp: valid_encoded_for_def list_all_iff)
qed

lemma api_path_const:
  "p \<noteq> [] \<Longrightarrow> hd p = CHR ''/'' \<Longrightarrow> list_all path_safe p \<Longrightarrow> api_path p"
  by (simp add: api_path_def path_safe_plain)

lemma api_path_extend: "api_path p \<Longrightarrow> list_all path_safe s \<Longrightarrow> api_path (p @ s)"
  by (rule api_path_append) (simp_all add: path_safe_plain)

subsection \<open>The cap on messages\<close>

lemma back_up_le: "back_up m n \<le> n"
  by (induction n) auto

lemma back_up_start: "back_up m n = 0 \<or> RuneStart (m ! back_up m n)"
  by (induction n) auto

lemma back_up_nearest: "i \<le> n \<Longrightarrow> back_up m n < i \<Longrightarrow> \<not> RuneStart (m ! i)"
  by (induction n) (auto simp: le_Suc_eq split: if_splits)

text \<open>C39: connections are verified as configured. A client that is built talks to the cluster's server URL, which
  has a scheme and a host, with the cluster's token; it skips verification exactly when the kubeconfig
  says so; otherwise, given CA data, it trusts that CA and nothing else; it presents the client
  certificate exactly when there is one, and never speaks a TLS version below 1.2.\<close>

theorem NewRestClient_verifies:
  assumes "NewRestClient AppendCertsFromPEM X509KeyPair Do decode_error (Some cluster) = Inr c"
  shows "\<exists>cfg. rc_Do c = Do \<lparr>tr_TLSClientConfig = cfg, tr_MaxIdleConnsPerHost = 8, tr_Timeout = 30 * Second\<rparr>
    \<and> Parse (res_Server cluster) = Inr (rc_baseURL c)
    \<and> url_Scheme (rc_baseURL c) \<noteq> '''' \<and> url_Host (rc_baseURL c) \<noteq> ''''
    \<and> rc_bearerToken c = res_BearerToken cluster
    \<and> tls_InsecureSkipVerify cfg = res_InsecureSkipTLS cluster
    \<and> tls_RootCAs cfg = (if res_InsecureSkipTLS cluster \<or> res_CAData cluster = '''' then None
         else Some (res_CAData cluster))
    \<and> tls_Certificates cfg = (if res_ClientCertData cluster = '''' then []
         else [(res_ClientCertData cluster, res_ClientKeyData cluster)])
    \<and> tls_MinVersion cfg = 0x0303"
  using assms
  by (auto simp: NewRestClient_def tls_config_for_def Let_def split: sum.splits if_splits option.splits)

text \<open>A transport that answers every request with the certificate it would present.\<close>

definition demo_Do :: "http_transport \<Rightarrow> http_request \<Rightarrow> unit \<Rightarrow> (go_error + int \<times> (go_error + string)) \<times> unit" where
  "demo_Do tr r w = (Inl (ErrorString (fst (hd (tls_Certificates (tr_TLSClientConfig tr))))), w)"

theorem NewRestClient_verifies_witness:
  "\<exists>c. NewRestClient (\<lambda>_. True) (\<lambda>_ _. None) demo_Do ErrorString (Some demo_cluster) = Inr c
    \<and> rc_bearerToken c = ''abc'' \<and> (\<forall>r. fst (rc_Do c r ()) = Inl (ErrorString ''cert''))"
proof -
  have url: "Parse ''https://10.0.0.1:6443'' = Inr (empty_url\<lparr>url_Scheme := ''https'', url_Host := ''10.0.0.1:6443''\<rparr>)"
    by code_simp
  obtain c where "NewRestClient (\<lambda>_. True) (\<lambda>_ _. None) demo_Do ErrorString (Some demo_cluster) = Inr c"
    by (simp add: NewRestClient_def demo_cluster_def url tls_config_for_def empty_url_def)
  from this NewRestClient_verifies [OF this] show ?thesis by (auto simp: demo_cluster_def demo_Do_def)
qed

text \<open>What is kept of an error reply: the reason in full, and the message cut to 256 bytes and an ellipsis.\<close>

definition reply_reason :: "int \<Rightarrow> string \<Rightarrow> string" where
  "reply_reason code body = (let reason = Unmarshal_field ''reason'' body in if reason = '''' then StatusText code else reason)"

lemma newStatusError_cases:
  obtains message where "newStatusError code body = StatusError code (reply_reason code body) message"
    and "length message \<le> 259"
    and "message = Unmarshal_field ''message'' body
      \<or> (\<exists>k \<le> 256. message = take k (Unmarshal_field ''message'' body) @ ellipsis)"
proof -
  let ?m = "Unmarshal_field ''message'' body"
  have "back_up ?m 256 \<le> 256" by (rule back_up_le)
  then show ?thesis
    by (intro that [of "if 256 < length ?m then take (back_up ?m 256) ?m @ ellipsis else ?m"])
      (auto simp: newStatusError_def reply_reason_def maxStatusMessage_def ellipsis_def Let_def)
qed

text \<open>C38: an error reply is reduced to its code, a reason and a bounded message. Whatever the body, the message
  kept is at most 259 bytes: the decoded message itself when it has at most 256, else its longest prefix of
  at most 256 bytes that ends where a rune starts, followed by an ellipsis. The reason is never
  empty for a status code that has a standard text.\<close>

theorem status_error_bounded:
  "\<exists>reason message. newStatusError code body = StatusError code reason message
     \<and> length message \<le> 259
     \<and> (let m = Unmarshal_field ''message'' body in
         message = m \<and> length m \<le> 256
         \<or> 256 < length m \<and> (\<exists>k \<le> 256. message = take k m @ ellipsis \<and> (k = 0 \<or> RuneStart (m ! k))
              \<and> (\<forall>i. k < i \<and> i \<le> 256 \<longrightarrow> \<not> RuneStart (m ! i))))
     \<and> (reason = '''' \<longrightarrow> StatusText code = '''')"
proof -
  define m where "m = Unmarshal_field ''message'' body"
  define k where "k = back_up m 256"
  have k: "k \<le> 256" "k = 0 \<or> RuneStart (m ! k)" "\<forall>i. k < i \<and> i \<le> 256 \<longrightarrow> \<not> RuneStart (m ! i)"
    using back_up_le back_up_start back_up_nearest by (simp_all add: k_def) blast
  have "length (take k m @ ellipsis) \<le> 259" using k(1) by (simp add: ellipsis_def)
  with k show ?thesis
    by (auto simp: newStatusError_def maxStatusMessage_def Let_def simp flip: m_def k_def)
qed

theorem status_error_bounded_witness:
  "\<exists>message. newStatusError 403 (''{'' @ Quote ''message'' @ '':'' @ Quote ''no'' @ ''}'') =
     StatusError 403 ''Forbidden'' message \<and> length message \<le> 259"
proof -
  let ?b = "''{'' @ Quote ''message'' @ '':'' @ Quote ''no'' @ ''}''"
  have "Unmarshal_field ''reason'' ?b = ''''" "Unmarshal_field ''message'' ?b = ''no''" by code_simp+
  moreover have "StatusText 403 = ''Forbidden''" by (simp add: StatusText_def)
  ultimately have "newStatusError 403 ?b = StatusError 403 ''Forbidden'' ''no''"
    by (simp add: newStatusError_def maxStatusMessage_def)
  with status_error_bounded [of 403 ?b] show ?thesis by auto
qed

end
