(* ===== verification/Transform.thy ===== *)
theory Transform
  imports Kube_Objects Models
begin

text \<open>
  \<open>kubebackend/transform.go\<close>: a cluster snapshot from the raw lists of the API server. Go's maps are
  association lists; where the code visits a map, it sorts what it collects, so the visiting order
  does not show, and here it is the order of the list. A set of node names is a list without
  duplicates.
\<close>

subsection \<open>Constants\<close>

definition workloadKindDeployment :: string where "workloadKindDeployment = ''deployment''"
definition workloadKindDaemonSet :: string where "workloadKindDaemonSet = ''daemonSet''"
definition workloadKindStatefulSet :: string where "workloadKindStatefulSet = ''statefulSet''"
definition workloadKindJob :: string where "workloadKindJob = ''job''"

lemmas workload_kinds = workloadKindDeployment_def workloadKindDaemonSet_def workloadKindStatefulSet_def
  workloadKindJob_def

definition healthHealthy :: string where "healthHealthy = ''healthy''"
definition healthWarning :: string where "healthWarning = ''warning''"
definition healthCritical :: string where "healthCritical = ''critical''"

lemmas health_levels = healthHealthy_def healthWarning_def healthCritical_def

subsection \<open>Owners\<close>

record raw_lists =
  raw_nodes :: object
  raw_pods :: object
  raw_services :: object
  raw_deployments :: object
  raw_daemonSets :: object
  raw_statefulSets :: object
  raw_jobs :: object
  raw_replicaSets :: object

text \<open>The loop over the owner references of a replica set: the first named Deployment.\<close>

definition deployment_owner :: "object \<Rightarrow> string option" where
  "deployment_owner rs =
     (case find (\<lambda>m. stringAt m [''kind''] = ''Deployment'' \<and> stringAt m [''name''] \<noteq> '''')
             (objects (listAt rs [''metadata'', ''ownerReferences''])) of
        None \<Rightarrow> None | Some m \<Rightarrow> Some (stringAt m [''name'']))"

definition add_owner :: "object \<Rightarrow> (string \<times> string) list \<Rightarrow> (string \<times> string) list" where
  "add_owner rs owners =
     (let namespace = stringAt rs [''metadata'', ''namespace'']; name = stringAt rs [''metadata'', ''name'']
      in if namespace = '''' \<or> name = '''' then owners
         else (case deployment_owner rs of None \<Rightarrow> owners
           | Some depName \<Rightarrow> AList.update (resourceKey namespace name)
               (resourceID workloadKindDeployment namespace depName) owners))"

definition replicaSetOwnerMap :: "object list \<Rightarrow> (string \<times> string) list" where
  "replicaSetOwnerMap items = fold add_owner items []"

fun owner_workload :: "string \<Rightarrow> (string \<times> string) list \<Rightarrow> object list \<Rightarrow> string" where
  "owner_workload namespace replicaSetOwners [] = ''''"
| "owner_workload namespace replicaSetOwners (m # refs) =
     (let kind = stringAt m [''kind'']; name = stringAt m [''name'']
      in if name = '''' then owner_workload namespace replicaSetOwners refs
         else if kind = ''ReplicaSet'' then
           (case map_of replicaSetOwners (resourceKey namespace name) of None \<Rightarrow> '''' | Some wid \<Rightarrow> wid)
         else if kind = ''DaemonSet'' then resourceID workloadKindDaemonSet namespace name
         else if kind = ''StatefulSet'' then resourceID workloadKindStatefulSet namespace name
         else if kind = ''Job'' then resourceID workloadKindJob namespace name
         else owner_workload namespace replicaSetOwners refs)"

definition workloadIDForPod :: "object \<Rightarrow> (string \<times> string) list \<Rightarrow> string" where
  "workloadIDForPod pod replicaSetOwners =
     (let namespace = stringAt pod [''metadata'', ''namespace'']
      in if namespace = '''' then ''''
         else owner_workload namespace replicaSetOwners (objects (listAt pod [''metadata'', ''ownerReferences''])))"

subsection \<open>The pass over the pods\<close>

definition maxHealth :: "string \<Rightarrow> string \<Rightarrow> string" where
  "maxHealth current next' =
     (if current = '''' then next'
      else if current = healthCritical \<or> next' = healthCritical then healthCritical
      else if current = healthWarning \<or> next' = healthWarning then healthWarning
      else healthHealthy)"

record pod_pass =
  nodePodCounts :: "(string \<times> int) list"
  podWorkloadIDs :: "(string \<times> string) list"
  workloadNodeIDs :: "(string \<times> string list) list"
  workloadHealthSignals :: "(string \<times> string) list"

definition count_of :: "(string \<times> int) list \<Rightarrow> string \<Rightarrow> int" where
  "count_of m k = (case map_of m k of None \<Rightarrow> 0 | Some n \<Rightarrow> n)"

definition text_of :: "(string \<times> string) list \<Rightarrow> string \<Rightarrow> string" where
  "text_of m k = (case map_of m k of None \<Rightarrow> '''' | Some s \<Rightarrow> s)"

definition list_of :: "(string \<times> 'a list) list \<Rightarrow> string \<Rightarrow> 'a list" where
  "list_of m k = (case map_of m k of None \<Rightarrow> [] | Some s \<Rightarrow> s)"

definition add_node :: "string \<Rightarrow> string \<Rightarrow> (string \<times> string list) list \<Rightarrow> (string \<times> string list) list" where
  "add_node wid nodeName m =
     (let ids = list_of m wid in AList.update wid (if nodeName \<in> set ids then ids else ids @ [nodeName]) m)"

definition restarted :: "object \<Rightarrow> bool" where
  "restarted pod = list_ex (\<lambda>m. intAt m [''restartCount''] > 0
       \<or> stringAt m [''state'', ''waiting'', ''reason''] = ''CrashLoopBackOff'')
     (objects (listAt pod [''status'', ''containerStatuses'']))"

definition pod_phase :: "object \<Rightarrow> string" where
  "pod_phase pod = ToLower (stringAt pod [''status'', ''phase''])"

definition pod_signal :: "object \<Rightarrow> string" where
  "pod_signal pod =
     (let phase = pod_phase pod
      in if phase = ''running'' \<or> phase = ''succeeded'' then
           if restarted pod then healthWarning else healthHealthy
         else if phase = ''pending'' then healthWarning
         else healthCritical)"

text \<open>A Job's finished pods are counted and linked but give no health signal.\<close>

definition no_signal :: "string \<Rightarrow> object \<Rightarrow> bool" where
  "no_signal wid pod \<longleftrightarrow> HasPrefix wid (workloadKindJob @ '':'') \<and> (pod_phase pod = ''failed'' \<or> pod_phase pod = ''succeeded'')"

definition visit_pod :: "(string \<times> string) list \<Rightarrow> object \<Rightarrow> pod_pass \<Rightarrow> pod_pass" where
  "visit_pod replicaSetOwners pod p =
     (let nodeName = stringAt pod [''spec'', ''nodeName''];
          p = (if nodeName \<noteq> ''''
               then p\<lparr>nodePodCounts := AList.update nodeName (count_of (nodePodCounts p) nodeName + 1) (nodePodCounts p)\<rparr>
               else p);
          wid = workloadIDForPod pod replicaSetOwners
      in if wid = '''' then p
         else
           let namespace = stringAt pod [''metadata'', ''namespace'']; name = stringAt pod [''metadata'', ''name''];
               p = p\<lparr>podWorkloadIDs := AList.update (resourceKey namespace name) wid (podWorkloadIDs p)\<rparr>;
               p = (if nodeName \<noteq> '''' then p\<lparr>workloadNodeIDs := add_node wid nodeName (workloadNodeIDs p)\<rparr> else p)
           in if no_signal wid pod then p
              else p\<lparr>workloadHealthSignals := AList.update wid
                       (maxHealth (text_of (workloadHealthSignals p) wid) (pod_signal pod))
                       (workloadHealthSignals p)\<rparr>)"

definition empty_pass :: pod_pass where
  "empty_pass = \<lparr>nodePodCounts = [], podWorkloadIDs = [], workloadNodeIDs = [], workloadHealthSignals = []\<rparr>"

definition visit_pods :: "(string \<times> string) list \<Rightarrow> object list \<Rightarrow> pod_pass" where
  "visit_pods replicaSetOwners podItems = fold (visit_pod replicaSetOwners) podItems empty_pass"

definition add_labels :: "(string \<times> string) list \<Rightarrow> object \<Rightarrow> (string \<times> (string \<times> string) list list) list \<Rightarrow>
    (string \<times> (string \<times> string) list list) list" where
  "add_labels podWIDs pod out =
     (let namespace = stringAt pod [''metadata'', ''namespace'']; name = stringAt pod [''metadata'', ''name'']
      in if namespace = '''' \<or> name = '''' then out
         else (case map_of podWIDs (resourceKey namespace name) of None \<Rightarrow> out
           | Some wid \<Rightarrow> AList.update wid (list_of out wid @ [mapAt pod [''metadata'', ''labels'']]) out))"

definition podLabelsByWorkloadMap :: "object list \<Rightarrow> (string \<times> string) list \<Rightarrow>
    (string \<times> (string \<times> string) list list) list" where
  "podLabelsByWorkloadMap pods podWIDs = fold (add_labels podWIDs) pods []"

subsection \<open>Nodes\<close>

definition has_condition :: "(string \<Rightarrow> bool) \<Rightarrow> object \<Rightarrow> bool" where
  "has_condition P item = list_ex (\<lambda>m. P (stringAt m [''type'']) \<and> stringAt m [''status''] = ''True'')
     (objects (listAt item [''status'', ''conditions'']))"

definition nodeFromItem :: "object \<Rightarrow> (string \<times> int) list \<Rightarrow> cluster_node" where
  "nodeFromItem item podCounts =
     (let name = stringAt item [''metadata'', ''name''];
          name = (if name = '''' then ''unknown-node'' else name);
          labels = mapAt item [''metadata'', ''labels''];
          ready = has_condition (\<lambda>t. t = ''Ready'') item;
          pressure = has_condition (\<lambda>t. Contains t ''Pressure'') item;
          schedulable = (\<not> boolAt item [''spec'', ''unschedulable'']);
          health = (if \<not> ready then healthCritical
                    else if pressure \<or> \<not> schedulable then healthWarning else healthHealthy);
          role = (if map_of labels ''node-role.kubernetes.io/control-plane'' \<noteq> None then ''controlPlane''
                  else if map_of labels ''node-role.kubernetes.io/master'' \<noteq> None then ''controlPlane''
                  else ''worker'');
          zone = text_of labels ''topology.kubernetes.io/zone'';
          zone = (if zone = '''' then text_of labels ''failure-domain.beta.kubernetes.io/zone'' else zone);
          zone = (if zone = '''' then ''unassigned'' else zone)
      in \<lparr>node_ID = name, node_Name = name, node_Role = role,
          node_Version = orDefault (stringAt item [''status'', ''nodeInfo'', ''kubeletVersion'']) ''unknown'',
          node_Zone = zone, node_PodCount = count_of podCounts name, node_Schedulable = schedulable,
          node_Health = health,
          node_CPUCapacity = orDefault (stringAt item [''status'', ''capacity'', ''cpu'']) ''unknown'',
          node_MemoryCapacity = orDefault (stringAt item [''status'', ''capacity'', ''memory'']) ''unknown'',
          node_OSImage = orDefault (stringAt item [''status'', ''nodeInfo'', ''osImage'']) ''unknown''\<rparr>)"

subsection \<open>Workloads\<close>

definition namespaceAndName :: "object \<Rightarrow> string \<times> string" where
  "namespaceAndName item =
     (orDefault (stringAt item [''metadata'', ''namespace'']) ''default'',
      orDefault (stringAt item [''metadata'', ''name'']) ''unknown'')"

definition jobFailed :: "object \<Rightarrow> bool" where
  "jobFailed item = list_ex (\<lambda>m. stringAt m [''status''] = ''True''
       \<and> (stringAt m [''type''] = ''Failed'' \<or> stringAt m [''type''] = ''FailureTarget''))
     (objects (listAt item [''status'', ''conditions'']))"

text \<open>The ids of failed Jobs, a set in the code.\<close>

definition failedJobIDs :: "object list \<Rightarrow> string list" where
  "failedJobIDs items = map (\<lambda>item. case namespaceAndName item of
       (namespace, name) \<Rightarrow> resourceID workloadKindJob namespace name) (filter jobFailed items)"

definition replica_counts :: "string \<Rightarrow> object \<Rightarrow> int \<times> int" where
  "replica_counts kind item =
     (if kind = workloadKindDeployment \<or> kind = workloadKindStatefulSet then
        (intAt item [''spec'', ''replicas''], intAt item [''status'', ''readyReplicas''])
      else if kind = workloadKindDaemonSet then
        (intAt item [''status'', ''desiredNumberScheduled''], intAt item [''status'', ''numberReady''])
      else if kind = workloadKindJob then
        (let desired = intAt item [''spec'', ''completions'']; ready = intAt item [''status'', ''succeeded'']
         in if desired = 0 then
              if intAt item [''status'', ''active''] > 0 then (1, ready) else (ready, ready)
            else (desired, ready))
      else (0, 0))"

definition workload_health :: "string \<Rightarrow> object \<Rightarrow> int \<Rightarrow> int \<Rightarrow> string \<Rightarrow> string" where
  "workload_health kind item desired ready signal =
     (if kind = workloadKindJob \<and> jobFailed item then healthWarning
      else if kind \<noteq> workloadKindJob \<and> ready < desired then healthWarning
      else if signal \<noteq> '''' then signal
      else healthHealthy)"

definition workload_from_item :: "string \<Rightarrow> (string \<times> string list) list \<Rightarrow> (string \<times> string) list \<Rightarrow> object \<Rightarrow>
    cluster_workload" where
  "workload_from_item kind nodeIDs healthSignals item =
     (let (namespace, name) = namespaceAndName item;
          wid = resourceID kind namespace name;
          (desired, ready) = replica_counts kind item
      in \<lparr>wl_ID = wid, wl_Namespace = namespace, wl_Name = name, wl_Kind = kind,
          wl_DesiredReplicas = desired, wl_ReadyReplicas = ready,
          wl_NodeIDs = sort (list_of nodeIDs wid),
          wl_Health = workload_health kind item desired ready (text_of healthSignals wid),
          wl_Images = filter (\<lambda>img. img \<noteq> '''') (map (\<lambda>m. stringAt m [''image''])
            (objects (listAt item [''spec'', ''template'', ''spec'', ''containers''])))\<rparr>)"

definition workloadsFromItems :: "object list \<Rightarrow> string \<Rightarrow> (string \<times> string list) list \<Rightarrow> (string \<times> string) list \<Rightarrow>
    cluster_workload list" where
  "workloadsFromItems items kind nodeIDs healthSignals =
     map (workload_from_item kind nodeIDs healthSignals) items"

subsection \<open>Services\<close>

definition matchesSelector :: "(string \<times> string) list \<Rightarrow> (string \<times> string) list list \<Rightarrow> bool" where
  "matchesSelector selector podLabels =
     list_ex (\<lambda>labels. list_all (\<lambda>(k, v). text_of labels k = v) selector) podLabels"

definition serviceExposure :: "object \<Rightarrow> string" where
  "serviceExposure item =
     (let t = stringAt item [''spec'', ''type'']
      in if t = ''NodePort'' then ''nodePort'' else if t = ''LoadBalancer'' then ''loadBalancer''
         else if t = ''ExternalName'' then ''ingress'' else ''clusterIp'')"

definition serviceExposureLabel :: "string \<Rightarrow> string option" where
  "serviceExposureLabel exposure =
     (if exposure = ''clusterIp'' then Some ''ClusterIP'' else if exposure = ''nodePort'' then Some ''NodePort''
      else if exposure = ''loadBalancer'' then Some ''LoadBalancer'' else if exposure = ''ingress'' then Some ''Ingress''
      else None)"

text \<open>The target ids of a service, over the map of workloads by id.\<close>

definition service_targets :: "string \<Rightarrow> (string \<times> string) list \<Rightarrow> (string \<times> cluster_workload) list \<Rightarrow>
    (string \<times> (string \<times> string) list list) list \<Rightarrow> string list" where
  "service_targets namespace selector workloadsByID podLabelsByWorkload =
     (if 0 < length selector then
        sort (map fst (filter (\<lambda>(wid, w). wl_Namespace w = namespace
          \<and> matchesSelector selector (list_of podLabelsByWorkload wid)) workloadsByID))
      else [])"

definition port_from_item :: "object \<Rightarrow> service_port" where
  "port_from_item m = \<lparr>port_Port = intAt m [''port''], port_TargetPort = intAt m [''targetPort''],
     port_Protocol = orDefault (stringAt m [''protocol'']) ''TCP'', port_Name = stringPtr (stringAt m [''name''])\<rparr>"

definition serviceFromItem :: "object \<Rightarrow> (string \<times> cluster_workload) list \<Rightarrow>
    (string \<times> (string \<times> string) list list) list \<Rightarrow> cluster_service" where
  "serviceFromItem item workloadsByID podLabelsByWorkload =
     (let namespace = stringAt item [''metadata'', ''namespace''];
          namespace = (if namespace = '''' then ''default'' else namespace);
          name = stringAt item [''metadata'', ''name''];
          name = (if name = '''' then ''unknown-service'' else name);
          selector = mapAt item [''spec'', ''selector''];
          targets = service_targets namespace selector workloadsByID podLabelsByWorkload;
          ip = stringAt item [''spec'', ''clusterIP'']
      in \<lparr>svc_ID = resourceID ''service'' namespace name, svc_Namespace = namespace, svc_Name = name,
          svc_Exposure = serviceExposure item, svc_TargetWorkloadIDs = targets,
          svc_Ports = map port_from_item (objects (listAt item [''spec'', ''ports''])),
          svc_Health = (if 0 < length selector \<and> length targets = 0 then healthWarning else healthHealthy),
          svc_ClusterIP = (if ip \<noteq> '''' \<and> ip \<noteq> ''None'' then Some ip else None)\<rparr>)"

subsection \<open>Alerts and links\<close>

definition node_alert :: "cluster_node \<Rightarrow> cluster_alert list" where
  "node_alert n =
     (if node_Health n = healthCritical then
        [\<lparr>alert_ID = ''node-critical-'' @ node_ID n, alert_Title = ''Node not ready'',
          alert_Summary = node_Name n @ '' is reporting an unhealthy ready condition.'',
          alert_Level = healthCritical, alert_Scope = ''Node health''\<rparr>]
      else if \<not> node_Schedulable n then
        [\<lparr>alert_ID = ''node-drain-'' @ node_ID n, alert_Title = ''Node unschedulable'',
          alert_Summary = node_Name n @ '' is cordoned or draining.'',
          alert_Level = healthWarning, alert_Scope = ''Node lifecycle''\<rparr>]
      else if node_Health n = healthWarning then
        [\<lparr>alert_ID = ''node-warning-'' @ node_ID n, alert_Title = ''Node pressure detected'',
          alert_Summary = node_Name n @ '' is healthy but reporting pressure conditions.'',
          alert_Level = healthWarning, alert_Scope = ''Node health''\<rparr>]
      else [])"

definition nodeAlerts :: "cluster_node list \<Rightarrow> cluster_alert list" where
  "nodeAlerts nodes = concat (map node_alert nodes)"

definition workload_alert :: "string list \<Rightarrow> cluster_workload \<Rightarrow> cluster_alert list" where
  "workload_alert failedJobs w =
     (if wl_Kind w = workloadKindJob then
        if wl_ID w \<in> set failedJobs then
          [\<lparr>alert_ID = ''workload-'' @ wl_ID w, alert_Title = ''Job failed'',
            alert_Summary = wl_Name w @ '' has failed.'', alert_Level = healthWarning,
            alert_Scope = ''Workload health''\<rparr>]
        else []
      else if wl_ReadyReplicas w < wl_DesiredReplicas w then
        [\<lparr>alert_ID = ''workload-'' @ wl_ID w, alert_Title = ''Replica skew detected'',
          alert_Summary = wl_Name w @ '' is at '' @ show_int (wl_ReadyReplicas w) @ ''/''
            @ show_int (wl_DesiredReplicas w) @ '' ready replicas.'',
          alert_Level = healthWarning, alert_Scope = ''Workload health''\<rparr>]
      else [])"

definition workloadAlerts :: "cluster_workload list \<Rightarrow> string list \<Rightarrow> cluster_alert list" where
  "workloadAlerts workloads failedJobs = concat (map (workload_alert failedJobs) workloads)"

definition serviceAlerts :: "cluster_service list \<Rightarrow> cluster_alert list" where
  "serviceAlerts services = map (\<lambda>s.
       \<lparr>alert_ID = ''service-'' @ svc_ID s, alert_Title = ''Service has no backing workloads'',
        alert_Summary = svc_Name s @ '' does not currently match any discovered workload pods.'',
        alert_Level = healthWarning, alert_Scope = ''Service routing''\<rparr>)
     (filter (\<lambda>s. svc_Health s = healthWarning) services)"

definition workload_links :: "cluster_workload list \<Rightarrow> topology_link list" where
  "workload_links workloads = concat (map (\<lambda>w. map (\<lambda>nodeID.
     \<lparr>link_SourceID = nodeID, link_TargetID = wl_ID w, link_Kind = ''workload'', link_Label = None\<rparr>)
     (wl_NodeIDs w)) workloads)"

definition service_links :: "cluster_service list \<Rightarrow> topology_link list" where
  "service_links services = concat (map (\<lambda>s. map (\<lambda>wid.
     \<lparr>link_SourceID = svc_ID s, link_TargetID = wid, link_Kind = ''service'',
      link_Label = serviceExposureLabel (svc_Exposure s)\<rparr>) (svc_TargetWorkloadIDs s)) services)"

subsection \<open>The snapshot\<close>

definition transformSnapshot :: "cluster_profile \<Rightarrow> time \<Rightarrow> raw_lists \<Rightarrow> cluster_snapshot" where
  "transformSnapshot profile generatedAt raw =
     (let podItems = listItems (raw_pods raw);
          jobItems = listItems (raw_jobs raw);
          replicaSetOwners = replicaSetOwnerMap (listItems (raw_replicaSets raw));
          pass = visit_pods replicaSetOwners podItems;
          nodesOut = map (\<lambda>item. nodeFromItem item (nodePodCounts pass)) (listItems (raw_nodes raw));
          from = (\<lambda>items kind. workloadsFromItems items kind (workloadNodeIDs pass) (workloadHealthSignals pass));
          workloads = from (listItems (raw_deployments raw)) workloadKindDeployment
            @ from (listItems (raw_daemonSets raw)) workloadKindDaemonSet
            @ from (listItems (raw_statefulSets raw)) workloadKindStatefulSet
            @ from jobItems workloadKindJob;
          workloadsByID = fold (\<lambda>w. AList.update (wl_ID w) w) workloads [];
          podLabelsByWorkload = podLabelsByWorkloadMap podItems (podWorkloadIDs pass);
          servicesOut = map (\<lambda>item. serviceFromItem item workloadsByID podLabelsByWorkload)
            (listItems (raw_services raw));
          alerts = nodeAlerts nodesOut @ workloadAlerts workloads (failedJobIDs jobItems) @ serviceAlerts servicesOut;
          links = workload_links workloads @ service_links servicesOut
      in \<lparr>snap_Profile = profile, snap_GeneratedAt = UnixMilli generatedAt, snap_Nodes = nodesOut,
          snap_Workloads = workloads, snap_Services = servicesOut, snap_Alerts = alerts, snap_Links = links\<rparr>)"

subsection \<open>What the pass over the pods computes\<close>

lemma map_of_update: "map_of (AList.update k v m) = (map_of m)(k \<mapsto> v)"
  by (rule update_conv')

definition node_name :: "object \<Rightarrow> string" where
  "node_name pod = stringAt pod [''spec'', ''nodeName'']"

definition pod_key :: "object \<Rightarrow> string" where
  "pod_key pod = resourceKey (stringAt pod [''metadata'', ''namespace'']) (stringAt pod [''metadata'', ''name''])"

lemma visit_pod_fields:
  "nodePodCounts (visit_pod owners pod p) =
     (if node_name pod \<noteq> '''' then AList.update (node_name pod) (count_of (nodePodCounts p) (node_name pod) + 1)
        (nodePodCounts p) else nodePodCounts p)"
  "podWorkloadIDs (visit_pod owners pod p) =
     (if workloadIDForPod pod owners \<noteq> '''' then AList.update (pod_key pod) (workloadIDForPod pod owners)
        (podWorkloadIDs p) else podWorkloadIDs p)"
  "workloadNodeIDs (visit_pod owners pod p) =
     (if workloadIDForPod pod owners \<noteq> '''' \<and> node_name pod \<noteq> ''''
      then add_node (workloadIDForPod pod owners) (node_name pod) (workloadNodeIDs p) else workloadNodeIDs p)"
  "workloadHealthSignals (visit_pod owners pod p) =
     (let wid = workloadIDForPod pod owners
      in if wid \<noteq> '''' \<and> \<not> no_signal wid pod
         then AList.update wid (maxHealth (text_of (workloadHealthSignals p) wid) (pod_signal pod))
                (workloadHealthSignals p)
         else workloadHealthSignals p)"
  by (simp_all add: visit_pod_def node_name_def pod_key_def Let_def)

lemma count_of_pods:
  "count_of (nodePodCounts (visit_pods owners pods)) k =
     (if k = '''' then 0 else int (length (filter (\<lambda>pod. node_name pod = k) pods)))"
proof -
  have "count_of (nodePodCounts (fold (visit_pod owners) pods p)) k =
      count_of (nodePodCounts p) k + (if k = '''' then 0 else int (length (filter (\<lambda>pod. node_name pod = k) pods)))"
    for p
  proof (induction pods arbitrary: p)
    case (Cons pod pods)
    have "count_of (nodePodCounts (visit_pod owners pod p)) k =
        count_of (nodePodCounts p) k + (if k \<noteq> '''' \<and> node_name pod = k then 1 else 0)"
      by (simp add: visit_pod_fields count_of_def map_of_update)
    with Cons show ?case by simp
  qed simp
  from this [of empty_pass] show ?thesis by (simp add: visit_pods_def empty_pass_def count_of_def)
qed

text \<open>The pods of a workload, and the health they signal.\<close>

definition pods_of :: "(string \<times> string) list \<Rightarrow> object list \<Rightarrow> string \<Rightarrow> object list" where
  "pods_of owners pods wid = filter (\<lambda>pod. workloadIDForPod pod owners = wid) pods"

definition worst :: "string list \<Rightarrow> string" where
  "worst signals = (if signals = [] then '''' else if healthCritical \<in> set signals then healthCritical
     else if healthWarning \<in> set signals then healthWarning else healthHealthy)"

definition signals_of :: "(string \<times> string) list \<Rightarrow> object list \<Rightarrow> string \<Rightarrow> string list" where
  "signals_of owners pods wid = map pod_signal (filter (\<lambda>pod. \<not> no_signal wid pod) (pods_of owners pods wid))"

lemma pod_signal_level: "pod_signal pod \<in> {healthHealthy, healthWarning, healthCritical}"
  by (simp add: pod_signal_def Let_def)

lemma levels_distinct:
  "healthHealthy \<noteq> ''''" "healthWarning \<noteq> ''''" "healthCritical \<noteq> ''''"
  "healthHealthy \<noteq> healthWarning" "healthHealthy \<noteq> healthCritical" "healthWarning \<noteq> healthCritical"
  by (simp_all add: health_levels)

lemma maxHealth_worst:
  assumes "set xs \<subseteq> {healthHealthy, healthWarning, healthCritical}"
    and "x \<in> {healthHealthy, healthWarning, healthCritical}"
  shows "maxHealth (worst xs) x = worst (xs @ [x])"
  using assms levels_distinct by (auto simp: maxHealth_def worst_def)

lemma signals_of_append:
  "signals_of owners (pods @ [pod]) wid = signals_of owners pods wid
     @ (if workloadIDForPod pod owners = wid \<and> \<not> no_signal wid pod then [pod_signal pod] else [])"
  by (simp add: signals_of_def pods_of_def)

lemma signals_of_levels: "set (signals_of owners pods wid) \<subseteq> {healthHealthy, healthWarning, healthCritical}"
  using pod_signal_level by (auto simp: signals_of_def)

lemma visit_pods_append: "visit_pods owners (pods @ [pod]) = visit_pod owners pod (visit_pods owners pods)"
  by (simp add: visit_pods_def)

lemma health_of_pods:
  assumes "wid \<noteq> ''''"
  shows "text_of (workloadHealthSignals (visit_pods owners pods)) wid = worst (signals_of owners pods wid)"
proof (induction pods rule: rev_induct)
  case Nil
  show ?case by (simp add: visit_pods_def empty_pass_def text_of_def signals_of_def pods_of_def worst_def)
next
  case (snoc pod pods)
  have "text_of (AList.update k v m) wid = (if wid = k then v else text_of m wid)" for k v m
    by (simp add: text_of_def map_of_update)
  with snoc assms maxHealth_worst [OF signals_of_levels pod_signal_level] show ?case
    by (auto simp: visit_pods_append visit_pod_fields signals_of_append Let_def)
qed

lemma nodes_of_pods:
  assumes "wid \<noteq> ''''"
  shows "distinct (list_of (workloadNodeIDs (visit_pods owners pods)) wid)
    \<and> set (list_of (workloadNodeIDs (visit_pods owners pods)) wid)
        = {node_name pod |pod. pod \<in> set (pods_of owners pods wid) \<and> node_name pod \<noteq> ''''}"
proof (induction pods rule: rev_induct)
  case Nil
  show ?case by (simp add: visit_pods_def empty_pass_def list_of_def pods_of_def)
next
  case (snoc pod pods)
  have "list_of (add_node k v m) wid =
      (if wid = k then if v \<in> set (list_of m wid) then list_of m wid else list_of m wid @ [v] else list_of m wid)"
    for k v m
    by (auto simp: add_node_def list_of_def map_of_update Let_def split: option.splits)
  with snoc assms show ?case
    by (auto simp: visit_pods_append visit_pod_fields pods_of_def)
qed

subsection \<open>Nodes and workloads against a declarative description\<close>

text \<open>A workload of the snapshot, described by its own object and its pods.\<close>

definition expected_workload :: "(string \<times> string) list \<Rightarrow> object list \<Rightarrow> string \<Rightarrow> object \<Rightarrow> cluster_workload" where
  "expected_workload owners pods kind item =
     (let (namespace, name) = namespaceAndName item;
          wid = resourceID kind namespace name;
          (desired, ready) = replica_counts kind item
      in \<lparr>wl_ID = wid, wl_Namespace = namespace, wl_Name = name, wl_Kind = kind,
          wl_DesiredReplicas = desired, wl_ReadyReplicas = ready,
          wl_NodeIDs = sorted_list_of_set
            {node_name pod |pod. pod \<in> set (pods_of owners pods wid) \<and> node_name pod \<noteq> ''''},
          wl_Health = workload_health kind item desired ready (worst (signals_of owners pods wid)),
          wl_Images = filter (\<lambda>img. img \<noteq> '''') (map (\<lambda>m. stringAt m [''image''])
            (objects (listAt item [''spec'', ''template'', ''spec'', ''containers''])))\<rparr>)"

lemma resourceID_nonempty [simp]: "resourceID prefix namespace name \<noteq> []"
  by (simp add: resourceID_def)

lemma sort_distinct_list: "distinct xs \<Longrightarrow> sort xs = sorted_list_of_set (set xs)"
  by (simp add: sorted_list_of_set_sort_remdups distinct_remdups_id)

lemma workload_from_item_expected:
  "workload_from_item kind (workloadNodeIDs (visit_pods owners pods)) (workloadHealthSignals (visit_pods owners pods)) item
     = expected_workload owners pods kind item"
proof -
  have "sort (list_of (workloadNodeIDs (visit_pods owners pods)) wid)
      = sorted_list_of_set {node_name pod |pod. pod \<in> set (pods_of owners pods wid) \<and> node_name pod \<noteq> ''''}"
    if "wid \<noteq> ''''" for wid
    using nodes_of_pods [OF that, of owners pods] sort_distinct_list by metis
  then show ?thesis
    by (simp add: workload_from_item_def expected_workload_def health_of_pods Let_def split: prod.splits)
qed

definition snapshot_owners :: "raw_lists \<Rightarrow> (string \<times> string) list" where
  "snapshot_owners raw = replicaSetOwnerMap (listItems (raw_replicaSets raw))"

definition expected_workloads :: "raw_lists \<Rightarrow> cluster_workload list" where
  "expected_workloads raw = (let expected = expected_workload (snapshot_owners raw) (listItems (raw_pods raw)) in
     map (expected workloadKindDeployment) (listItems (raw_deployments raw))
     @ map (expected workloadKindDaemonSet) (listItems (raw_daemonSets raw))
     @ map (expected workloadKindStatefulSet) (listItems (raw_statefulSets raw))
     @ map (expected workloadKindJob) (listItems (raw_jobs raw)))"

text \<open>C22: the incremental pass over the pods computes what the snapshot means. The workloads of a snapshot
  are the listed Deployments, DaemonSets, StatefulSets and Jobs in that order; each is placed on
  exactly the nodes its pods run on, sorted; its health is a warning for a failed Job or for replica
  skew of another kind, else the worst signal among its pods (of a Job, its unfinished pods), else healthy. The
  pod count of a node is the number of listed pods bound to it.\<close>

theorem snapshot_matches_description:
  "snap_Workloads (transformSnapshot profile now raw) = expected_workloads raw
   \<and> map node_PodCount (snap_Nodes (transformSnapshot profile now raw))
     = map (\<lambda>n. int (length (filter (\<lambda>pod. node_name pod = node_ID n) (listItems (raw_pods raw)))))
         (snap_Nodes (transformSnapshot profile now raw))"
proof -
  have "node_ID (nodeFromItem item counts) \<noteq> ''''" "node_PodCount (nodeFromItem item counts)
      = count_of counts (node_ID (nodeFromItem item counts))" for item counts
    by (simp_all add: nodeFromItem_def Let_def)
  then show ?thesis
    by (simp add: transformSnapshot_def expected_workloads_def workloadsFromItems_def snapshot_owners_def Let_def
        workload_from_item_expected count_of_pods)
qed

subsection \<open>Services against a declarative description\<close>

definition pod_named :: "object \<Rightarrow> bool" where
  "pod_named pod \<longleftrightarrow> stringAt pod [''metadata'', ''name''] \<noteq> ''''"

definition pod_labels :: "object \<Rightarrow> (string \<times> string) list" where
  "pod_labels pod = mapAt pod [''metadata'', ''labels'']"

definition selects :: "(string \<times> string) list \<Rightarrow> object \<Rightarrow> bool" where
  "selects selector pod \<longleftrightarrow> (\<forall>(k, v) \<in> set selector. text_of (pod_labels pod) k = v)"

lemma podWorkloadIDs_unvisited:
  "k \<notin> pod_key ` set pods \<Longrightarrow> map_of (podWorkloadIDs (visit_pods owners pods)) k = None"
proof (induction pods rule: rev_induct)
  case Nil
  show ?case by (simp add: visit_pods_def empty_pass_def)
qed (simp add: visit_pods_append visit_pod_fields map_of_update)

lemma podWorkloadIDs_visited:
  "distinct (map pod_key pods) \<Longrightarrow> pod \<in> set pods \<Longrightarrow>
    map_of (podWorkloadIDs (visit_pods owners pods)) (pod_key pod)
      = (if workloadIDForPod pod owners = '''' then None else Some (workloadIDForPod pod owners))"
proof (induction pods rule: rev_induct)
  case (snoc p pods)
  then have fresh: "map_of (podWorkloadIDs (visit_pods owners pods)) (pod_key p) = None"
    by (intro podWorkloadIDs_unvisited) auto
  from snoc.prems have "pod_key p \<notin> pod_key ` set pods" by simp
  with snoc.prems have "pod = p \<or> pod \<in> set pods \<and> pod_key pod \<noteq> pod_key p" by (auto dest: image_eqI)
  with snoc fresh show ?case
    by (auto simp: visit_pods_append visit_pod_fields map_of_update)
qed simp

lemma workloadIDForPod_namespace: "workloadIDForPod pod owners \<noteq> [] \<Longrightarrow> stringAt pod [''metadata'', ''namespace''] \<noteq> []"
  by (auto simp: workloadIDForPod_def Let_def)

lemma labels_collected:
  "list_of (podLabelsByWorkloadMap pods wids) wid
     = map pod_labels (filter (\<lambda>pod. stringAt pod [''metadata'', ''namespace''] \<noteq> '''' \<and> pod_named pod
         \<and> map_of wids (pod_key pod) = Some wid) pods)"
proof (induction pods rule: rev_induct)
  case Nil
  show ?case by (simp add: podLabelsByWorkloadMap_def list_of_def)
next
  case (snoc p pods)
  have "list_of (add_labels wids p out) wid = list_of out wid
      @ (if stringAt p [''metadata'', ''namespace''] \<noteq> '''' \<and> pod_named p \<and> map_of wids (pod_key p) = Some wid
         then [pod_labels p] else [])" for out
    by (auto simp: add_labels_def list_of_def pod_named_def pod_key_def pod_labels_def map_of_update Let_def
        split: option.splits)
  with snoc show ?case by (simp add: podLabelsByWorkloadMap_def)
qed

lemma labels_of_workload:
  assumes "distinct (map pod_key pods)" and "wid \<noteq> ''''"
  shows "list_of (podLabelsByWorkloadMap pods (podWorkloadIDs (visit_pods owners pods))) wid
     = map pod_labels (filter pod_named (pods_of owners pods wid))"
proof -
  have "(stringAt pod [''metadata'', ''namespace''] \<noteq> '''' \<and> pod_named pod
      \<and> map_of (podWorkloadIDs (visit_pods owners pods)) (pod_key pod) = Some wid)
      \<longleftrightarrow> workloadIDForPod pod owners = wid \<and> pod_named pod" if "pod \<in> set pods" for pod
    using podWorkloadIDs_visited [OF assms(1) that, of owners] assms(2) workloadIDForPod_namespace
    by (auto split: if_splits)
  then show ?thesis
    unfolding labels_collected pods_of_def filter_filter by (intro arg_cong [where f = "map pod_labels"] filter_cong) auto
qed

lemma update_new: "k \<notin> fst ` set m \<Longrightarrow> AList.update k v m = m @ [(k, v)]"
  by (induction m) auto

lemma fold_update_new:
  "distinct (map f xs) \<Longrightarrow> fold (\<lambda>x. AList.update (f x) x) xs [] = map (\<lambda>x. (f x, x)) xs"
  by (induction xs rule: rev_induct) (simp_all add: update_new image_image)

definition service_namespace :: "object \<Rightarrow> string" where
  "service_namespace item = orDefault (stringAt item [''metadata'', ''namespace'']) ''default''"

definition service_selector :: "object \<Rightarrow> (string \<times> string) list" where
  "service_selector item = mapAt item [''spec'', ''selector'']"

definition expected_targets :: "raw_lists \<Rightarrow> object \<Rightarrow> string list" where
  "expected_targets raw item = (if service_selector item = [] then [] else sorted_list_of_set
     {wl_ID w |w pod. w \<in> set (expected_workloads raw) \<and> wl_Namespace w = service_namespace item
        \<and> pod \<in> set (pods_of (snapshot_owners raw) (listItems (raw_pods raw)) (wl_ID w))
        \<and> pod_named pod \<and> selects (service_selector item) pod})"

lemma matchesSelector_selects:
  "matchesSelector selector (map pod_labels pods) \<longleftrightarrow> (\<exists>pod \<in> set pods. selects selector pod)"
  by (auto simp: matchesSelector_def selects_def list_ex_iff list_all_iff)

lemma wl_ID_expected: "w \<in> set (expected_workloads raw) \<Longrightarrow> wl_ID w \<noteq> ''''"
  by (auto simp: expected_workloads_def expected_workload_def Let_def split: prod.splits)

lemma service_targets_expected:
  assumes "distinct (map pod_key (listItems (raw_pods raw)))"
    and "distinct (map wl_ID (expected_workloads raw))"
  shows "service_targets (service_namespace item) (service_selector item)
      (fold (\<lambda>w. AList.update (wl_ID w) w) (expected_workloads raw) [])
      (podLabelsByWorkloadMap (listItems (raw_pods raw))
        (podWorkloadIDs (visit_pods (snapshot_owners raw) (listItems (raw_pods raw)))))
    = expected_targets raw item"
proof (cases "service_selector item = []")
  case True
  then show ?thesis by (simp add: service_targets_def expected_targets_def)
next
  case False
  let ?pods = "listItems (raw_pods raw)"
  let ?ws = "expected_workloads raw"
  let ?hit = "\<lambda>w. wl_Namespace w = service_namespace item \<and>
    (\<exists>pod \<in> set (pods_of (snapshot_owners raw) ?pods (wl_ID w)). pod_named pod \<and> selects (service_selector item) pod)"
  let ?labels = "podLabelsByWorkloadMap ?pods (podWorkloadIDs (visit_pods (snapshot_owners raw) ?pods))"
  have hit: "matchesSelector (service_selector item) (list_of ?labels (wl_ID w)) \<longleftrightarrow>
      (\<exists>pod \<in> set (pods_of (snapshot_owners raw) ?pods (wl_ID w)). pod_named pod \<and> selects (service_selector item) pod)"
    if "w \<in> set ?ws" for w
    using labels_of_workload [OF assms(1) wl_ID_expected [OF that]]
    by (auto simp: matchesSelector_selects)
  have "map fst (filter (\<lambda>(wid, w). wl_Namespace w = service_namespace item
        \<and> matchesSelector (service_selector item) (list_of ?labels wid))
      (map (\<lambda>w. (wl_ID w, w)) ?ws)) = map wl_ID (filter ?hit ?ws)"
    using hit by (simp add: filter_map comp_def cong: filter_cong)
  moreover have "sort (map wl_ID (filter ?hit ?ws)) = sorted_list_of_set (set (map wl_ID (filter ?hit ?ws)))"
    using assms(2) by (intro sort_distinct_list) (simp add: distinct_map_filter)
  moreover have "set (map wl_ID (filter ?hit ?ws)) = {wl_ID w |w pod. w \<in> set ?ws \<and> wl_Namespace w = service_namespace item
        \<and> pod \<in> set (pods_of (snapshot_owners raw) ?pods (wl_ID w))
        \<and> pod_named pod \<and> selects (service_selector item) pod}"
    by auto
  ultimately show ?thesis
    using False by (simp add: service_targets_def expected_targets_def fold_update_new [OF assms(2)])
qed

lemma snapshot_workloads: "snap_Workloads (transformSnapshot profile now raw) = expected_workloads raw"
  by (simp add: transformSnapshot_def expected_workloads_def workloadsFromItems_def snapshot_owners_def Let_def
      workload_from_item_expected)

lemma snapshot_services:
  "snap_Services (transformSnapshot profile now raw) =
     map (\<lambda>item. serviceFromItem item (fold (\<lambda>w. AList.update (wl_ID w) w) (expected_workloads raw) [])
            (podLabelsByWorkloadMap (listItems (raw_pods raw))
              (podWorkloadIDs (visit_pods (snapshot_owners raw) (listItems (raw_pods raw))))))
       (listItems (raw_services raw))"
proof -
  have "snap_Services (transformSnapshot profile now raw) = map (\<lambda>item. serviceFromItem item
        (fold (\<lambda>w. AList.update (wl_ID w) w) (snap_Workloads (transformSnapshot profile now raw)) [])
        (podLabelsByWorkloadMap (listItems (raw_pods raw))
          (podWorkloadIDs (visit_pods (replicaSetOwnerMap (listItems (raw_replicaSets raw))) (listItems (raw_pods raw))))))
      (listItems (raw_services raw))"
    by (simp only: transformSnapshot_def Let_def cluster_snapshot.simps)
  then show ?thesis by (simp only: snapshot_workloads snapshot_owners_def)
qed

text \<open>C33: a service leads to exactly the workloads that its selector selects. When pods have distinct
  namespaced names and workloads distinct ids, as the API server guarantees, the targets of a service
  are, sorted and without duplicates, the workloads of its own namespace that own a named pod carrying all
  the labels of its selector; no selector means no target; and it warns exactly when it has a selector
  that selects nothing. The order in which Go visits its maps does not show.\<close>

theorem service_targets_exact:
  assumes "distinct (map pod_key (listItems (raw_pods raw)))"
    and "distinct (map wl_ID (expected_workloads raw))"
  shows "map svc_TargetWorkloadIDs (snap_Services (transformSnapshot profile now raw))
      = map (expected_targets raw) (listItems (raw_services raw))
    \<and> map svc_Health (snap_Services (transformSnapshot profile now raw))
      = map (\<lambda>item. if service_selector item \<noteq> [] \<and> expected_targets raw item = [] then healthWarning else healthHealthy)
          (listItems (raw_services raw))"
proof -
  have "svc_TargetWorkloadIDs (serviceFromItem item ws labels)
      = service_targets (service_namespace item) (service_selector item) ws labels"
    and "svc_Health (serviceFromItem item ws labels)
      = (if service_selector item \<noteq> [] \<and> service_targets (service_namespace item) (service_selector item) ws labels = []
         then healthWarning else healthHealthy)" for item ws labels
    by (simp_all add: serviceFromItem_def service_namespace_def service_selector_def orDefault_def Let_def)
  then show ?thesis by (simp add: snapshot_services service_targets_expected [OF assms])
qed

text \<open>A cluster of one stateful set with one pod and a service.\<close>

definition demo_meta :: "string \<Rightarrow> (string \<times> gval) list \<Rightarrow> string \<times> gval" where
  "demo_meta name entries =
     (''metadata'', VMap ([(''namespace'', VString ''prod''), (''name'', VString name)] @ entries))"

definition demo_items :: "object \<Rightarrow> object" where
  "demo_items item = [(''items'', VList [VMap item])]"

definition demo_pod :: object where
  "demo_pod = [demo_meta ''db-0''
     [(''labels'', VMap [(''app'', VString ''db'')]),
      (''ownerReferences'', VList [VMap [(''kind'', VString ''StatefulSet''), (''name'', VString ''db''),
         (''controller'', VBool True)]])],
     (''spec'', VMap [(''nodeName'', VString ''n1'')]), (''status'', VMap [(''phase'', VString ''Pending'')])]"

definition demo_raw :: raw_lists where
  "demo_raw = \<lparr>raw_nodes = [], raw_pods = demo_items demo_pod,
     raw_services = demo_items [demo_meta ''db'' [],
       (''spec'', VMap [(''selector'', VMap [(''app'', VString ''db'')])])],
     raw_deployments = [], raw_daemonSets = [], raw_statefulSets = demo_items [demo_meta ''db'' []],
     raw_jobs = [], raw_replicaSets = []\<rparr>"

definition demo_profile :: cluster_profile where
  "demo_profile = \<lparr>prof_ID = ''lab'', prof_Name = ''lab'', prof_APIServerHost = ''10.0.0.1'',
     prof_EnvironmentLabel = ''Homelab'', prof_ConnectionMode = ''gateway''\<rparr>"

lemma demo_workload_ids: "map wl_ID (snap_Workloads (transformSnapshot demo_profile 0 demo_raw)) = [''statefulSet:prod/db'']"
  by code_simp

theorem service_targets_exact_witness:
  "map (expected_targets demo_raw) (listItems (raw_services demo_raw)) = [[''statefulSet:prod/db'']]"
proof -
  have "distinct (map pod_key (listItems (raw_pods demo_raw)))" by code_simp
  moreover have "distinct (map wl_ID (expected_workloads demo_raw))"
    using demo_workload_ids by (simp add: snapshot_workloads)
  moreover have "map svc_TargetWorkloadIDs (snap_Services (transformSnapshot demo_profile 0 demo_raw))
      = [[''statefulSet:prod/db'']]" by code_simp
  ultimately show ?thesis using service_targets_exact [of demo_raw demo_profile 0] by simp
qed

subsection \<open>Links and alerts\<close>

lemma snapshot_links:
  "snap_Links (transformSnapshot profile now raw) =
     workload_links (snap_Workloads (transformSnapshot profile now raw))
     @ service_links (snap_Services (transformSnapshot profile now raw))"
  by (simp only: transformSnapshot_def Let_def cluster_snapshot.simps)

lemma targets_are_keys: "set (service_targets namespace selector byID labels) \<subseteq> fst ` set byID"
  by (auto simp: service_targets_def)

lemma keys_fold_update: "fst ` set (fold (\<lambda>x. AList.update (f x) x) xs m) = f ` set xs \<union> fst ` set m"
proof (induction xs arbitrary: m)
  case (Cons x xs)
  have "fst ` set (AList.update (f x) x m) = insert (f x) (fst ` set m)"
    using keys_update [of "f x" x m] by simp
  with Cons show ?case by auto
qed simp

lemma targets_of_service:
  "s \<in> set (snap_Services (transformSnapshot profile now raw)) \<Longrightarrow>
     set (svc_TargetWorkloadIDs s) \<subseteq> wl_ID ` set (expected_workloads raw)"
  using targets_are_keys keys_fold_update [of wl_ID "expected_workloads raw" "[]"]
  by (fastforce simp: snapshot_services serviceFromItem_def Let_def)

lemma nodes_of_workload:
  assumes "w \<in> set (expected_workloads raw)"
  shows "set (wl_NodeIDs w) = {node_name pod |pod. pod \<in> set (listItems (raw_pods raw))
      \<and> workloadIDForPod pod (snapshot_owners raw) = wl_ID w \<and> node_name pod \<noteq> ''''}"
    and "distinct (wl_NodeIDs w)"
proof -
  obtain kind item where w: "w = expected_workload (snapshot_owners raw) (listItems (raw_pods raw)) kind item"
    using assms by (auto simp: expected_workloads_def Let_def)
  have "finite {node_name pod |pod. pod \<in> set (pods_of owners pods wid) \<and> node_name pod \<noteq> ''''}" for owners pods wid
    by (rule finite_subset [of _ "node_name ` set pods"]) (auto simp: pods_of_def)
  then show "set (wl_NodeIDs w) = {node_name pod |pod. pod \<in> set (listItems (raw_pods raw))
      \<and> workloadIDForPod pod (snapshot_owners raw) = wl_ID w \<and> node_name pod \<noteq> ''''}"
    by (auto simp: w expected_workload_def pods_of_def Let_def split: prod.splits)
  show "distinct (wl_NodeIDs w)" by (simp add: w expected_workload_def Let_def split: prod.splits)
qed

text \<open>C34: the topology. The links of a snapshot are exactly: from each node to each listed workload of which a listed
  pod is bound to that node, and from each service to each of its targets, labelled with the service's exposure;
  every target is a listed workload; and each link is there once: there are as many as pairs of a listed
  workload and a node that its pods are bound to, and of a service and one of its targets.\<close>

theorem snapshot_links_resolve:
  "set (snap_Links (transformSnapshot profile now raw)) =
      {\<lparr>link_SourceID = node_name pod, link_TargetID = wl_ID w, link_Kind = ''workload'', link_Label = None\<rparr> |w pod.
         w \<in> set (snap_Workloads (transformSnapshot profile now raw)) \<and> pod \<in> set (listItems (raw_pods raw))
         \<and> workloadIDForPod pod (snapshot_owners raw) = wl_ID w \<and> node_name pod \<noteq> ''''}
    \<union> {\<lparr>link_SourceID = svc_ID s, link_TargetID = wid, link_Kind = ''service'',
          link_Label = serviceExposureLabel (svc_Exposure s)\<rparr> |s wid.
         s \<in> set (snap_Services (transformSnapshot profile now raw)) \<and> wid \<in> set (svc_TargetWorkloadIDs s)}
   \<and> (\<Union>s \<in> set (snap_Services (transformSnapshot profile now raw)). set (svc_TargetWorkloadIDs s))
     \<subseteq> wl_ID ` set (snap_Workloads (transformSnapshot profile now raw))
   \<and> length (snap_Links (transformSnapshot profile now raw)) =
      sum_list (map (\<lambda>w. card {node_name pod |pod. pod \<in> set (listItems (raw_pods raw))
          \<and> workloadIDForPod pod (snapshot_owners raw) = wl_ID w \<and> node_name pod \<noteq> ''''})
        (snap_Workloads (transformSnapshot profile now raw)))
      + sum_list (map (\<lambda>s. length (svc_TargetWorkloadIDs s)) (snap_Services (transformSnapshot profile now raw)))"
proof -
  let ?snap = "transformSnapshot profile now raw"
  have listed: "w \<in> set (expected_workloads raw)" if "w \<in> set (snap_Workloads ?snap)" for w
    using that by (simp add: snapshot_workloads)
  note nodes = nodes_of_workload [OF listed]
  have "set (workload_links (snap_Workloads ?snap)) =
      {\<lparr>link_SourceID = n, link_TargetID = wl_ID w, link_Kind = ''workload'', link_Label = None\<rparr> |w n.
         w \<in> set (snap_Workloads ?snap) \<and> n \<in> set (wl_NodeIDs w)}"
    by (auto simp: workload_links_def)
  also have "\<dots> = {\<lparr>link_SourceID = node_name pod, link_TargetID = wl_ID w, link_Kind = ''workload'', link_Label = None\<rparr> |w pod.
         w \<in> set (snap_Workloads ?snap) \<and> pod \<in> set (listItems (raw_pods raw))
         \<and> workloadIDForPod pod (snapshot_owners raw) = wl_ID w \<and> node_name pod \<noteq> ''''}"
    using nodes(1) by blast
  finally have workloads: "set (workload_links (snap_Workloads ?snap)) = \<dots>" .
  have services: "set (service_links (snap_Services ?snap)) =
      {\<lparr>link_SourceID = svc_ID s, link_TargetID = wid, link_Kind = ''service'',
          link_Label = serviceExposureLabel (svc_Exposure s)\<rparr> |s wid.
         s \<in> set (snap_Services ?snap) \<and> wid \<in> set (svc_TargetWorkloadIDs s)}"
    by (auto simp: service_links_def)
  have targets: "(\<Union>s \<in> set (snap_Services ?snap). set (svc_TargetWorkloadIDs s)) \<subseteq> wl_ID ` set (snap_Workloads ?snap)"
    using targets_of_service by (fastforce simp: snapshot_workloads)
  have "length (wl_NodeIDs w) = card {node_name pod |pod. pod \<in> set (listItems (raw_pods raw))
      \<and> workloadIDForPod pod (snapshot_owners raw) = wl_ID w \<and> node_name pod \<noteq> ''''}"
    if "w \<in> set (snap_Workloads ?snap)" for w
    using distinct_card [OF nodes(2) [OF that]] unfolding nodes(1) [OF that] by simp
  then have "length (workload_links (snap_Workloads ?snap)) =
      sum_list (map (\<lambda>w. card {node_name pod |pod. pod \<in> set (listItems (raw_pods raw))
          \<and> workloadIDForPod pod (snapshot_owners raw) = wl_ID w \<and> node_name pod \<noteq> ''''}) (snap_Workloads ?snap))"
    by (simp add: workload_links_def length_concat o_def cong: map_cong)
  then show ?thesis
    using workloads services targets by (simp add: snapshot_links service_links_def length_concat o_def)
qed








lemma kinds_differ:
  "workloadKindDeployment \<noteq> workloadKindJob" "workloadKindDaemonSet \<noteq> workloadKindJob"
  "workloadKindStatefulSet \<noteq> workloadKindJob"
  by (simp_all add: workload_kinds)



end
