(* ===== verification/Kube_Backend.thy ===== *)
theory Kube_Backend
  imports Rest_Client Transform Validate Backend
begin

text \<open>
  \<open>kubebackend/backend.go\<close>: the backend of one cluster, over the Kubernetes API.

  The fields of the Go struct that never change are the record \<open>kube_backend\<close>; what changes is the record
  \<open>kube_state\<close>: the world outside, the registry of drain jobs, and the workers that \<open>go\<close> statements have
  started. Reading the clock (\<open>kb_now\<close>, the backend's \<open>now\<close>, and \<open>kb_time_Now\<close>, which a restart reads directly) and
  making a job id are operations on the world. \<open>kb_schedule\<close> gives the
  order in which the parallel fetches of a snapshot complete; the model runs them one after the
  other in that order.
\<close>

record 'w kube_backend =
  kb_client :: "'w rest_client"
  kb_cluster :: resolved_cluster
  kb_profile :: cluster_profile
  kb_now :: "'w \<Rightarrow> time \<times> 'w"
  kb_time_Now :: "'w \<Rightarrow> time \<times> 'w"
  kb_newJobID :: "'w \<Rightarrow> string \<times> 'w"
  kb_schedule :: "'w \<Rightarrow> nat list \<times> 'w"
  kb_drainBackoff :: duration
  kb_drainMaxBackoff :: duration
  kb_drainPollInterval :: duration
  kb_drainTimeout :: duration

record 'w kube_state =
  ks_world :: 'w
  ks_drainJobs :: "(string \<times> drain_job) list"
  ks_workers :: "(string \<times> string) list"

subsection \<open>Construction\<close>

definition profileFromCluster :: "resolved_cluster \<Rightarrow> cluster_profile" where
  "profileFromCluster c =
     (let id' = res_ContextName c;
          id' = (if id' = '''' then res_ClusterName c else id');
          id' = (if id' = '''' then ''kube'' else id')
      in \<lparr>prof_ID = id', prof_Name = orDefault (res_ContextName c) (res_ClusterName c),
          prof_APIServerHost = APIServerHost c,
          prof_EnvironmentLabel = orDefault (res_EnvironmentLabel c) ''Direct access'',
          prof_ConnectionMode = ''gateway''\<rparr>)"

text \<open>The constructor; \<open>new_client\<close> is \<open>NewRestClient\<close> with its environment.\<close>

definition NewKubeBackend :: "(resolved_cluster option \<Rightarrow> go_error + 'w rest_client) \<Rightarrow> ('w \<Rightarrow> time \<times> 'w) \<Rightarrow>
    ('w \<Rightarrow> string \<times> 'w) \<Rightarrow> ('w \<Rightarrow> nat list \<times> 'w) \<Rightarrow> resolved_cluster option \<Rightarrow> go_error + 'w kube_backend" where
  "NewKubeBackend new_client now randomJobID schedule cluster = (case cluster of
       None \<Rightarrow> Inl (ErrorString ''nil cluster'')
     | Some c \<Rightarrow> (case new_client cluster of
         Inl e \<Rightarrow> Inl e
       | Inr client \<Rightarrow> Inr \<lparr>kb_client = client, kb_cluster = c, kb_profile = profileFromCluster c, kb_now = now,
           kb_time_Now = now, kb_newJobID = randomJobID, kb_schedule = schedule, kb_drainBackoff = 1 * Second,
           kb_drainMaxBackoff = 15 * Second, kb_drainPollInterval = 1 * Second,
           kb_drainTimeout = 5 * Minute\<rparr>))"

definition new_kube_state :: "'w \<Rightarrow> 'w kube_state" where
  "new_kube_state w = \<lparr>ks_world = w, ks_drainJobs = [], ks_workers = []\<rparr>"

text \<open>An operation on the world, on the state of the backend.\<close>

definition on_world :: "('w \<Rightarrow> 'a \<times> 'w) \<Rightarrow> 'w kube_state \<Rightarrow> 'a \<times> 'w kube_state" where
  "on_world f st = (let (x, w) = f (ks_world st) in (x, st\<lparr>ks_world := w\<rparr>))"

definition unknown_cluster :: "'w kube_backend \<Rightarrow> string \<Rightarrow> bool" where
  "unknown_cluster b clusterID \<longleftrightarrow> clusterID \<noteq> '''' \<and> clusterID \<noteq> prof_ID (kb_profile b)"

definition kube_ListClusters :: "'w kube_backend \<Rightarrow> 'w kube_state \<Rightarrow>
    (go_error + cluster_profile list) \<times> 'w kube_state" where
  "kube_ListClusters b st = (Inr [kb_profile b], st)"

subsection \<open>Snapshots\<close>

definition fetches :: "(string \<times> string \<times> (object \<Rightarrow> raw_lists \<Rightarrow> raw_lists)) list" where
  "fetches =
     [(''nodes'', ''/api/v1/nodes'', \<lambda>x. raw_nodes_update (\<lambda>_. x)),
      (''pods'', ''/api/v1/pods'', \<lambda>x. raw_pods_update (\<lambda>_. x)),
      (''services'', ''/api/v1/services'', \<lambda>x. raw_services_update (\<lambda>_. x)),
      (''deployments'', ''/apis/apps/v1/deployments'', \<lambda>x. raw_deployments_update (\<lambda>_. x)),
      (''daemonsets'', ''/apis/apps/v1/daemonsets'', \<lambda>x. raw_daemonSets_update (\<lambda>_. x)),
      (''statefulsets'', ''/apis/apps/v1/statefulsets'', \<lambda>x. raw_statefulSets_update (\<lambda>_. x)),
      (''jobs'', ''/apis/batch/v1/jobs'', \<lambda>x. raw_jobs_update (\<lambda>_. x)),
      (''replicasets'', ''/apis/apps/v1/replicasets'', \<lambda>x. raw_replicaSets_update (\<lambda>_. x))]"

definition no_lists :: raw_lists where
  "no_lists = \<lparr>raw_nodes = [], raw_pods = [], raw_services = [], raw_deployments = [], raw_daemonSets = [],
     raw_statefulSets = [], raw_jobs = [], raw_replicaSets = []\<rparr>"

text \<open>Every fetch completes once: the given order without repetition, then what it leaves out.\<close>

definition completion_order :: "nat list \<Rightarrow> nat list" where
  "completion_order order = (let o' = remdups (filter (\<lambda>i. i < length fetches) order)
     in o' @ filter (\<lambda>i. i \<notin> set o') [0..<length fetches])"

text \<open>One goroutine: its list, or its error at the end of the channel.\<close>

definition run_fetch :: "'w rest_client \<Rightarrow> nat \<Rightarrow> raw_lists \<times> go_error list \<times> 'w \<Rightarrow> raw_lists \<times> go_error list \<times> 'w" where
  "run_fetch c i = (\<lambda>(raw, errs, w). case fetches ! i of (name, path, store) \<Rightarrow>
     (case GetJSON c path [(''resourceVersion'', [''0''])] w of
        (Inl e, w) \<Rightarrow> (raw, errs @ [Errorf (name @ '': '') e ''''], w)
      | (Inr body, w) \<Rightarrow> (store body raw, errs, w)))"

definition kube_LoadSnapshot :: "'w kube_backend \<Rightarrow> string \<Rightarrow> 'w kube_state \<Rightarrow>
    (go_error + cluster_snapshot) \<times> 'w kube_state" where
  "kube_LoadSnapshot b clusterID st =
     (if unknown_cluster b clusterID then (Inl (Sentinel ErrNotFound), st)
      else
        let (order, w) = kb_schedule b (ks_world st);
            (raw, errs, w) = fold (run_fetch (kb_client b)) (completion_order order) (no_lists, [], w)
        in case errs of
             e # _ \<Rightarrow> (Inl e, st\<lparr>ks_world := w\<rparr>)
           | [] \<Rightarrow> (let (now, w) = kb_now b w
                   in (Inr (transformSnapshot (kb_profile b) now raw), st\<lparr>ks_world := w\<rparr>)))"

subsection \<open>Events\<close>

definition eventFromItem :: "object \<Rightarrow> cluster_event" where
  "eventFromItem item =
     (let last' = parseTimestamp (lookup item ''lastTimestamp'');
          last' = (if IsZero last' then parseTimestamp (lookup item ''eventTime'') else last');
          last' = (if IsZero last' then parseTimestamp (valueAt item [''metadata'', ''creationTimestamp'']) else last');
          count = intAt item [''count''];
          count = (if count = 0 then 1 else count);
          etype = ToLower (orDefault (stringAt item [''type'']) ''Normal'');
          component = stringAt item [''source'', ''component''];
          source = (if component \<noteq> '''' then Some component
                    else let s = stringAt item [''reportingComponent''] in if s \<noteq> '''' then Some s else None)
      in \<lparr>ev_Type = etype, ev_Reason = stringAt item [''reason''], ev_Message = stringAt item [''message''],
          ev_LastTimestamp = UnixMilli last', ev_Count = count, ev_SourceComponent = source\<rparr>)"

text \<open>The inner loop, from position \<open>j\<close> down.\<close>

fun sift :: "cluster_event list \<Rightarrow> nat \<Rightarrow> cluster_event list" where
  "sift events 0 = events"
| "sift events (Suc j) =
     (if ev_LastTimestamp (events ! j) < ev_LastTimestamp (events ! Suc j)
      then sift (events[j := events ! Suc j, Suc j := events ! j]) j
      else events)"

definition sortEventsDesc :: "cluster_event list \<Rightarrow> cluster_event list" where
  "sortEventsDesc events = fold (\<lambda>i events. sift events i) [1..<length events] events"

definition event_selector :: "string \<Rightarrow> string \<Rightarrow> string" where
  "event_selector kind objectName =
     (let selectors = [''involvedObject.name='' @ objectName];
          apiKind = fst (InvolvedObjectKind kind);
          selectors = (if apiKind \<noteq> '''' then selectors @ [''involvedObject.kind='' @ apiKind] else selectors)
      in Join selectors '','')"

definition events_path :: "string \<Rightarrow> string" where
  "events_path namespace = (if namespace \<noteq> ''''
     then ''/api/v1/namespaces/'' @ PathEscape namespace @ ''/events'' else ''/api/v1/events'')"

definition kube_LoadEvents :: "'w kube_backend \<Rightarrow> string \<Rightarrow> string \<Rightarrow> string \<Rightarrow> string \<Rightarrow> int \<Rightarrow> 'w kube_state \<Rightarrow>
    (go_error + cluster_event list) \<times> 'w kube_state" where
  "kube_LoadEvents b clusterID kind objectName namespace limit st =
     (if unknown_cluster b clusterID then (Inl (Sentinel ErrNotFound), st)
      else let limit = (if limit \<le> 0 then 5 else limit) in
        case ValidateEventQuery kind objectName namespace of
          Inl e \<Rightarrow> (Inl e, st)
        | Inr _ \<Rightarrow>
            (case on_world (GetJSON (kb_client b) (events_path namespace)
                    [(''fieldSelector'', [event_selector kind objectName])]) st of
               (Inl e, st) \<Rightarrow> (Inl (Errorf ''list events: '' e ''''), st)
             | (Inr body, st) \<Rightarrow>
                 let events = sortEventsDesc (map eventFromItem (listItems body))
                 in (Inr (if limit < int (length events) then take (nat limit) events else events), st)))"

subsection \<open>Mutations\<close>

definition mutationErr :: "go_error \<Rightarrow> go_error" where
  "mutationErr err = (case err_as_status err of
       None \<Rightarrow> err
     | Some (code, _, _) \<Rightarrow>
         if code = 404 then SentinelError ErrNotFound err
         else if code = 400 \<or> code = 422 then SentinelError ErrBadRequest err
         else err)"

definition scaleResourceFor :: "string \<Rightarrow> string \<times> bool" where
  "scaleResourceFor kind =
     (if kind = workloadKindDeployment then (''deployments'', True)
      else if kind = workloadKindStatefulSet then (''statefulsets'', True)
      else ('''', False))"

definition restartResourceFor :: "string \<Rightarrow> string \<times> bool" where
  "restartResourceFor kind =
     (if kind = workloadKindDeployment then (''deployments'', True)
      else if kind = workloadKindStatefulSet then (''statefulsets'', True)
      else if kind = workloadKindDaemonSet then (''daemonsets'', True)
      else ('''', False))"

definition workload_path :: "string \<Rightarrow> string \<Rightarrow> string \<Rightarrow> string" where
  "workload_path namespace resource name =
     ''/apis/apps/v1/namespaces/'' @ PathEscape namespace @ ''/'' @ resource @ ''/'' @ PathEscape name"

text \<open>The literal texts of the request bodies; a double quote is \<open>CHR 0x22\<close>.\<close>

abbreviation quoted :: "string \<Rightarrow> string" where
  "quoted s \<equiv> [CHR 0x22] @ s @ [CHR 0x22]"

definition scale_body :: "int \<Rightarrow> string" where
  "scale_body replicas = ''{'' @ quoted ''spec'' @ '':{'' @ quoted ''replicas'' @ '':'' @ show_int replicas @ ''}}''"

definition restart_body :: "string \<Rightarrow> string" where
  "restart_body ts = ''{'' @ quoted ''spec'' @ '':{'' @ quoted ''template'' @ '':{'' @ quoted ''metadata''
     @ '':{'' @ quoted ''annotations'' @ '':{'' @ quoted ''kubectl.kubernetes.io/restartedAt'' @ '':'' @ Quote ts @ ''}}}}}''"

definition cordon_body :: "bool \<Rightarrow> string" where
  "cordon_body unschedulable = ''{'' @ quoted ''spec'' @ '':{'' @ quoted ''unschedulable'' @ '':''
     @ (if unschedulable then ''true'' else ''false'') @ ''}}''"

text \<open>The \<open>Patch\<close> of a mutation; its error is wrapped with what was attempted.\<close>

definition send_patch :: "'w kube_backend \<Rightarrow> string \<Rightarrow> string \<Rightarrow> string \<Rightarrow> string \<Rightarrow> 'w kube_state \<Rightarrow>
    (go_error + unit) \<times> 'w kube_state" where
  "send_patch b what path contentType body st =
     (case on_world (Patch (kb_client b) path contentType body) st of
        (Inl e, st) \<Rightarrow> (Inl (Errorf (what @ '': '') (mutationErr e) ''''), st)
      | (Inr _, st) \<Rightarrow> (Inr (), st))"

definition kube_ScaleWorkload :: "'w kube_backend \<Rightarrow> string \<Rightarrow> string \<Rightarrow> int \<Rightarrow> 'w kube_state \<Rightarrow>
    (go_error + unit) \<times> 'w kube_state" where
  "kube_ScaleWorkload b clusterID workloadID replicas st =
     (if unknown_cluster b clusterID then (Inl (Sentinel ErrNotFound), st)
      else if replicas < 0 then (Inl (bad_request ''replicas must be >=0''), st)
      else case ParseWorkloadID workloadID of
          Inl e \<Rightarrow> (Inl e, st)
        | Inr (kind, namespace, name) \<Rightarrow>
            (case scaleResourceFor kind of
               (_, False) \<Rightarrow> (Inl (bad_request (''kind '' @ Quote kind @ '' cannot be scaled'')), st)
             | (resource, True) \<Rightarrow>
                 send_patch b (''scale '' @ kind @ '' '' @ namespace @ ''/'' @ name)
                   (workload_path namespace resource name @ ''/scale'') ''application/merge-patch+json''
                   (scale_body replicas) st))"

definition kube_RestartWorkload :: "'w kube_backend \<Rightarrow> string \<Rightarrow> string \<Rightarrow> 'w kube_state \<Rightarrow>
    (go_error + unit) \<times> 'w kube_state" where
  "kube_RestartWorkload b clusterID workloadID st =
     (if unknown_cluster b clusterID then (Inl (Sentinel ErrNotFound), st)
      else case ParseWorkloadID workloadID of
          Inl e \<Rightarrow> (Inl e, st)
        | Inr (kind, namespace, name) \<Rightarrow>
            (case restartResourceFor kind of
               (_, False) \<Rightarrow> (Inl (bad_request (''kind '' @ Quote kind @ '' cannot be restarted'')), st)
             | (resource, True) \<Rightarrow>
                 (case on_world (kb_time_Now b) st of (now, st) \<Rightarrow>
                    send_patch b (''restart '' @ kind @ '' '' @ namespace @ ''/'' @ name)
                      (workload_path namespace resource name) ''application/strategic-merge-patch+json''
                      (restart_body (format_RFC3339 now)) st)))"

definition kube_CordonNode :: "'w kube_backend \<Rightarrow> string \<Rightarrow> string \<Rightarrow> bool \<Rightarrow> 'w kube_state \<Rightarrow>
    (go_error + unit) \<times> 'w kube_state" where
  "kube_CordonNode b clusterID nodeID unschedulable st =
     (if unknown_cluster b clusterID then (Inl (Sentinel ErrNotFound), st)
      else case ValidateNodeID nodeID of
          Inl e \<Rightarrow> (Inl e, st)
        | Inr _ \<Rightarrow> send_patch b (''cordon node '' @ nodeID) (''/api/v1/nodes/'' @ PathEscape nodeID)
            ''application/merge-patch+json'' (cordon_body unschedulable) st)"

subsection \<open>The insertion sort of events\<close>

abbreviation newest :: "cluster_event \<Rightarrow> int" where
  "newest e \<equiv> - ev_LastTimestamp e"

text \<open>What the inner loop does to a sorted prefix \<open>ys\<close> followed by \<open>x\<close>.\<close>

function insert_event :: "cluster_event list \<Rightarrow> cluster_event \<Rightarrow> cluster_event list" where
  "insert_event [] x = [x]"
| "insert_event (ys @ [y]) x = (if newest x < newest y then insert_event ys x @ [y] else ys @ [y, x])"
  by (metis rev_exhaust surj_pair) auto
termination by (relation "measure (length o fst)") auto

lemma sift_insert: "sift (ys @ x # zs) (length ys) = insert_event ys x @ zs"
proof (induction ys arbitrary: zs rule: rev_induct)
  case (snoc y ys)
  have "(ys @ y # x # zs)[length ys := x, Suc (length ys) := y] = ys @ x # y # zs"
    by (simp add: list_update_append)
  with snoc [of "y # zs"] show ?case by (simp add: nth_append)
qed simp

lemma set_insert_event: "set (insert_event ys x) = insert x (set ys)"
  by (induction ys x rule: insert_event.induct) auto

lemma insert_event_mset: "mset (insert_event ys x) = mset (ys @ [x])"
  by (induction ys x rule: insert_event.induct) auto

lemma insert_event_sorted: "sorted (map newest ys) \<Longrightarrow> sorted (map newest (insert_event ys x))"
  by (induction ys x rule: insert_event.induct) (auto simp: sorted_append set_insert_event)

lemma insert_event_stable:
  "filter (\<lambda>e. newest e = k) (insert_event ys x) = filter (\<lambda>e. newest e = k) (ys @ [x])"
  by (induction ys x rule: insert_event.induct) auto

lemma insert_event_sort_key: "insert_event (sort_key newest xs) x = sort_key newest (xs @ [x])"
proof (rule sym, rule properties_for_sort_key)
  show "mset (insert_event (sort_key newest xs) x) = mset (xs @ [x])"
    by (simp add: insert_event_mset)
  show "filter (\<lambda>e. newest k = newest e) (insert_event (sort_key newest xs) x)
      = filter (\<lambda>e. newest k = newest e) (xs @ [x])" for k
    using insert_event_stable [of "newest k"] sort_key_stable [of newest "newest k" xs]
    by (simp add: eq_commute)
qed (rule insert_event_sorted, simp)

lemma sortEventsDesc_prefix:
  "0 < i \<Longrightarrow> i \<le> length xs \<Longrightarrow>
     fold (\<lambda>i events. sift events i) [1..<i] xs = sort_key newest (take i xs) @ drop i xs"
proof (induction i)
  case (Suc i)
  show ?case
  proof (cases "i = 0")
    case True
    with Suc show ?thesis by (cases xs) simp_all
  next
    case False
    with Suc have IH: "fold (\<lambda>i events. sift events i) [1..<i] xs = sort_key newest (take i xs) @ drop i xs"
      and i: "i < length xs" by auto
    have "sift (sort_key newest (take i xs) @ xs ! i # drop (Suc i) xs) (length (sort_key newest (take i xs)))
        = insert_event (sort_key newest (take i xs)) (xs ! i) @ drop (Suc i) xs"
      by (rule sift_insert)
    with IH i False show ?thesis
      by (simp add: insert_event_sort_key Cons_nth_drop_Suc flip: take_Suc_conv_app_nth)
  qed
qed simp

lemma sortEventsDesc_sort_key: "sortEventsDesc events = sort_key newest events"
proof (cases "events = []")
  case False
  then show ?thesis using sortEventsDesc_prefix [of "length events" events] by (simp add: sortEventsDesc_def)
qed (simp add: sortEventsDesc_def)

subsection \<open>Request bodies\<close>

text \<open>The bodies are JSON texts that read as what they are meant to say.\<close>

lemma parse_scale_body:
  "parse_json (scale_body n) = Some (JsObject [(''spec'', JsObject [(''replicas'', JsNumber (of_int n))])])"
proof -
  have "6 \<le> length (scale_body n)" by (simp add: scale_body_def)
  from parse_json_Suc [OF this] show ?thesis
    by (auto simp: scale_body_def parse_text parse_value_show is_digit_def less_eq_char_def)
qed

lemma parse_cordon_body:
  "parse_json (cordon_body u) = Some (JsObject [(''spec'', JsObject [(''unschedulable'', JsBool u)])])"
proof -
  have "6 \<le> length (cordon_body u)" by (simp add: cordon_body_def)
  from parse_json_Suc [OF this] show ?thesis by (cases u) (auto simp: cordon_body_def parse_text)
qed

lemma parse_restart_body:
  assumes "list_all plain ts"
  shows "parse_json (restart_body ts) = Some (JsObject [(''spec'', JsObject [(''template'', JsObject
    [(''metadata'', JsObject [(''annotations'', JsObject
      [(''kubectl.kubernetes.io/restartedAt'', JsString ts)])])])])])"
proof -
  have "6 \<le> length (restart_body ts)" by (simp add: restart_body_def)
  from parse_json_Suc [OF this] show ?thesis
    by (auto simp: restart_body_def parse_text Quote_plain [OF assms] parse_string_plain [OF assms, unfolded append_Cons])
qed

lemma plain_digit: "is_digit c \<Longrightarrow> plain c"
  by (auto simp: is_digit_def plain_def less_eq_char_def)

lemma plain_show_int: "list_all plain (show_int i)"
proof -
  have "list_all plain (show_nat n)" for n
    using show_nat_digits [of n] plain_digit by (auto simp: list_all_iff)
  moreover have "plain (CHR ''-'')" by (simp add: plain_def)
  ultimately show ?thesis by (simp add: show_int_def)
qed

lemma plain_pad: "list_all plain (pad w i)"
  using plain_show_int [of i] plain_digit [of "CHR ''0''"]
  by (simp add: pad_def Let_def list_all_length is_digit_def)
    (auto simp: nth_append)

lemma plain_timestamp: "list_all plain (format_RFC3339 t)"
  by (auto simp: format_RFC3339_def Let_def plain_pad split: prod.splits) (simp_all add: plain_def)

subsection \<open>Paths\<close>

lemma list_all_path_safe: "list_all path_safe s \<longleftrightarrow> (\<forall>c \<in> set s. path_safe c)"
  by (simp add: list_all_iff)

lemma letters_path_safe [simp]:
  "path_safe CHR ''/''" "path_safe CHR ''a''" "path_safe CHR ''b''" "path_safe CHR ''c''" "path_safe CHR ''d''"
  "path_safe CHR ''e''" "path_safe CHR ''f''" "path_safe CHR ''i''" "path_safe CHR ''j''" "path_safe CHR ''l''"
  "path_safe CHR ''m''" "path_safe CHR ''n''" "path_safe CHR ''o''" "path_safe CHR ''p''" "path_safe CHR ''r''"
  "path_safe CHR ''s''" "path_safe CHR ''t''" "path_safe CHR ''u''" "path_safe CHR ''v''" "path_safe CHR ''y''"
  "path_safe CHR ''h''" "path_safe CHR ''1''"
  by (simp_all add: path_safe_def unreserved_def is_alnum_def less_eq_char_def)

lemma api_path_workload: "list_all path_safe resource \<Longrightarrow> api_path (workload_path namespace resource name)"
proof -
  assume res: "list_all path_safe resource"
  have "api_path ''/apis/apps/v1/namespaces/''" by (rule api_path_const) simp_all
  then have "api_path (''/apis/apps/v1/namespaces/'' @ PathEscape namespace)" by (rule api_path_segment)
  from api_path_extend [OF this, of "''/'' @ resource @ ''/''"] res
  have "api_path ((''/apis/apps/v1/namespaces/'' @ PathEscape namespace) @ ''/'' @ resource @ ''/'')" by simp
  from api_path_segment [OF this, of name] show ?thesis by (simp add: workload_path_def)
qed

lemma api_path_node: "api_path (''/api/v1/nodes/'' @ PathEscape nodeID)"
  by (rule api_path_segment, rule api_path_const) simp_all

lemma api_path_events: "api_path (events_path namespace)"
proof -
  have "api_path ''/api/v1/namespaces/''" by (rule api_path_const) simp_all
  from api_path_extend [OF api_path_segment [OF this], of "''/events''" namespace]
  have "api_path (''/api/v1/namespaces/'' @ PathEscape namespace @ ''/events'')" by simp
  moreover have "api_path ''/api/v1/events''" by (rule api_path_const) simp_all
  ultimately show ?thesis by (simp add: events_path_def)
qed

lemma scaleResourceFor_safe: "scaleResourceFor kind = (resource, True) \<Longrightarrow> list_all path_safe resource"
  by (auto simp: scaleResourceFor_def split: if_splits)

lemma restartResourceFor_safe: "restartResourceFor kind = (resource, True) \<Longrightarrow> list_all path_safe resource"
  by (auto simp: restartResourceFor_def split: if_splits)

subsection \<open>What the mutations send\<close>

text \<open>The result of a mutation, from the response to its request.\<close>

definition patch_result :: "string \<Rightarrow> go_error + int \<times> (go_error + string) \<Rightarrow> go_error + unit" where
  "patch_result what resp = map_sum (\<lambda>e. Errorf (what @ '': '') (mutationErr e) '''') (\<lambda>_. ()) (reply_patch resp)"

text \<open>One PATCH of \<open>path\<close> with \<open>body\<close>, and what becomes of the response.\<close>

definition one_patch :: "'w kube_backend \<Rightarrow> string \<Rightarrow> string \<Rightarrow> string \<Rightarrow> string \<Rightarrow> 'w kube_state \<Rightarrow>
    (go_error + unit) \<times> 'w kube_state" where
  "one_patch b what path ct body st =
     (let (resp, w) = rc_Do (kb_client b) (api_request (kb_client b) ''PATCH'' path [] ct (Some body)) (ks_world st)
      in (patch_result what resp, st\<lparr>ks_world := w\<rparr>))"

lemma send_patch_one: "api_path path \<Longrightarrow> send_patch b what path ct body st = one_patch b what path ct body st"
  by (simp add: send_patch_def on_world_def Patch_sends one_patch_def patch_result_def
      split: prod.splits sum.splits)

lemma ParseWorkloadID_escape:
  assumes "ParseWorkloadID w = Inr (kind, namespace, name)"
  shows "PathEscape namespace = namespace" and "PathEscape name = name"
  using assms label_confined subdomain_confined
  by (auto simp: ParseWorkloadID_Inr confined_def)

lemma workload_path_plain:
  "ParseWorkloadID w = Inr (kind, namespace, name) \<Longrightarrow>
     workload_path namespace resource name = ''/apis/apps/v1/namespaces/'' @ namespace @ ''/'' @ resource @ ''/'' @ name"
  by (simp add: workload_path_def ParseWorkloadID_escape)

lemma scale_sends:
  assumes "\<not> unknown_cluster b c" and "0 \<le> n" and "ParseWorkloadID wid = Inr (kind, ns, name)"
    and "scaleResourceFor kind = (resource, True)"
  shows "kube_ScaleWorkload b c wid n st = one_patch b (''scale '' @ kind @ '' '' @ ns @ ''/'' @ name)
    (workload_path ns resource name @ ''/scale'') ''application/merge-patch+json'' (scale_body n) st"
proof -
  have "api_path (workload_path ns resource name @ ''/scale'')"
    by (rule api_path_extend [OF api_path_workload [OF scaleResourceFor_safe [OF assms(4)]]]) simp
  with assms show ?thesis by (simp add: kube_ScaleWorkload_def send_patch_one)
qed

lemma restart_sends:
  assumes "\<not> unknown_cluster b c" and "ParseWorkloadID wid = Inr (kind, ns, name)"
    and "restartResourceFor kind = (resource, True)"
  shows "kube_RestartWorkload b c wid st = (let (now, st) = on_world (kb_time_Now b) st in
    one_patch b (''restart '' @ kind @ '' '' @ ns @ ''/'' @ name)
      (workload_path ns resource name) ''application/strategic-merge-patch+json''
      (restart_body (format_RFC3339 now)) st)"
proof -
  have "api_path (workload_path ns resource name)"
    by (rule api_path_workload [OF restartResourceFor_safe [OF assms(3)]])
  with assms show ?thesis by (simp add: kube_RestartWorkload_def send_patch_one split: prod.splits)
qed

lemma cordon_sends:
  assumes "\<not> unknown_cluster b c" and "ValidateNodeID nodeID = Inr ()"
  shows "kube_CordonNode b c nodeID u st = one_patch b (''cordon node '' @ nodeID) (''/api/v1/nodes/'' @ nodeID)
    ''application/merge-patch+json'' (cordon_body u) st"
proof -
  have "PathEscape nodeID = nodeID"
    using assms(2) subdomain_confined by (auto simp: ValidateNodeID_Inr confined_def)
  with assms send_patch_one [OF api_path_node [of nodeID]] show ?thesis
    by (simp add: kube_CordonNode_def)
qed

text \<open>C29: a mutation that passes the checks is exactly one request. Scaling PATCHes the scale of the named
  Deployment or StatefulSet with the replica count, restarting PATCHes the pod template of the named
  Deployment, StatefulSet or DaemonSet with the time as an annotation, cordoning PATCHes the named
  node; names and namespace stand in the path as given, under the server's own path; the bodies are
  JSON that says so; and the result is determined by the one response.\<close>

theorem mutations_send_one_patch:
  assumes "\<not> unknown_cluster b c"
  shows "(0 \<le> n \<and> ParseWorkloadID wid = Inr (kind, ns, name) \<and> scaleResourceFor kind = (resource, True) \<longrightarrow>
      kube_ScaleWorkload b c wid n st = one_patch b (''scale '' @ kind @ '' '' @ ns @ ''/'' @ name)
        (''/apis/apps/v1/namespaces/'' @ ns @ ''/'' @ resource @ ''/'' @ name @ ''/scale'')
        ''application/merge-patch+json'' (scale_body n) st
      \<and> parse_json (scale_body n) = Some (JsObject [(''spec'', JsObject [(''replicas'', JsNumber (of_int n))])]))
   \<and> (ParseWorkloadID wid = Inr (kind, ns, name) \<and> restartResourceFor kind = (resource, True) \<longrightarrow>
      (\<exists>now w. kb_time_Now b (ks_world st) = (now, w)
       \<and> kube_RestartWorkload b c wid st = one_patch b (''restart '' @ kind @ '' '' @ ns @ ''/'' @ name)
          (''/apis/apps/v1/namespaces/'' @ ns @ ''/'' @ resource @ ''/'' @ name)
          ''application/strategic-merge-patch+json'' (restart_body (format_RFC3339 now)) (st\<lparr>ks_world := w\<rparr>)
       \<and> parse_json (restart_body (format_RFC3339 now)) = Some (JsObject [(''spec'', JsObject [(''template'', JsObject
          [(''metadata'', JsObject [(''annotations'', JsObject
            [(''kubectl.kubernetes.io/restartedAt'', JsString (format_RFC3339 now))])])])])])))
   \<and> (ValidateNodeID nodeID = Inr () \<longrightarrow>
      kube_CordonNode b c nodeID u st = one_patch b (''cordon node '' @ nodeID) (''/api/v1/nodes/'' @ nodeID)
        ''application/merge-patch+json'' (cordon_body u) st
      \<and> parse_json (cordon_body u) = Some (JsObject [(''spec'', JsObject [(''unschedulable'', JsBool u)])]))"
  using scale_sends [OF assms, of n wid kind ns name resource st]
    restart_sends [OF assms, of wid kind ns name resource st] cordon_sends [OF assms, of nodeID u st]
  by (auto simp: parse_scale_body parse_cordon_body parse_restart_body [OF plain_timestamp] on_world_def
      workload_path_plain split: prod.splits)

text \<open>A backend whose API server answers every request with 404 and records its method and URL.\<close>

definition demo_client :: "(string \<times> string) list rest_client" where
  "demo_client = \<lparr>rc_baseURL = empty_url\<lparr>url_Scheme := ''https'', url_Host := ''kube''\<rparr>, rc_bearerToken = ''t'',
     rc_Do = \<lambda>req log. (Inr (404, Inr ''''), log @ [(req_Method req, req_URL req)]), rc_decode_error = ErrorString\<rparr>"

definition demo_backend :: "(string \<times> string) list kube_backend" where
  "demo_backend = \<lparr>kb_client = demo_client, kb_cluster = demo_cluster, kb_profile = demo_profile,
     kb_now = \<lambda>log. (0, log), kb_time_Now = \<lambda>log. (0, log), kb_newJobID = \<lambda>log. (''job-1'', log), kb_schedule = \<lambda>log. ([], log),
     kb_drainBackoff = Second, kb_drainMaxBackoff = 15 * Second, kb_drainPollInterval = Second,
     kb_drainTimeout = 5 * Minute\<rparr>"

theorem mutations_send_one_patch_witness:
  "ks_world (snd (kube_ScaleWorkload demo_backend ''lab'' ''deployment:prod/api'' 3 (new_kube_state [])))
     = [(''PATCH'', ''https://kube/apis/apps/v1/namespaces/prod/deployments/api/scale'')]
   \<and> ks_world (snd (kube_CordonNode demo_backend ''lab'' ''n1'' True (new_kube_state [])))
     = [(''PATCH'', ''https://kube/api/v1/nodes/n1'')]"
proof -
  have known: "\<not> unknown_cluster demo_backend ''lab''"
    by (simp add: unknown_cluster_def demo_backend_def demo_profile_def)
  have wid: "ParseWorkloadID ''deployment:prod/api'' = Inr (''deployment'', ''prod'', ''api'')"
    and node: "ValidateNodeID ''n1'' = Inr ()"
    and res: "scaleResourceFor ''deployment'' = (''deployments'', True)"
    and root: "api_root demo_client = ''https://kube''" and query: "sent_query demo_client [] = ''''"
    by code_simp+
  have one: "ks_world (snd (one_patch demo_backend what path ct body (new_kube_state [])))
      = [(''PATCH'', ''https://kube'' @ path)]" for what path ct body
    using root query
    by (simp add: one_patch_def demo_backend_def demo_client_def api_request_def new_kube_state_def)
  show ?thesis
    using mutations_send_one_patch [OF known, of 3 "''deployment:prod/api''" "''deployment''" "''prod''" "''api''"
        "''deployments''" "new_kube_state []" "''n1''" True] wid node res
    by (simp add: one)
qed

subsection \<open>How mutations fail\<close>

lemma ParseWorkloadID_bad: "ParseWorkloadID w = Inl e \<Longrightarrow> backendErrStatus (Some e) = 400"
  by (auto simp: ParseWorkloadID_def backendErrStatus_def split: prod.splits if_splits)

lemma ValidateNodeID_bad: "ValidateNodeID n = Inl e \<Longrightarrow> backendErrStatus (Some e) = 400"
  by (auto simp: ValidateNodeID_def backendErrStatus_def split: if_splits)

lemma refusal_status [simp]:
  "backendErrStatus (Some (Sentinel ErrNotFound)) = 404" "backendErrStatus (Some (bad_request d)) = 400"
  by (simp_all add: backendErrStatus_def)

text \<open>C30: a mutation that fails a check is refused without a request: an unknown cluster, a malformed
  workload id, a negative count, a kind that cannot be scaled or restarted, or an invalid node name
  leaves the state alone, and the error is reported as 404 or 400.\<close>

theorem refused_mutations_send_nothing:
  "(unknown_cluster b c \<or> n < 0 \<or> (\<exists>e. ParseWorkloadID wid = Inl e)
      \<or> (\<exists>kind ns name. ParseWorkloadID wid = Inr (kind, ns, name) \<and> \<not> snd (scaleResourceFor kind)) \<longrightarrow>
      (\<exists>e. kube_ScaleWorkload b c wid n st = (Inl e, st)
        \<and> backendErrStatus (Some e) = (if unknown_cluster b c then 404 else 400)))
   \<and> (unknown_cluster b c \<or> (\<exists>e. ParseWorkloadID wid = Inl e)
      \<or> (\<exists>kind ns name. ParseWorkloadID wid = Inr (kind, ns, name) \<and> \<not> snd (restartResourceFor kind)) \<longrightarrow>
      (\<exists>e. kube_RestartWorkload b c wid st = (Inl e, st)
        \<and> backendErrStatus (Some e) = (if unknown_cluster b c then 404 else 400)))
   \<and> (unknown_cluster b c \<or> (\<exists>e. ValidateNodeID nodeID = Inl e) \<longrightarrow>
      (\<exists>e. kube_CordonNode b c nodeID u st = (Inl e, st)
        \<and> backendErrStatus (Some e) = (if unknown_cluster b c then 404 else 400)))"
proof (intro conjI impI)
  show "\<exists>e. kube_ScaleWorkload b c wid n st = (Inl e, st)
      \<and> backendErrStatus (Some e) = (if unknown_cluster b c then 404 else 400)"
    if "unknown_cluster b c \<or> n < 0 \<or> (\<exists>e. ParseWorkloadID wid = Inl e)
      \<or> (\<exists>kind ns name. ParseWorkloadID wid = Inr (kind, ns, name) \<and> \<not> snd (scaleResourceFor kind))"
    using that by (auto simp: kube_ScaleWorkload_def split: prod.splits sum.splits bool.splits
      dest: ParseWorkloadID_bad)
  show "\<exists>e. kube_RestartWorkload b c wid st = (Inl e, st)
      \<and> backendErrStatus (Some e) = (if unknown_cluster b c then 404 else 400)"
    if "unknown_cluster b c \<or> (\<exists>e. ParseWorkloadID wid = Inl e)
      \<or> (\<exists>kind ns name. ParseWorkloadID wid = Inr (kind, ns, name) \<and> \<not> snd (restartResourceFor kind))"
    using that by (auto simp: kube_RestartWorkload_def split: prod.splits sum.splits bool.splits
      dest: ParseWorkloadID_bad)
  show "\<exists>e. kube_CordonNode b c nodeID u st = (Inl e, st)
      \<and> backendErrStatus (Some e) = (if unknown_cluster b c then 404 else 400)"
    if "unknown_cluster b c \<or> (\<exists>e. ValidateNodeID nodeID = Inl e)"
    using that by (auto simp: kube_CordonNode_def dest: ValidateNodeID_bad)
qed

theorem refused_mutations_send_nothing_witness:
  "kube_RestartWorkload demo_backend ''lab'' ''job:prod/nightly'' (new_kube_state []) =
     (Inl (bad_request (''kind '' @ Quote ''job'' @ '' cannot be restarted'')), new_kube_state [])
   \<and> (\<exists>e. kube_CordonNode demo_backend ''other'' ''n1'' True (new_kube_state []) = (Inl e, new_kube_state [])
        \<and> backendErrStatus (Some e) = 404)"
proof -
  have cluster: "\<not> unknown_cluster demo_backend ''lab''" "unknown_cluster demo_backend ''other''"
    by (simp_all add: unknown_cluster_def demo_backend_def demo_profile_def)
  have "ParseWorkloadID ''job:prod/nightly'' = Inr (''job'', ''prod'', ''nightly'')"
    "restartResourceFor ''job'' = ('''', False)"
    by code_simp+
  with cluster refused_mutations_send_nothing [of demo_backend "''other''" 0 "''job:prod/nightly''" "new_kube_state []" "''n1''" True]
  show ?thesis by (auto simp: kube_RestartWorkload_def)
qed

lemma patch_success: "isSuccess code \<Longrightarrow> patch_result what (Inr (code, Inr body)) = Inr ()"
  by (simp add: patch_result_def reply_patch_def reply_def)

lemma patch_failure:
  "\<not> isSuccess code \<Longrightarrow> patch_result what (Inr (code, Inr body))
     = Inl (Errorf (what @ '': '') (mutationErr (newStatusError code body)) '''')"
  by (simp add: patch_result_def reply_patch_def reply_def)

lemma verdict_status:
  "backendErrStatus (Some (Errorf pre (mutationErr (StatusError code reason message)) ''''))
     = (if code = 404 then 404 else if code = 400 \<or> code = 422 then 400 else 502)"
  by (simp add: mutationErr_def backendErrStatus_def)

lemma verdict_text:
  "publicErrMessage (Errorf pre (mutationErr (StatusError code reason message)) '''')
     = (if code = 404 then ''not found''
        else if code = 400 \<or> code = 422 then pre @ status_error_text code reason message
        else ''backend error'')"
  by (simp add: mutationErr_def publicErrMessage_def)

text \<open>C31: the API server's verdict on a mutation reaches the client with the right status and text: a 2xx reply is
  success; 404 stays 404; 400 and 422 become 400 with what was tried, the code, the reason of the reply (or the
  standard text of its code) and its message, of which at most 256 bytes and an ellipsis are left; every
  other reply, and every failure of the exchange, is an opaque 502. Only the message is cut; the reason is as
  long as the API server makes it.\<close>

theorem mutation_verdict:
  "(case patch_result what (Inr (code, Inr body)) of
      Inr _ \<Rightarrow> isSuccess code
    | Inl e \<Rightarrow> \<not> isSuccess code
        \<and> backendErrStatus (Some e) = (if code = 404 then 404 else if code = 400 \<or> code = 422 then 400 else 502)
        \<and> (if code = 404 then publicErrMessage e = ''not found''
           else if code = 400 \<or> code = 422 then
             (\<exists>message. publicErrMessage e = what @ '': kube api returned '' @ show_int code @ '' '' @ reply_reason code body
                  @ (if message = '''' then '''' else '': '' @ message)
              \<and> length message \<le> 259
              \<and> (message = Unmarshal_field ''message'' body
                 \<or> (\<exists>k \<le> 256. message = take k (Unmarshal_field ''message'' body) @ ellipsis)))
           else publicErrMessage e = ''backend error''))
   \<and> (\<exists>e'. patch_result what (Inl (ErrorString text)) = Inl e' \<and> backendErrStatus (Some e') = 502
        \<and> publicErrMessage e' = ''backend error'')
   \<and> (\<exists>e'. patch_result what (Inr (code, Inl (ErrorString text))) = Inl e' \<and> backendErrStatus (Some e') = 502
        \<and> publicErrMessage e' = ''backend error'')"
proof (intro conjI)
  show "case patch_result what (Inr (code, Inr body)) of
      Inr _ \<Rightarrow> isSuccess code
    | Inl e \<Rightarrow> \<not> isSuccess code
        \<and> backendErrStatus (Some e) = (if code = 404 then 404 else if code = 400 \<or> code = 422 then 400 else 502)
        \<and> (if code = 404 then publicErrMessage e = ''not found''
           else if code = 400 \<or> code = 422 then
             (\<exists>message. publicErrMessage e = what @ '': kube api returned '' @ show_int code @ '' '' @ reply_reason code body
                  @ (if message = '''' then '''' else '': '' @ message)
              \<and> length message \<le> 259
              \<and> (message = Unmarshal_field ''message'' body
                 \<or> (\<exists>k \<le> 256. message = take k (Unmarshal_field ''message'' body) @ ellipsis)))
           else publicErrMessage e = ''backend error'')"
  proof (cases "isSuccess code")
    case False
    obtain m where m: "newStatusError code body = StatusError code (reply_reason code body) m" "length m \<le> 259"
      "m = Unmarshal_field ''message'' body \<or> (\<exists>k \<le> 256. m = take k (Unmarshal_field ''message'' body) @ ellipsis)"
      by (rule newStatusError_cases)
    have spelt: "status_error_text code (reply_reason code body) m
        = ''kube api returned '' @ show_int code @ '' '' @ reply_reason code body @ (if m = '''' then '''' else '': '' @ m)"
      by (simp add: status_error_text_def)
    have pre: "(what @ '': '') @ ''kube api returned '' @ t = what @ '': kube api returned '' @ t" for t by simp
    have "\<exists>message. what @ '': kube api returned '' @ show_int code @ '' '' @ reply_reason code body @ (if m = '''' then '''' else '': '' @ m)
          = what @ '': kube api returned '' @ show_int code @ '' '' @ reply_reason code body
              @ (if message = '''' then '''' else '': '' @ message)
        \<and> length message \<le> 259
        \<and> (message = Unmarshal_field ''message'' body \<or> (\<exists>k \<le> 256. message = take k (Unmarshal_field ''message'' body) @ ellipsis))"
      by (rule exI [of _ m], rule conjI [OF refl], rule conjI [OF m(2,3)])
    then show ?thesis
      unfolding patch_failure [OF False] m(1) sum.case verdict_status verdict_text spelt pre
      using False by (cases "code = 404"; cases "code = 400 \<or> code = 422")
        (simp_all only: if_True if_False simp_thms not_False_eq_True)
  qed (simp add: patch_success)
qed (simp_all add: patch_result_def reply_patch_def reply_def mutationErr_def backendErrStatus_def publicErrMessage_def)

text \<open>The comment on the cap says that it keeps a verbose \<open>Status\<close> from reaching clients whole; its reason does.\<close>

lemma show_int_400: "show_int 400 = ''400''"
  by code_simp

lemma reason_is_not_cut:
  assumes "Unmarshal_field ''reason'' body = reason" and "reason \<noteq> ''''"
  shows "\<exists>e rest. patch_result what (Inr (400, Inr body)) = Inl e
    \<and> publicErrMessage e = what @ '': kube api returned 400 '' @ reason @ rest"
proof -
  obtain m where m: "newStatusError 400 body = StatusError 400 reason m"
    by (rule newStatusError_cases [of 400 body]) (simp add: reply_reason_def assms)
  have spelt: "status_error_text 400 reason m = ''kube api returned 400 '' @ reason @ (if m = '''' then '''' else '': '' @ m)"
    unfolding status_error_text_def show_int_400 Let_def by (cases "m = []") simp_all
  have "\<not> isSuccess 400" by (simp add: isSuccess_def)
  note failure = patch_failure [OF this, of what body, unfolded m]
  have "publicErrMessage (Errorf (what @ '': '') (mutationErr (StatusError 400 reason m)) '''')
      = what @ '': kube api returned 400 '' @ reason @ (if m = '''' then '''' else '': '' @ m)"
    unfolding verdict_text spelt by simp
  with failure show ?thesis by blast
qed

subsection \<open>Events\<close>

text \<open>The request for the events of an object.\<close>

definition events_request :: "'w kube_backend \<Rightarrow> string \<Rightarrow> string \<Rightarrow> string \<Rightarrow> http_request" where
  "events_request b kind objectName namespace = api_request (kb_client b) ''GET'' (events_path namespace)
     [(''fieldSelector'', [event_selector kind objectName])] '''' None"

text \<open>C32: the events of an object. A valid query is one GET of the namespace's (or the cluster's) events, selected
  by the object's name and kind; the answer is the reported events, newest first, events of the same
  time in the order the API server gave them, and no more than asked for (five when the
  caller asks for none).\<close>

theorem events_newest_first:
  assumes "\<not> unknown_cluster b c" and "ValidateEventQuery kind name ns = Inr ()"
  shows "kube_LoadEvents b c kind name ns limit st =
     (let (resp, w) = rc_Do (kb_client b) (events_request b kind name ns) (ks_world st)
      in (case reply_json (kb_client b) resp of
            Inl e \<Rightarrow> Inl (Errorf ''list events: '' e '''')
          | Inr body \<Rightarrow> Inr (take (nat (if limit \<le> 0 then 5 else limit))
              (sort_key (\<lambda>e. - ev_LastTimestamp e) (map eventFromItem (listItems body)))),
          st\<lparr>ks_world := w\<rparr>))"
proof -
  have "(if m < int (length xs) then take (nat m) xs else xs) = take (nat m) xs" for m and xs :: "cluster_event list"
    by auto
  then show ?thesis
    using assms api_path_events [of ns]
    by (simp add: kube_LoadEvents_def on_world_def GetJSON_sends events_request_def sortEventsDesc_sort_key Let_def
        split: prod.splits sum.splits)
qed

theorem events_newest_first_witness:
  "ks_world (snd (kube_LoadEvents demo_backend ''lab'' ''pod'' ''db-0'' ''prod'' 5 (new_kube_state [])))
     = [(''GET'', ''https://kube/api/v1/namespaces/prod/events?fieldSelector=involvedObject.name%3Ddb-0%2CinvolvedObject.kind%3DPod'')]"
proof -
  have "\<not> unknown_cluster demo_backend ''lab''"
    by (simp add: unknown_cluster_def demo_backend_def demo_profile_def)
  moreover have "ValidateEventQuery ''pod'' ''db-0'' ''prod'' = Inr ()" by code_simp
  moreover have "req_URL (events_request demo_backend ''pod'' ''db-0'' ''prod'') =
     ''https://kube/api/v1/namespaces/prod/events?fieldSelector=involvedObject.name%3Ddb-0%2CinvolvedObject.kind%3DPod''"
    by code_simp
  moreover have "req_Method (events_request demo_backend ''pod'' ''db-0'' ''prod'') = ''GET''"
    by (simp add: events_request_def api_request_def)
  ultimately show ?thesis
    using events_newest_first [of demo_backend "''lab''" "''pod''" "''db-0''" "''prod''" 5 "new_kube_state []"]
    by (simp add: demo_backend_def demo_client_def new_kube_state_def)
qed

end
