(* ===== verification/Drain_Jobs.thy ===== *)
theory Drain_Jobs
  imports Kube_Backend
begin

text \<open>
  \<open>kubebackend/drain.go\<close>, the registry of drain jobs: starting a drain, polling it, and the updates that
  its worker makes, each of them atomic under \<open>drainMu\<close>. The worker itself is \<open>Drain_Worker\<close>; a \<open>go\<close> statement
  only adds it to \<open>ks_workers\<close>. A job is a value here, so the copies that the code hands out are the job.

  At the end, the backend as an implementation of the interface \<open>cluster_backend\<close>.
\<close>

definition drainJobRetention :: duration where
  "drainJobRetention = Hour"

definition drainFinished :: "drain_job \<Rightarrow> bool" where
  "drainFinished j \<longleftrightarrow> dj_Phase j = DrainPhaseSucceeded \<or> dj_Phase j = DrainPhaseFailed"

definition copyJob :: "drain_job \<Rightarrow> drain_job" where
  "copyJob j = j\<lparr>dj_Evicted := [] @ dj_Evicted j, dj_Skipped := [] @ dj_Skipped j\<rparr>"

definition pruneDrainJobs :: "time \<Rightarrow> (string \<times> drain_job) list \<Rightarrow> (string \<times> drain_job) list" where
  "pruneDrainJobs now jobs =
     (let cutoff = UnixMilli (now + (- drainJobRetention))
      in filter (\<lambda>(id', job). \<not> (drainFinished job \<and> dj_UpdatedAt job < cutoff)) jobs)"

definition new_job :: "string \<Rightarrow> string \<Rightarrow> time \<Rightarrow> drain_job" where
  "new_job jobID nodeID now = \<lparr>dj_ID = jobID, dj_NodeID = nodeID, dj_Phase = DrainPhasePending, dj_Evicted = [],
     dj_Skipped = [], dj_Remaining = 0, dj_Error = '''', dj_StartedAt = UnixMilli now, dj_UpdatedAt = UnixMilli now\<rparr>"

text \<open>The unfinished job of a node, found in the order in which Go visits the map.\<close>

definition running_job :: "string \<Rightarrow> (string \<times> drain_job) list \<Rightarrow> drain_job option" where
  "running_job nodeID jobs = map_option snd (find (\<lambda>(_, job). dj_NodeID job = nodeID \<and> \<not> drainFinished job) jobs)"

definition kube_StartDrain :: "'w kube_backend \<Rightarrow> string \<Rightarrow> string \<Rightarrow> 'w kube_state \<Rightarrow>
    (go_error + drain_job) \<times> 'w kube_state" where
  "kube_StartDrain b clusterID nodeID st =
     (if unknown_cluster b clusterID then (Inl (Sentinel ErrNotFound), st)
      else case ValidateNodeID nodeID of
          Inl e \<Rightarrow> (Inl e, st)
        | Inr _ \<Rightarrow>
            (case running_job nodeID (ks_drainJobs st) of
               Some job \<Rightarrow> (Inr (copyJob job), st)
             | None \<Rightarrow>
                 (case on_world (kb_now b) st of (now, st) \<Rightarrow>
                    let st = st\<lparr>ks_drainJobs := pruneDrainJobs now (ks_drainJobs st)\<rparr>
                    in case on_world (kb_newJobID b) st of (jobID, st) \<Rightarrow>
                      let job = new_job jobID nodeID now
                      in (Inr (copyJob job),
                          st\<lparr>ks_drainJobs := AList.update jobID job (ks_drainJobs st),
                             ks_workers := ks_workers st @ [(jobID, nodeID)]\<rparr>))))"

definition kube_DrainStatus :: "'w kube_backend \<Rightarrow> string \<Rightarrow> string \<Rightarrow> string \<Rightarrow> 'w kube_state \<Rightarrow>
    (go_error + drain_job) \<times> 'w kube_state" where
  "kube_DrainStatus b clusterID nodeID jobID st =
     (if unknown_cluster b clusterID then (Inl (Sentinel ErrNotFound), st)
      else (case map_of (ks_drainJobs st) jobID of
          None \<Rightarrow> (Inl (Sentinel ErrNotFound), st)
        | Some job \<Rightarrow>
            if dj_NodeID job \<noteq> nodeID then (Inl (Sentinel ErrNotFound), st)
            else (Inr (copyJob job), st)))"

text \<open>\<open>update\<close> and \<open>failDrain\<close>\<close>

definition update_job :: "'w kube_backend \<Rightarrow> string \<Rightarrow> (drain_job \<Rightarrow> drain_job) \<Rightarrow> 'w kube_state \<Rightarrow> 'w kube_state" where
  "update_job b jobID f st = (case map_of (ks_drainJobs st) jobID of
       None \<Rightarrow> st
     | Some job \<Rightarrow>
         (case on_world (kb_now b) st of (now, st) \<Rightarrow>
            st\<lparr>ks_drainJobs := AList.update jobID ((f job)\<lparr>dj_UpdatedAt := UnixMilli now\<rparr>) (ks_drainJobs st)\<rparr>))"

definition failed_job :: "string \<Rightarrow> drain_job \<Rightarrow> drain_job" where
  "failed_job msg j = j\<lparr>dj_Phase := DrainPhaseFailed, dj_Error := msg\<rparr>"

definition failDrain :: "'w kube_backend \<Rightarrow> string \<Rightarrow> string \<Rightarrow> 'w kube_state \<Rightarrow> 'w kube_state" where
  "failDrain b jobID msg st = update_job b jobID (failed_job msg) st"

text \<open>The job id, from 16 random bytes or, when there are none, from the clock.\<close>

definition hex_text :: "string \<Rightarrow> string" where
  "hex_text s = concat (map (\<lambda>c. [hex_digit (of_char c div 16), hex_digit (of_char c mod 16)]) s)"

definition randomJobID :: "string option \<Rightarrow> time \<Rightarrow> string" where
  "randomJobID buf now = (case buf of None \<Rightarrow> ''job-'' @ show_int now | Some bytes \<Rightarrow> hex_text bytes)"

subsection \<open>The interface\<close>

definition KubeBackend :: "'w kube_backend \<Rightarrow> 'w kube_state cluster_backend" where
  "KubeBackend b = \<lparr>
     ListClusters = kube_ListClusters b, LoadSnapshot = kube_LoadSnapshot b, LoadEvents = kube_LoadEvents b,
     ScaleWorkload = kube_ScaleWorkload b, RestartWorkload = kube_RestartWorkload b,
     CordonNode = kube_CordonNode b, StartDrain = kube_StartDrain b, DrainStatus = kube_DrainStatus b\<rparr>"

interpretation kube: documented_backend "KubeBackend b" "\<lambda>st c. c = [] \<or> c = prof_ID (kb_profile b)" for b
  by unfold_locales (auto simp: KubeBackend_def kube_LoadSnapshot_def kube_ListClusters_def unknown_cluster_def)

subsection \<open>The registry's invariant\<close>

text \<open>
  Jobs are filed under their id, and a node has at most one unfinished job: the one whose worker is
  under way. Finished jobs stay as they are.
\<close>

definition registry_ok :: "(string \<times> drain_job) list \<Rightarrow> bool" where
  "registry_ok jobs \<longleftrightarrow> distinct_keys jobs \<and> (\<forall>i j. (i, j) \<in> set jobs \<longrightarrow> dj_ID j = i)
     \<and> (\<forall>i j i' j'. (i, j) \<in> set jobs \<longrightarrow> (i', j') \<in> set jobs \<longrightarrow> dj_NodeID j = dj_NodeID j' \<longrightarrow>
          \<not> drainFinished j \<longrightarrow> \<not> drainFinished j' \<longrightarrow> i = i')"

lemma registry_okD:
  assumes "registry_ok jobs"
  shows "distinct_keys jobs" and "(i, j) \<in> set jobs \<Longrightarrow> dj_ID j = i"
    and "(i, j) \<in> set jobs \<Longrightarrow> (i', j') \<in> set jobs \<Longrightarrow> dj_NodeID j = dj_NodeID j' \<Longrightarrow>
      \<not> drainFinished j \<Longrightarrow> \<not> drainFinished j' \<Longrightarrow> i = i'"
  using assms unfolding registry_ok_def by blast+

lemma copyJob_id [simp]: "copyJob j = j"
  by (simp add: copyJob_def)

lemma registry_ok_subset:
  "registry_ok jobs \<Longrightarrow> distinct_keys jobs' \<Longrightarrow> set jobs' \<subseteq> set jobs \<Longrightarrow> registry_ok jobs'"
  unfolding registry_ok_def by blast

lemma registry_ok_prune: "registry_ok jobs \<Longrightarrow> registry_ok (pruneDrainJobs now jobs)"
  by (rule registry_ok_subset) (auto simp: pruneDrainJobs_def Let_def dest: registry_okD(1))

lemma running_job_None:
  "running_job nodeID jobs = None \<longleftrightarrow> (\<forall>(i, j) \<in> set jobs. dj_NodeID j = nodeID \<longrightarrow> drainFinished j)"
  by (auto simp: running_job_def find_None_iff)

lemma running_job_Some:
  "running_job nodeID jobs = Some job \<Longrightarrow> \<exists>i. (i, job) \<in> set jobs \<and> dj_NodeID job = nodeID \<and> \<not> drainFinished job"
  unfolding running_job_def by (auto simp: find_Some_iff) (metis nth_mem)

lemma in_update:
  "distinct_keys m \<Longrightarrow> (k, v) \<in> set (AList.update k0 v0 m) \<longleftrightarrow> (if k = k0 then v = v0 else (k, v) \<in> set m)"
  using map_of_in_set [of "AList.update k0 v0 m" k v] map_of_in_set [of m k v]
  by (auto simp: update_conv' distinct_update)

text \<open>Filing a job under \<open>i\<close>, when no other job of its node is unfinished or it is finished itself.\<close>

lemma registry_ok_update:
  assumes ok: "registry_ok jobs" and job: "dj_ID job = i"
    and alone: "\<And>i' j'. (i', j') \<in> set jobs \<Longrightarrow> i' \<noteq> i \<Longrightarrow> dj_NodeID j' = dj_NodeID job \<Longrightarrow>
      \<not> drainFinished job \<Longrightarrow> drainFinished j'"
  shows "registry_ok (AList.update i job jobs)"
  unfolding registry_ok_def
proof (intro conjI allI impI)
  note upd = in_update [OF registry_okD(1) [OF ok]]
  show "distinct_keys (AList.update i job jobs)" using registry_okD(1) [OF ok] by simp
  show "dj_ID j = k" if "(k, j) \<in> set (AList.update i job jobs)" for k j
    using that job registry_okD(2) [OF ok] by (simp add: upd split: if_splits)
  show "k = k'" if "(k, j) \<in> set (AList.update i job jobs)" "(k', j') \<in> set (AList.update i job jobs)"
    "dj_NodeID j = dj_NodeID j'" "\<not> drainFinished j" "\<not> drainFinished j'" for k j k' j'
    using that registry_okD(3) [OF ok, of k j k' j'] alone [of k j] alone [of k' j']
    by (simp add: upd split: if_splits)
qed

lemma registry_ok_new:
  "registry_ok jobs \<Longrightarrow> running_job nodeID jobs = None \<Longrightarrow> dj_ID job = i \<Longrightarrow> dj_NodeID job = nodeID \<Longrightarrow>
    registry_ok (AList.update i job jobs)"
  by (rule registry_ok_update) (auto simp: running_job_None)

text \<open>A worker's update of its job, which keeps id and node and does not reopen it.\<close>

lemma registry_ok_change:
  assumes "registry_ok jobs" and "map_of jobs i = Some job" and "dj_ID job' = i" and "dj_NodeID job' = dj_NodeID job"
    and "drainFinished job \<Longrightarrow> drainFinished job'"
  shows "registry_ok (AList.update i job' jobs)"
  using assms(3)
proof (rule registry_ok_update [OF assms(1)])
  fix i' j'
  assume "(i', j') \<in> set jobs" "i' \<noteq> i" "dj_NodeID j' = dj_NodeID job'" "\<not> drainFinished job'"
  then show "drainFinished j'"
    using registry_okD(3) [OF assms(1) map_of_SomeD [OF assms(2)], of i' j'] assms(4,5) by auto
qed

text \<open>C23: one drain per node. Whatever the backend does to its registry, a node never has two unfinished
  jobs: starting a drain of a node under way returns that job and starts no worker; otherwise it
  registers one new pending job for the node, starts exactly one worker for it, and drops only finished
  jobs that have not changed for an hour; and polling changes nothing.\<close>

theorem one_drain_per_node:
  assumes "registry_ok (ks_drainJobs st)" and "\<not> unknown_cluster b c" and "ValidateNodeID nodeID = Inr ()"
    and "kube_StartDrain b c nodeID st = (res, st')"
  shows "registry_ok (ks_drainJobs st')
    \<and> (\<exists>job. res = Inr job \<and> dj_NodeID job = nodeID \<and> \<not> drainFinished job
        \<and> map_of (ks_drainJobs st') (dj_ID job) = Some job
        \<and> (st' = st \<or>
            ks_workers st' = ks_workers st @ [(dj_ID job, nodeID)]
            \<and> (\<forall>(i, j) \<in> set (ks_drainJobs st). dj_NodeID j = nodeID \<longrightarrow> drainFinished j)
            \<and> (\<forall>(i, j) \<in> set (ks_drainJobs st) - set (ks_drainJobs st').
                 i = dj_ID job \<or> drainFinished j \<and> dj_UpdatedAt j < dj_StartedAt job - 3600000)))
    \<and> snd (kube_DrainStatus b c nodeID jobID st) = st"
proof (cases "running_job nodeID (ks_drainJobs st)")
  case (Some job)
  with assms have "st' = st" "res = Inr job" by (simp_all add: kube_StartDrain_def)
  moreover obtain i where "(i, job) \<in> set (ks_drainJobs st)" "dj_NodeID job = nodeID" "\<not> drainFinished job"
    using running_job_Some [OF Some] by blast
  moreover from this have "map_of (ks_drainJobs st) (dj_ID job) = Some job"
    using registry_okD [OF assms(1)] by auto
  ultimately show ?thesis using assms(1) by (auto simp: kube_DrainStatus_def split: option.splits)
next
  case None
  obtain now w where now: "kb_now b (ks_world st) = (now, w)" by fastforce
  obtain jobID w' where jobID: "kb_newJobID b w = (jobID, w')" by fastforce
  let ?kept = "pruneDrainJobs now (ks_drainJobs st)"
  let ?job = "new_job jobID nodeID now"
  have st': "res = Inr ?job" "ks_drainJobs st' = AList.update jobID ?job ?kept"
    "ks_workers st' = ks_workers st @ [(jobID, nodeID)]"
    using assms None now jobID by (auto simp: kube_StartDrain_def on_world_def Let_def)
  have kept: "registry_ok ?kept" by (rule registry_ok_prune [OF assms(1)])
  moreover have "running_job nodeID ?kept = None"
    using None by (auto simp: running_job_None pruneDrainJobs_def Let_def)
  ultimately have "registry_ok (ks_drainJobs st')"
    unfolding st' by (rule registry_ok_new) (simp_all add: new_job_def)
  moreover have "i = jobID \<or> drainFinished j \<and> dj_UpdatedAt j < dj_StartedAt ?job - 3600000"
    if "(i, j) \<in> set (ks_drainJobs st) - set (ks_drainJobs st')" for i j
  proof -
    have "UnixMilli (now + (- drainJobRetention)) = UnixMilli now - 3600000"
      by (simp add: UnixMilli_def drainJobRetention_def)
    then show ?thesis
      using that registry_okD(1) [OF kept] by (auto simp: st' in_update pruneDrainJobs_def Let_def new_job_def)
  qed
  ultimately show ?thesis
    using None st' by (auto simp: running_job_None new_job_def drainFinished_def kube_DrainStatus_def update_conv'
        split: option.splits)
qed

definition demo_drain :: "(string \<times> string) list kube_state" where
  "demo_drain = snd (kube_StartDrain demo_backend ''lab'' ''n1'' (new_kube_state []))"

lemma demo_drain_started:
  "\<not> unknown_cluster demo_backend ''lab''" "ValidateNodeID ''n1'' = Inr ()"
  "demo_drain = \<lparr>ks_world = [], ks_drainJobs = [(''job-1'', new_job ''job-1'' ''n1'' 0)],
     ks_workers = [(''job-1'', ''n1'')]\<rparr>"
proof -
  show known: "\<not> unknown_cluster demo_backend ''lab''"
    by (simp add: unknown_cluster_def demo_backend_def demo_profile_def)
  show node: "ValidateNodeID ''n1'' = Inr ()" by code_simp
  show "demo_drain = \<lparr>ks_world = [], ks_drainJobs = [(''job-1'', new_job ''job-1'' ''n1'' 0)],
      ks_workers = [(''job-1'', ''n1'')]\<rparr>"
    using known node
    by (simp add: demo_drain_def kube_StartDrain_def new_kube_state_def running_job_def on_world_def
        pruneDrainJobs_def demo_backend_def Let_def)
qed

theorem one_drain_per_node_witness:
  "registry_ok (ks_drainJobs demo_drain) \<and> ks_workers demo_drain = [(''job-1'', ''n1'')]
   \<and> snd (kube_StartDrain demo_backend ''lab'' ''n1'' demo_drain) = demo_drain"
proof -
  have "registry_ok (ks_drainJobs (new_kube_state []))" by (simp add: registry_ok_def new_kube_state_def)
  from one_drain_per_node [OF this demo_drain_started(1,2) prod.collapse [symmetric]] demo_drain_def
  have "registry_ok (ks_drainJobs demo_drain)" by simp
  moreover have "snd (kube_StartDrain demo_backend ''lab'' ''n1'' demo_drain) = demo_drain"
    using demo_drain_started(1,2)
    by (simp add: demo_drain_started(3) kube_StartDrain_def running_job_def new_job_def drainFinished_def)
  ultimately show ?thesis by (simp add: demo_drain_started(3))
qed

end
