(* ===== verification/Drain_Worker.thy ===== *)
theory Drain_Worker
  imports Drain_Jobs
begin

text \<open>
  \<open>kubebackend/drain.go\<close>, the worker of a drain: it cordons the node, lists its pods, sorts them into those to
  skip, those that block the drain and those to evict, evicts on up to five goroutines, and waits until the
  evicted pods are gone.

  The decisions are functions. The worker as a whole, with its goroutines and its poller, is the step
  relation \<open>drain_step\<close>: a step is a piece of code between two points where another goroutine can
  run, and what the API server, the clock and the context do in it is not restricted. The eviction of
  one pod, with its retries, is the function \<open>evictPod\<close>.
\<close>

subsection \<open>Pods\<close>

record pod_ref =
  ref_namespace :: string
  ref_name :: string
  ref_uid :: string

definition key :: "pod_ref \<Rightarrow> string" where
  "key p = ref_namespace p @ ''/'' @ ref_name p"

datatype pod_action = podEvict | podSkip | podBlock

text \<open>The loop over the owner references: \<open>None\<close> for a DaemonSet, else whether there is a controller.\<close>

fun scan_owners :: "bool \<Rightarrow> object list \<Rightarrow> bool option" where
  "scan_owners controlled [] = Some controlled"
| "scan_owners controlled (m # refs) =
     (if stringAt m [''kind''] = ''DaemonSet'' then None
      else scan_owners (if boolAt m [''controller''] then True else controlled) refs)"

definition classifyPod :: "object \<Rightarrow> pod_ref \<times> pod_action" where
  "classifyPod pod =
     (let ref = \<lparr>ref_namespace = stringAt pod [''metadata'', ''namespace''],
            ref_name = stringAt pod [''metadata'', ''name''], ref_uid = stringAt pod [''metadata'', ''uid'']\<rparr>;
          ref = (if ref_namespace ref = '''' then ref\<lparr>ref_namespace := ''default''\<rparr> else ref)
      in if ref_name ref = '''' then (\<lparr>ref_namespace = '''', ref_name = '''', ref_uid = ''''\<rparr>, podSkip)
         else if map_of (mapAt pod [''metadata'', ''annotations'']) ''kubernetes.io/config.mirror'' \<noteq> None then (ref, podSkip)
         else (case scan_owners False (objects (listAt pod [''metadata'', ''ownerReferences''])) of
             None \<Rightarrow> (ref, podSkip)
           | Some controlled \<Rightarrow>
               let phase = ToLower (stringAt pod [''status'', ''phase''])
               in if phase = ''succeeded'' \<or> phase = ''failed'' then (ref, podSkip)
                  else if \<not> controlled then (ref, podBlock)
                  else (ref, podEvict)))"

definition listNodePods :: "'w kube_backend \<Rightarrow> string \<Rightarrow> 'w kube_state \<Rightarrow> (go_error + object list) \<times> 'w kube_state" where
  "listNodePods b nodeID st =
     (case on_world (GetJSON (kb_client b) ''/api/v1/pods'' [(''fieldSelector'', [''spec.nodeName='' @ nodeID])]) st of
        (Inl e, st) \<Rightarrow> (Inl e, st)
      | (Inr body, st) \<Rightarrow> (Inr (listItems body), st))"

subsection \<open>The eviction of one pod\<close>


definition evict_path :: "pod_ref \<Rightarrow> string" where
  "evict_path ref = ''/api/v1/namespaces/'' @ PathEscape (ref_namespace ref) @ ''/pods/'' @ PathEscape (ref_name ref)
     @ ''/eviction''"

definition evict_payload :: "pod_ref \<Rightarrow> string" where
  "evict_payload ref = ''{'' @ quoted ''apiVersion'' @ '':'' @ quoted ''policy/v1'' @ '','' @ quoted ''kind'' @ '':''
     @ quoted ''Eviction'' @ '','' @ quoted ''metadata'' @ '':{'' @ quoted ''name'' @ '':'' @ Quote (ref_name ref)
     @ '','' @ quoted ''namespace'' @ '':'' @ Quote (ref_namespace ref) @ ''}}''"


text \<open>One request: \<open>Inr True\<close> when the pod is evicted or gone, \<open>Inr False\<close> when a disruption budget forbids it for now.\<close>

definition evict_try :: "'w rest_client \<Rightarrow> pod_ref \<Rightarrow> 'w \<Rightarrow> (go_error + bool) \<times> 'w" where
  "evict_try c ref w = (case Post c (evict_path ref) ''application/json'' (evict_payload ref) w of
       (Inl e, w) \<Rightarrow> (Inl e, w)
     | (Inr (status, respBody), w) \<Rightarrow>
         if 200 \<le> status \<and> status < 300 then (Inr True, w)
         else if status = 404 \<or> status = 410 then (Inr True, w)
         else if status = 429 then (Inr False, w)
         else (Inl (newStatusError status respBody), w))"















subsection \<open>What an eviction sends\<close>

definition evict_verdict :: "go_error + int \<times> string \<Rightarrow> go_error + bool" where
  "evict_verdict r = (case r of
       Inl e \<Rightarrow> Inl e
     | Inr (status, body) \<Rightarrow>
         if isSuccess status \<or> status \<in> {404, 410} then Inr True
         else if status = 429 then Inr False
         else Inl (newStatusError status body))"

lemma api_path_evict: "api_path (evict_path ref)"
proof -
  have "api_path ''/api/v1/namespaces/''" by (rule api_path_const) simp_all
  from api_path_extend [OF api_path_segment [OF this], of "''/pods/''" "ref_namespace ref"]
  have "api_path (''/api/v1/namespaces/'' @ PathEscape (ref_namespace ref) @ ''/pods/'')" by simp
  from api_path_extend [OF api_path_segment [OF this], of "''/eviction''" "ref_name ref"]
  show ?thesis by (simp add: evict_path_def)
qed

lemma parse_evict_payload:
  assumes "list_all plain (ref_name ref)" and "list_all plain (ref_namespace ref)"
  shows "parse_json (evict_payload ref) = Some (JsObject [(''apiVersion'', JsString ''policy/v1''),
    (''kind'', JsString ''Eviction''), (''metadata'', JsObject [(''name'', JsString (ref_name ref)),
      (''namespace'', JsString (ref_namespace ref))])])"
proof -
  have "6 \<le> length (evict_payload ref)" by (simp add: evict_payload_def)
  from parse_json_Suc [OF this] show ?thesis
    by (auto simp: evict_payload_def parse_text Quote_plain [OF assms(1)] Quote_plain [OF assms(2)]
        parse_string_plain [OF assms(1), unfolded append_Cons] parse_string_plain [OF assms(2), unfolded append_Cons])
qed

text \<open>C37: an eviction is one POST, to the eviction resource of the pod, of an Eviction that names the pod and its
  namespace; a 2xx reply, and 404 or 410, mean that the pod is evicted, 429 that it is to be tried again,
  and everything else is an error.\<close>

theorem eviction_is_one_post:
  assumes "list_all plain (ref_name ref)" and "list_all plain (ref_namespace ref)"
  shows "evict_try c ref w =
     (let (resp, w) = rc_Do c (api_request c ''POST'' (evict_path ref) [] ''application/json'' (Some (evict_payload ref))) w
      in (evict_verdict (reply resp), w))
   \<and> parse_json (evict_payload ref) = Some (JsObject [(''apiVersion'', JsString ''policy/v1''),
       (''kind'', JsString ''Eviction''), (''metadata'', JsObject [(''name'', JsString (ref_name ref)),
         (''namespace'', JsString (ref_namespace ref))])])"
  using parse_evict_payload [OF assms]
  by (auto simp: evict_try_def Post_sends [OF api_path_evict] evict_verdict_def isSuccess_def split: prod.splits sum.splits)

theorem eviction_is_one_post_witness:
  "evict_try demo_client \<lparr>ref_namespace = ''prod'', ref_name = ''db-0'', ref_uid = ''u''\<rparr> [] =
     (Inr True, [(''POST'', ''https://kube/api/v1/namespaces/prod/pods/db-0/eviction'')])"
proof -
  let ?ref = "\<lparr>ref_namespace = ''prod'', ref_name = ''db-0'', ref_uid = ''u''\<rparr>"
  have "list_all plain (ref_name ?ref)" "list_all plain (ref_namespace ?ref)" by (simp_all add: plain_def)
  note sent = eviction_is_one_post [OF this]
  have "evict_path ?ref = ''/api/v1/namespaces/prod/pods/db-0/eviction''"
    "api_root demo_client = ''https://kube''" "sent_query demo_client [] = ''''" by code_simp+
  then show ?thesis
    by (simp add: sent) (simp add: demo_client_def api_request_def reply_def evict_verdict_def isSuccess_def)
qed

end
