(* ===== verification/Drain_Run.thy ===== *)
theory Drain_Run
  imports Drain_Worker "HOL-Library.Sublist"
begin

text \<open>
  \<open>runDrain\<close>, \<open>evictAll\<close> and \<open>awaitPodsGone\<close> of \<open>kubebackend/drain.go\<close>: a whole drain, with its up to five eviction
  goroutines and its poller, as the step relation \<open>drain_step\<close>. A step is what one goroutine does between two
  points where another can run. What the API server answers is up to the world \<open>'w\<close>, which other
  goroutines may change at any time (\<open>elsewhere\<close>); so may the registry of jobs, except for the job
  of this drain, which no other part of the backend touches while it is unfinished. The context of the drain may end
  at any time (\<open>expire\<close>). These are the steps \<open>around_step\<close>, and a run has steps of both kinds.

  The poller's list request and the recording of the pods that are gone are one step; nothing else
  writes the job of the drain in between, and a read in between is one before the step.
\<close>

text \<open>Where the worker is; \<open>Sorting\<close> holds the pods still to be sorted, the evictable ones and the unmanaged ones.\<close>

datatype drain_pc =
    Starting
  | Cordoning
  | Listing
  | Sorting "object list" "pod_ref list" "string list"
  | Evicting
  | Finished

text \<open>
  The variables of a drain: the pods not yet handed to a worker (\<open>work\<close>), those that workers are evicting
  (\<open>active\<close>) or waiting to try again (\<open>waiting\<close>), the channel \<open>accepted\<close> and whether the poller still
  reads it (\<open>open\<close>), the poller's \<open>pending\<close> pods and whether it is done (\<open>polled\<close>), the first failure and the
  error of the context. The last three fields only record what happened: the pods listed, the pods whose
  eviction was requested, and those found gone.
\<close>

record 'w drain_run =
  dr_state :: "'w kube_state"
  dr_pc :: drain_pc
  dr_work :: "pod_ref list"
  dr_active :: "pod_ref list"
  dr_waiting :: "pod_ref list"
  dr_accepted :: "pod_ref list"
  dr_open :: bool
  dr_pending :: "pod_ref list"
  dr_polled :: bool
  dr_failure :: "go_error option"
  dr_ctx_Err :: "go_error option"
  dr_listed :: "object list"
  dr_requested :: "pod_ref list"
  dr_gone :: "pod_ref list"

definition drainWorkers :: nat where
  "drainWorkers = 5"

definition new_run :: "'w kube_state \<Rightarrow> 'w drain_run" where
  "new_run st = \<lparr>dr_state = st, dr_pc = Starting, dr_work = [], dr_active = [], dr_waiting = [], dr_accepted = [],
     dr_open = True, dr_pending = [], dr_polled = False, dr_failure = None, dr_ctx_Err = None, dr_listed = [],
     dr_requested = [], dr_gone = []\<rparr>"

subsection \<open>Steps\<close>

definition deadline_exceeded :: go_error where
  "deadline_exceeded = ErrorString ''context deadline exceeded''"

definition canceled :: go_error where
  "canceled = ErrorString ''context canceled''"

text \<open>\<open>update\<close> of the job, and the end of the worker by \<open>failDrain\<close>.\<close>

definition on_job :: "'w kube_backend \<Rightarrow> string \<Rightarrow> (drain_job \<Rightarrow> drain_job) \<Rightarrow> 'w drain_run \<Rightarrow> 'w drain_run" where
  "on_job b jobID f r = r\<lparr>dr_state := update_job b jobID f (dr_state r)\<rparr>"

definition give_up :: "'w kube_backend \<Rightarrow> string \<Rightarrow> string \<Rightarrow> 'w drain_run \<Rightarrow> 'w drain_run" where
  "give_up b jobID msg r = r\<lparr>dr_state := failDrain b jobID msg (dr_state r), dr_pc := Finished\<rparr>"

text \<open>The \<open>fail\<close> of \<open>evictAll\<close>: only the first call counts, and it cancels the context.\<close>

definition fail :: "go_error \<Rightarrow> 'w drain_run \<Rightarrow> 'w drain_run" where
  "fail e r = (if dr_failure r = None
     then r\<lparr>dr_failure := Some e,
            dr_ctx_Err := (if dr_ctx_Err r = None then Some canceled else dr_ctx_Err r)\<rparr>
     else r)"

definition evict_error :: "pod_ref \<Rightarrow> go_error \<Rightarrow> go_error" where
  "evict_error p e = Errorf (''evict '' @ key p @ '': '') e ''''"

definition timedOut :: "pod_ref list \<Rightarrow> go_error \<Rightarrow> go_error" where
  "timedOut pending ctx_err =
     (if pending = [] then Errorf ''timed out waiting for pod deletion: '' ctx_err ''''
      else Errorf (''timed out waiting for pod deletion of '' @ Join (sort (map key pending)) '', '' @ '': '') ctx_err '''')"

definition refusal :: "string list \<Rightarrow> string" where
  "refusal unmanaged = ''refusing to drain: pods without a controller would be lost: '' @ Join unmanaged '', ''"

text \<open>Recording the pods that are gone.\<close>

definition record_gone :: "string list \<Rightarrow> drain_job \<Rightarrow> drain_job" where
  "record_gone gone j = j\<lparr>dj_Evicted := dj_Evicted j @ gone,
     dj_Remaining := max (dj_Remaining j - int (length gone)) 0\<rparr>"

definition refs_of :: "object list \<Rightarrow> pod_ref list" where
  "refs_of pods = map (\<lambda>pod. fst (classifyPod pod)) pods"

text \<open>What the poller does with a list of the node's pods: the pending pods that are missing from it are gone.\<close>

definition poll_result :: "'w kube_backend \<Rightarrow> string \<Rightarrow> object list \<Rightarrow> 'w drain_run \<Rightarrow> 'w drain_run" where
  "poll_result b jobID pods r =
     (let present = set (refs_of pods);
          gone = filter (\<lambda>ref. ref \<notin> present) (dr_pending r);
          r' = r\<lparr>dr_pending := filter (\<lambda>ref. ref \<in> present) (dr_pending r), dr_gone := dr_gone r @ gone\<rparr>
      in if gone \<noteq> [] then on_job b jobID (record_gone (sort (map key gone))) r' else r')"

inductive drain_step :: "'w kube_backend \<Rightarrow> string \<Rightarrow> string \<Rightarrow> 'w drain_run \<Rightarrow> 'w drain_run \<Rightarrow> bool"
  for b :: "'w kube_backend" and jobID :: string and nodeID :: string where
  start: "dr_pc r = Starting \<Longrightarrow>
    drain_step b jobID nodeID r (on_job b jobID (\<lambda>j. j\<lparr>dj_Phase := DrainPhaseRunning\<rparr>) (r\<lparr>dr_pc := Cordoning\<rparr>))"
| cordon_fails: "dr_pc r = Cordoning \<Longrightarrow>
    kube_CordonNode b (prof_ID (kb_profile b)) nodeID True (dr_state r) = (Inl e, st) \<Longrightarrow>
    drain_step b jobID nodeID r (give_up b jobID (''cordon: '' @ err_text e) (r\<lparr>dr_state := st\<rparr>))"
| cordon: "dr_pc r = Cordoning \<Longrightarrow>
    kube_CordonNode b (prof_ID (kb_profile b)) nodeID True (dr_state r) = (Inr (), st) \<Longrightarrow>
    drain_step b jobID nodeID r (r\<lparr>dr_state := st, dr_pc := Listing\<rparr>)"
| list_fails: "dr_pc r = Listing \<Longrightarrow> listNodePods b nodeID (dr_state r) = (Inl e, st) \<Longrightarrow>
    drain_step b jobID nodeID r (give_up b jobID (''list pods: '' @ err_text e) (r\<lparr>dr_state := st\<rparr>))"
| lists: "dr_pc r = Listing \<Longrightarrow> listNodePods b nodeID (dr_state r) = (Inr pods, st) \<Longrightarrow>
    drain_step b jobID nodeID r (r\<lparr>dr_state := st, dr_pc := Sorting pods [] [], dr_listed := pods\<rparr>)"
| sort_nameless: "dr_pc r = Sorting (pod # pods) evictable unmanaged \<Longrightarrow> classifyPod pod = (ref, action) \<Longrightarrow>
    ref_name ref = '''' \<Longrightarrow>
    drain_step b jobID nodeID r (r\<lparr>dr_pc := Sorting pods evictable unmanaged\<rparr>)"
| sort_skip: "dr_pc r = Sorting (pod # pods) evictable unmanaged \<Longrightarrow> classifyPod pod = (ref, podSkip) \<Longrightarrow>
    ref_name ref \<noteq> '''' \<Longrightarrow>
    drain_step b jobID nodeID r (on_job b jobID (\<lambda>j. j\<lparr>dj_Skipped := dj_Skipped j @ [key ref]\<rparr>)
      (r\<lparr>dr_pc := Sorting pods evictable unmanaged\<rparr>))"
| sort_block: "dr_pc r = Sorting (pod # pods) evictable unmanaged \<Longrightarrow> classifyPod pod = (ref, podBlock) \<Longrightarrow>
    ref_name ref \<noteq> '''' \<Longrightarrow>
    drain_step b jobID nodeID r (r\<lparr>dr_pc := Sorting pods evictable (unmanaged @ [key ref])\<rparr>)"
| sort_evict: "dr_pc r = Sorting (pod # pods) evictable unmanaged \<Longrightarrow> classifyPod pod = (ref, podEvict) \<Longrightarrow>
    ref_name ref \<noteq> '''' \<Longrightarrow>
    drain_step b jobID nodeID r (r\<lparr>dr_pc := Sorting pods (evictable @ [ref]) unmanaged\<rparr>)"
| refuse: "dr_pc r = Sorting [] evictable unmanaged \<Longrightarrow> unmanaged \<noteq> [] \<Longrightarrow>
    drain_step b jobID nodeID r (give_up b jobID (refusal unmanaged) r)"
| sorted: "dr_pc r = Sorting [] evictable [] \<Longrightarrow>
    drain_step b jobID nodeID r (on_job b jobID (\<lambda>j. j\<lparr>dj_Remaining := int (length evictable)\<rparr>)
      (r\<lparr>dr_pc := Evicting, dr_work := evictable\<rparr>))"
\<comment> \<open>\<open>evictAll\<close>: the eviction workers\<close>
| take: "dr_pc r = Evicting \<Longrightarrow> dr_work r = p # ps \<Longrightarrow> length (dr_active r) + length (dr_waiting r) < drainWorkers \<Longrightarrow>
    dr_ctx_Err r = None \<Longrightarrow>
    drain_step b jobID nodeID r (r\<lparr>dr_work := ps, dr_active := dr_active r @ [p]\<rparr>)"
| take_cancelled: "dr_pc r = Evicting \<Longrightarrow> dr_work r = p # ps \<Longrightarrow>
    length (dr_active r) + length (dr_waiting r) < drainWorkers \<Longrightarrow> dr_ctx_Err r = Some e \<Longrightarrow>
    drain_step b jobID nodeID r (fail (evict_error p e) (r\<lparr>dr_work := ps\<rparr>))"
| evict_fails: "dr_pc r = Evicting \<Longrightarrow> p \<in> set (dr_active r) \<Longrightarrow>
    on_world (evict_try (kb_client b) p) (dr_state r) = (Inl e, st) \<Longrightarrow>
    drain_step b jobID nodeID r (fail (evict_error p e)
      (r\<lparr>dr_state := st, dr_active := remove1 p (dr_active r), dr_requested := p # dr_requested r\<rparr>))"
| evict_ok: "dr_pc r = Evicting \<Longrightarrow> p \<in> set (dr_active r) \<Longrightarrow>
    on_world (evict_try (kb_client b) p) (dr_state r) = (Inr True, st) \<Longrightarrow>
    drain_step b jobID nodeID r (r\<lparr>dr_state := st, dr_active := remove1 p (dr_active r),
      dr_accepted := dr_accepted r @ [p], dr_requested := p # dr_requested r\<rparr>)"
| evict_again: "dr_pc r = Evicting \<Longrightarrow> p \<in> set (dr_active r) \<Longrightarrow>
    on_world (evict_try (kb_client b) p) (dr_state r) = (Inr False, st) \<Longrightarrow>
    drain_step b jobID nodeID r (r\<lparr>dr_state := st, dr_active := remove1 p (dr_active r),
      dr_waiting := dr_waiting r @ [p], dr_requested := p # dr_requested r\<rparr>)"
| waited: "dr_pc r = Evicting \<Longrightarrow> p \<in> set (dr_waiting r) \<Longrightarrow>
    drain_step b jobID nodeID r (r\<lparr>dr_waiting := remove1 p (dr_waiting r), dr_active := dr_active r @ [p]\<rparr>)"
| wait_ended: "dr_pc r = Evicting \<Longrightarrow> p \<in> set (dr_waiting r) \<Longrightarrow> dr_ctx_Err r = Some e \<Longrightarrow>
    drain_step b jobID nodeID r (fail (evict_error p (budget_error e)) (r\<lparr>dr_waiting := remove1 p (dr_waiting r)\<rparr>))"
\<comment> \<open>\<open>awaitPodsGone\<close>: the poller\<close>
| receive: "dr_pc r = Evicting \<Longrightarrow> \<not> dr_polled r \<Longrightarrow> dr_open r \<Longrightarrow> dr_accepted r = p # ps \<Longrightarrow>
    drain_step b jobID nodeID r (r\<lparr>dr_accepted := ps, dr_pending := List.insert p (dr_pending r)\<rparr>)"
| closed: "dr_pc r = Evicting \<Longrightarrow> \<not> dr_polled r \<Longrightarrow> dr_open r \<Longrightarrow> dr_accepted r = [] \<Longrightarrow> dr_work r = [] \<Longrightarrow>
    dr_active r = [] \<Longrightarrow> dr_waiting r = [] \<Longrightarrow>
    drain_step b jobID nodeID r (r\<lparr>dr_open := False\<rparr>)"
| poll_ended: "dr_pc r = Evicting \<Longrightarrow> \<not> dr_polled r \<Longrightarrow> dr_open r \<or> dr_pending r \<noteq> [] \<Longrightarrow> dr_ctx_Err r = Some e \<Longrightarrow>
    drain_step b jobID nodeID r (fail (timedOut (dr_pending r) e) (r\<lparr>dr_polled := True\<rparr>))"
| poll_fails: "dr_pc r = Evicting \<Longrightarrow> \<not> dr_polled r \<Longrightarrow> dr_pending r \<noteq> [] \<Longrightarrow>
    listNodePods b nodeID (dr_state r) = (Inl e, st) \<Longrightarrow>
    drain_step b jobID nodeID r (fail
      (case dr_ctx_Err r of Some e' \<Rightarrow> timedOut (dr_pending r) e' | None \<Rightarrow> Errorf ''list pods: '' e '''')
      (r\<lparr>dr_state := st, dr_polled := True\<rparr>))"
| poll: "dr_pc r = Evicting \<Longrightarrow> \<not> dr_polled r \<Longrightarrow> dr_pending r \<noteq> [] \<Longrightarrow>
    listNodePods b nodeID (dr_state r) = (Inr pods, st) \<Longrightarrow>
    drain_step b jobID nodeID r (poll_result b jobID pods (r\<lparr>dr_state := st\<rparr>))"
| poll_done: "dr_pc r = Evicting \<Longrightarrow> \<not> dr_polled r \<Longrightarrow> \<not> dr_open r \<Longrightarrow> dr_pending r = [] \<Longrightarrow>
    drain_step b jobID nodeID r (r\<lparr>dr_polled := True\<rparr>)"
\<comment> \<open>the end of \<open>runDrain\<close>\<close>
| fails: "dr_pc r = Evicting \<Longrightarrow> dr_work r = [] \<Longrightarrow> dr_active r = [] \<Longrightarrow> dr_waiting r = [] \<Longrightarrow> dr_polled r \<Longrightarrow>
    dr_failure r = Some e \<Longrightarrow>
    drain_step b jobID nodeID r (give_up b jobID (err_text e) r)"
| succeeds: "dr_pc r = Evicting \<Longrightarrow> dr_work r = [] \<Longrightarrow> dr_active r = [] \<Longrightarrow> dr_waiting r = [] \<Longrightarrow> dr_polled r \<Longrightarrow>
    dr_failure r = None \<Longrightarrow>
    drain_step b jobID nodeID r (on_job b jobID (\<lambda>j. j\<lparr>dj_Phase := DrainPhaseSucceeded, dj_Remaining := 0\<rparr>)
      (r\<lparr>dr_pc := Finished\<rparr>))"

inductive around_step :: "string \<Rightarrow> 'w drain_run \<Rightarrow> 'w drain_run \<Rightarrow> bool" for jobID :: string where
  elsewhere: "map_of (ks_drainJobs st) jobID = map_of (ks_drainJobs (dr_state r)) jobID \<Longrightarrow>
    around_step jobID r (r\<lparr>dr_state := st\<rparr>)"
| expire: "dr_ctx_Err r = None \<Longrightarrow> around_step jobID r (r\<lparr>dr_ctx_Err := Some deadline_exceeded\<rparr>)"

definition run_step :: "'w kube_backend \<Rightarrow> string \<Rightarrow> string \<Rightarrow> 'w drain_run \<Rightarrow> 'w drain_run \<Rightarrow> bool" where
  "run_step b jobID nodeID r r' \<longleftrightarrow> drain_step b jobID nodeID r r' \<or> around_step jobID r r'"

subsection \<open>What a drain does to its job\<close>

definition job_of :: "string \<Rightarrow> 'w drain_run \<Rightarrow> drain_job option" where
  "job_of jobID r = map_of (ks_drainJobs (dr_state r)) jobID"

text \<open>The pods of a listing that get an action, in order; those without a name do not count.\<close>

definition pods_to :: "pod_action \<Rightarrow> object list \<Rightarrow> pod_ref list" where
  "pods_to a pods = map fst (filter (\<lambda>(ref, action). ref_name ref \<noteq> '''' \<and> action = a) (map classifyPod pods))"

lemma pods_to_simps [simp]:
  "pods_to a [] = []"
  "pods_to a (xs @ ys) = pods_to a xs @ pods_to a ys"
  "pods_to a [pod] = (let (ref, action) = classifyPod pod in if ref_name ref \<noteq> '''' \<and> action = a then [ref] else [])"
  by (simp_all add: pods_to_def split: prod.splits)

text \<open>The abstract job: its phase goes forward, and what it has recorded stays.\<close>

definition phase_step :: "drain_phase \<Rightarrow> drain_phase \<Rightarrow> bool" where
  "phase_step p q \<longleftrightarrow> (p, q) \<in> {(DrainPhasePending, DrainPhaseRunning),
     (DrainPhaseRunning, DrainPhaseSucceeded), (DrainPhaseRunning, DrainPhaseFailed)}"

definition job_advances :: "drain_job \<Rightarrow> drain_job \<Rightarrow> bool" where
  "job_advances j j' \<longleftrightarrow> dj_ID j' = dj_ID j \<and> dj_NodeID j' = dj_NodeID j \<and> dj_StartedAt j' = dj_StartedAt j
     \<and> (dj_Phase j' = dj_Phase j \<or> phase_step (dj_Phase j) (dj_Phase j'))
     \<and> prefix (dj_Evicted j) (dj_Evicted j') \<and> prefix (dj_Skipped j) (dj_Skipped j')"

text \<open>Every pod that is still in the hands of the workers, the channel or the poller, or gone.\<close>

definition in_hand :: "'w drain_run \<Rightarrow> pod_ref multiset" where
  "in_hand r = mset (dr_work r) + mset (dr_active r) + mset (dr_waiting r) + mset (dr_accepted r)
     + mset (dr_pending r) + mset (dr_gone r)"

text \<open>Before the pods are known.\<close>

definition untouched :: "'w drain_run \<Rightarrow> drain_job \<Rightarrow> bool" where
  "untouched r j \<longleftrightarrow> dr_work r = [] \<and> dr_active r = [] \<and> dr_waiting r = [] \<and> dr_accepted r = [] \<and> dr_open r
     \<and> dr_pending r = [] \<and> \<not> dr_polled r \<and> dr_failure r = None \<and> dr_requested r = [] \<and> dr_gone r = []
     \<and> dj_Evicted j = []"

text \<open>While pods are evicted. As long as nothing failed, no pod is lost.\<close>

definition evicting_core :: "'w drain_run \<Rightarrow> drain_job \<Rightarrow> bool" where
  "evicting_core r j \<longleftrightarrow>
     (let evictable = pods_to podEvict (dr_listed r)
      in pods_to podBlock (dr_listed r) = []
       \<and> dj_Skipped j = map key (pods_to podSkip (dr_listed r))
       \<and> in_hand r \<subseteq># mset evictable
       \<and> set (dr_waiting r) \<union> set (dr_accepted r) \<union> set (dr_pending r) \<union> set (dr_gone r) \<subseteq> set (dr_requested r)
       \<and> set (dr_requested r) \<subseteq> set evictable
       \<and> length (dr_active r) + length (dr_waiting r) \<le> drainWorkers
       \<and> mset (dj_Evicted j) = mset (map key (dr_gone r))
       \<and> dj_Remaining j = int (length evictable) - int (length (dr_gone r))
       \<and> (dr_open r \<or> dr_work r = [] \<and> dr_active r = [] \<and> dr_waiting r = [] \<and> dr_accepted r = []))"

definition nothing_lost :: "'w drain_run \<Rightarrow> bool" where
  "nothing_lost r \<longleftrightarrow> set_mset (in_hand r) = set (pods_to podEvict (dr_listed r))
     \<and> (dr_polled r \<longrightarrow> \<not> dr_open r \<and> dr_pending r = [])"

definition evicting :: "'w drain_run \<Rightarrow> drain_job \<Rightarrow> bool" where
  "evicting r j \<longleftrightarrow> evicting_core r j
     \<and> (case dr_failure r of None \<Rightarrow> nothing_lost r | Some e \<Rightarrow> err_text e \<noteq> '''')"

text \<open>How a drain ends: failed with a reason, or having seen every evictable pod go.\<close>

definition ended :: "'w drain_run \<Rightarrow> drain_job \<Rightarrow> bool" where
  "ended r j \<longleftrightarrow>
     set (dr_accepted r) \<union> set (dr_pending r) \<union> set (dr_gone r) \<subseteq> set (dr_requested r)
     \<and> set (dr_requested r) \<subseteq> set (pods_to podEvict (dr_listed r))
     \<and> (dr_requested r \<noteq> [] \<longrightarrow> pods_to podBlock (dr_listed r) = [])
     \<and> mset (dj_Evicted j) = mset (map key (dr_gone r))
     \<and> (dj_Phase j = DrainPhaseFailed \<and> dj_Error j \<noteq> ''''
        \<or> dj_Phase j = DrainPhaseSucceeded \<and> dj_Remaining j = 0 \<and> pods_to podBlock (dr_listed r) = []
          \<and> set (dr_gone r) = set (pods_to podEvict (dr_listed r))
          \<and> dj_Skipped j = map key (pods_to podSkip (dr_listed r)))"

definition job_inv :: "'w drain_run \<Rightarrow> drain_job \<Rightarrow> bool" where
  "job_inv r j \<longleftrightarrow> (case dr_pc r of
       Starting \<Rightarrow> dj_Phase j = DrainPhasePending \<and> untouched r j \<and> dj_Skipped j = [] \<and> dr_listed r = []
     | Cordoning \<Rightarrow> dj_Phase j = DrainPhaseRunning \<and> untouched r j \<and> dj_Skipped j = [] \<and> dr_listed r = []
     | Listing \<Rightarrow> dj_Phase j = DrainPhaseRunning \<and> untouched r j \<and> dj_Skipped j = [] \<and> dr_listed r = []
     | Sorting pods evictable unmanaged \<Rightarrow> dj_Phase j = DrainPhaseRunning \<and> untouched r j
         \<and> (\<exists>sorted. dr_listed r = sorted @ pods \<and> evictable = pods_to podEvict sorted
              \<and> unmanaged = map key (pods_to podBlock sorted) \<and> dj_Skipped j = map key (pods_to podSkip sorted))
     | Evicting \<Rightarrow> dj_Phase j = DrainPhaseRunning \<and> evicting r j
     | Finished \<Rightarrow> ended r j)"

lemma job_advances_refl [simp]: "job_advances j j"
  by (simp add: job_advances_def)

lemma job_advances_simps [simp]:
  "job_advances j (f j\<lparr>dj_UpdatedAt := t\<rparr>) = job_advances j (f j)"
  by (simp add: job_advances_def)

lemma update_job_lookup:
  assumes "map_of (ks_drainJobs st) jobID = Some j"
  obtains t where "map_of (ks_drainJobs (update_job b jobID f st)) jobID = Some (f j\<lparr>dj_UpdatedAt := t\<rparr>)"
proof -
  obtain now w where "kb_now b (ks_world st) = (now, w)" by fastforce
  with assms that [of "UnixMilli now"] show ?thesis by (simp add: update_job_def on_world_def update_conv')
qed

lemma on_world_jobs: "on_world f st = (x, st') \<Longrightarrow> ks_drainJobs st' = ks_drainJobs st"
  by (auto simp: on_world_def split: prod.splits)

lemma list_jobs: "listNodePods b nodeID st = (x, st') \<Longrightarrow> ks_drainJobs st' = ks_drainJobs st"
  by (auto simp: listNodePods_def dest: on_world_jobs split: prod.splits sum.splits)

lemma cordon_jobs: "kube_CordonNode b c nodeID u st = (x, st') \<Longrightarrow> ks_drainJobs st' = ks_drainJobs st"
  by (auto simp: kube_CordonNode_def send_patch_def dest: on_world_jobs split: prod.splits sum.splits if_splits)

text \<open>The invariant does not depend on the state of the backend.\<close>

lemma state_irrelevant [simp]:
  "in_hand (r\<lparr>dr_state := st\<rparr>) = in_hand r"
  "untouched (r\<lparr>dr_state := st\<rparr>) j = untouched r j"
  "nothing_lost (r\<lparr>dr_state := st\<rparr>) = nothing_lost r"
  "ended (r\<lparr>dr_state := st\<rparr>) j = ended r j"
  by (simp_all add: in_hand_def untouched_def nothing_lost_def ended_def)

lemma state_irrelevant_evicting [simp]:
  "evicting_core (r\<lparr>dr_state := st\<rparr>) j = evicting_core r j"
  "evicting (r\<lparr>dr_state := st\<rparr>) j = evicting r j"
  by (simp_all add: evicting_core_def evicting_def split: option.split)

lemma job_inv_state [simp]: "job_inv (r\<lparr>dr_state := st\<rparr>) j = job_inv r j"
  by (simp add: job_inv_def split: drain_pc.split)

lemma job_inv_UpdatedAt [simp]: "job_inv r (j\<lparr>dj_UpdatedAt := t\<rparr>) = job_inv r j"
  by (simp add: job_inv_def untouched_def evicting_def evicting_core_def ended_def split: drain_pc.split)

text \<open>A step that leaves the job, and a step that updates it.\<close>

lemma keeps_job:
  "job_of jobID r = Some j \<Longrightarrow> ks_drainJobs (dr_state r') = ks_drainJobs (dr_state r) \<Longrightarrow> job_inv r' j \<Longrightarrow>
    \<exists>j'. job_of jobID r' = Some j' \<and> job_advances j j' \<and> job_inv r' j'"
  by (auto simp: job_of_def)

lemma updates_job:
  assumes "job_of jobID r = Some j" and "ks_drainJobs (dr_state r') = ks_drainJobs (dr_state r)"
    and "job_advances j (f j)" and "job_inv r' (f j)"
  shows "\<exists>j'. job_of jobID (on_job b jobID f r') = Some j' \<and> job_advances j j' \<and> job_inv (on_job b jobID f r') j'"
proof -
  from assms(1,2) have "map_of (ks_drainJobs (dr_state r')) jobID = Some j" by (simp add: job_of_def)
  then obtain t where "map_of (ks_drainJobs (update_job b jobID f (dr_state r'))) jobID = Some (f j\<lparr>dj_UpdatedAt := t\<rparr>)"
    by (rule update_job_lookup)
  with assms(3,4) show ?thesis by (auto simp: on_job_def job_of_def)
qed

lemma give_up_on_job: "give_up b jobID msg r = on_job b jobID (failed_job msg) (r\<lparr>dr_pc := Finished\<rparr>)"
  by (simp add: give_up_def failDrain_def on_job_def)

lemma gives_up:
  assumes "job_of jobID r = Some j" and "ks_drainJobs (dr_state r') = ks_drainJobs (dr_state r)"
    and "dj_Phase j = DrainPhaseRunning" and "msg \<noteq> ''''"
    and "untouched r' j \<or> evicting r' j"
  shows "\<exists>j'. job_of jobID (give_up b jobID msg r') = Some j' \<and> job_advances j j' \<and> job_inv (give_up b jobID msg r') j'"
  unfolding give_up_on_job
  using assms by (intro updates_job)
    (auto simp: job_advances_def phase_step_def failed_job_def job_inv_def ended_def untouched_def evicting_def
        evicting_core_def Let_def)

lemma fail_simps [simp]:
  "dr_state (fail e r) = dr_state r" "dr_pc (fail e r) = dr_pc r" "dr_work (fail e r) = dr_work r"
  "dr_active (fail e r) = dr_active r" "dr_waiting (fail e r) = dr_waiting r" "dr_accepted (fail e r) = dr_accepted r"
  "dr_open (fail e r) = dr_open r" "dr_pending (fail e r) = dr_pending r" "dr_polled (fail e r) = dr_polled r"
  "dr_failure (fail e r) = Some (case dr_failure r of None \<Rightarrow> e | Some e' \<Rightarrow> e')" "dr_listed (fail e r) = dr_listed r"
  "dr_requested (fail e r) = dr_requested r" "dr_gone (fail e r) = dr_gone r"
  by (simp_all add: fail_def split: option.split)

lemma fail_evicting:
  "evicting_core r j \<Longrightarrow> (\<And>e'. dr_failure r = Some e' \<Longrightarrow> err_text e' \<noteq> '''') \<Longrightarrow> err_text e \<noteq> '''' \<Longrightarrow>
    evicting (fail e r) j"
  by (auto simp: evicting_def evicting_core_def in_hand_def split: option.split)

lemma error_texts [simp]:
  "err_text (evict_error p e) \<noteq> []" "err_text (timedOut ps e) \<noteq> []" "err_text (Errorf (c # s) e t) \<noteq> []"
  "refusal us \<noteq> []"
  by (simp_all add: evict_error_def timedOut_def refusal_def)

lemma in_hand_counts: "in_hand r \<subseteq># mset ps \<Longrightarrow> length (dr_pending r) + length (dr_gone r) \<le> length ps"
  by (drule size_mset_mono) (simp add: in_hand_def)

lemma remove1_counts: "p \<in> set xs \<Longrightarrow> Suc (length (remove1 p xs)) = length xs"
  by (auto simp: length_remove1 dest: length_pos_if_in_set)

lemma mset_partition: "mset (filter P xs) + mset (filter (\<lambda>x. \<not> P x) xs) = mset xs"
  by (induction xs) auto

text \<open>The steps of \<open>evictAll\<close> keep \<open>evicting\<close>, one by one.\<close>

lemma evicting_pass:
  assumes "evicting r j" and "in_hand r' = in_hand r"
    and "dr_listed r' = dr_listed r" "dr_failure r' = dr_failure r" "dr_gone r' = dr_gone r"
    and "set (dr_waiting r') \<union> set (dr_accepted r') \<union> set (dr_pending r') \<subseteq> set (dr_requested r')"
    and "set (dr_requested r) \<subseteq> set (dr_requested r')" "set (dr_requested r') \<subseteq> set (dr_requested r) \<union> set_mset (in_hand r)"
    and "length (dr_active r') + length (dr_waiting r') \<le> drainWorkers"
    and "dr_open r' \<or> dr_work r' = [] \<and> dr_active r' = [] \<and> dr_waiting r' = [] \<and> dr_accepted r' = []"
    and "dr_failure r = None \<Longrightarrow> dr_polled r' \<Longrightarrow> \<not> dr_open r' \<and> dr_pending r' = []"
  shows "evicting r' j"
proof -
  have "set_mset (in_hand r) \<subseteq> set (pods_to podEvict (dr_listed r))"
    using assms(1) by (auto simp: evicting_def evicting_core_def Let_def dest: mset_subset_eqD)
  with assms show ?thesis
    by (auto simp: evicting_def evicting_core_def nothing_lost_def Let_def split: option.splits)
qed

lemma evicting_requests:
  assumes "evicting r j" and "p \<in> set (dr_active r)"
  shows "p \<in> set_mset (in_hand r)" and "0 < length (dr_active r)"
  using assms by (auto simp: in_hand_def)

lemma evicting_hand:
  "evicting r j \<Longrightarrow> set (dr_waiting r) \<union> set (dr_accepted r) \<union> set (dr_pending r) \<union> set (dr_gone r) \<subseteq> set (dr_requested r)"
  "evicting r j \<Longrightarrow> length (dr_active r) + length (dr_waiting r) \<le> drainWorkers"
  "evicting r j \<Longrightarrow> dr_open r \<or> dr_work r = [] \<and> dr_active r = [] \<and> dr_waiting r = [] \<and> dr_accepted r = []"
  "evicting r j \<Longrightarrow> dr_failure r = None \<Longrightarrow> dr_polled r \<Longrightarrow> \<not> dr_open r \<and> dr_pending r = []"
  by (simp_all add: evicting_def evicting_core_def nothing_lost_def Let_def split: option.splits)

text \<open>A pod changes hands.\<close>

lemma takes_pod:
  assumes "evicting r j" and "dr_work r = p # ps" and "length (dr_active r) + length (dr_waiting r) < drainWorkers"
  shows "evicting (r\<lparr>dr_work := ps, dr_active := dr_active r @ [p]\<rparr>) j"
  using assms(2,3) evicting_hand [OF assms(1)]
  by (intro evicting_pass [OF assms(1)]) (auto simp: in_hand_def)

lemma remove1_hand:
  assumes "p \<in> set xs"
  obtains M where "mset xs = add_mset p M" and "mset (remove1 p xs) = M"
    and "set (remove1 p xs) \<subseteq> set xs" and "Suc (length (remove1 p xs)) = length xs"
  using that [of "mset xs - {#p#}"] assms set_remove1_subset [of p xs] remove1_counts [of p xs] by auto

lemma pod_accepted:
  assumes "evicting r j" and "p \<in> set (dr_active r)"
  shows "evicting (r\<lparr>dr_state := st, dr_active := remove1 p (dr_active r), dr_accepted := dr_accepted r @ [p],
    dr_requested := p # dr_requested r\<rparr>) j"
proof -
  obtain M where "mset (dr_active r) = add_mset p M" "mset (remove1 p (dr_active r)) = M"
    "Suc (length (remove1 p (dr_active r))) = length (dr_active r)"
    using remove1_hand [OF assms(2)] by metis
  with assms(2) evicting_hand [OF assms(1)] show ?thesis
    by (intro evicting_pass [OF assms(1)]) (auto simp: in_hand_def simp del: mset_remove1 length_remove1)
qed

lemma pod_waits:
  assumes "evicting r j" and "p \<in> set (dr_active r)"
  shows "evicting (r\<lparr>dr_state := st, dr_active := remove1 p (dr_active r), dr_waiting := dr_waiting r @ [p],
    dr_requested := p # dr_requested r\<rparr>) j"
proof -
  obtain M where "mset (dr_active r) = add_mset p M" "mset (remove1 p (dr_active r)) = M"
    "Suc (length (remove1 p (dr_active r))) = length (dr_active r)"
    using remove1_hand [OF assms(2)] by metis
  with assms(2) evicting_hand [OF assms(1)] show ?thesis
    by (intro evicting_pass [OF assms(1)]) (auto simp: in_hand_def simp del: mset_remove1 length_remove1)
qed

lemma pod_waited:
  assumes "evicting r j" and "p \<in> set (dr_waiting r)"
  shows "evicting (r\<lparr>dr_waiting := remove1 p (dr_waiting r), dr_active := dr_active r @ [p]\<rparr>) j"
proof -
  obtain M where "mset (dr_waiting r) = add_mset p M" "mset (remove1 p (dr_waiting r)) = M"
    "set (remove1 p (dr_waiting r)) \<subseteq> set (dr_waiting r)"
    "Suc (length (remove1 p (dr_waiting r))) = length (dr_waiting r)"
    using remove1_hand [OF assms(2)] by metis
  with assms(2) evicting_hand [OF assms(1)] show ?thesis
    by (intro evicting_pass [OF assms(1)]) (auto simp: in_hand_def simp del: mset_remove1 length_remove1)
qed

text \<open>The poller.\<close>

lemma pod_received:
  assumes "evicting r j" and "dr_open r" and "\<not> dr_polled r" and "dr_accepted r = p # ps"
  shows "evicting (r\<lparr>dr_accepted := ps, dr_pending := List.insert p (dr_pending r)\<rparr>) j"
proof (cases "p \<in> set (dr_pending r)")
  case False
  with assms(2-) evicting_hand [OF assms(1)] show ?thesis
    by (intro evicting_pass [OF assms(1)]) (auto simp: in_hand_def)
next
  case True
  let ?r = "r\<lparr>dr_accepted := ps, dr_pending := List.insert p (dr_pending r)\<rparr>"
  have "in_hand r = add_mset p (in_hand ?r)" "p \<in># in_hand ?r"
    using True assms(4) by (auto simp: in_hand_def)
  then have "in_hand ?r \<subseteq># in_hand r" "set_mset (in_hand ?r) = set_mset (in_hand r)" by auto
  with assms True show ?thesis
    by (auto simp: evicting_def evicting_core_def nothing_lost_def Let_def insert_absorb
        dest: subset_mset.order_trans split: option.splits)
qed

lemma pods_gone:
  assumes "evicting r j" and "gone = filter (\<lambda>p. p \<notin> X) (dr_pending r)" and "\<not> dr_polled r"
  shows "evicting (r\<lparr>dr_state := st, dr_pending := filter (\<lambda>p. p \<in> X) (dr_pending r), dr_gone := dr_gone r @ gone\<rparr>)
    (record_gone (sort (map key gone)) j)"
proof -
  let ?r = "r\<lparr>dr_state := st, dr_pending := filter (\<lambda>p. p \<in> X) (dr_pending r), dr_gone := dr_gone r @ gone\<rparr>"
  have "in_hand ?r = in_hand r"
    using mset_partition [of "\<lambda>p. p \<in> X" "dr_pending r"] by (auto simp: in_hand_def assms(2))
  moreover have "length (dr_gone r @ gone) \<le> length (pods_to podEvict (dr_listed r))"
  proof -
    have "in_hand ?r \<subseteq># mset (pods_to podEvict (dr_listed r))"
      using assms(1) \<open>in_hand ?r = in_hand r\<close> by (simp add: evicting_def evicting_core_def Let_def)
    from in_hand_counts [OF this] show ?thesis by simp
  qed
  ultimately show ?thesis
    using assms
    by (auto simp: evicting_def evicting_core_def nothing_lost_def record_gone_def Let_def split: option.splits)
qed

lemma inv_evicting: "job_inv r j \<Longrightarrow> dr_pc r = Evicting \<Longrightarrow> dj_Phase j = DrainPhaseRunning \<and> evicting r j"
  by (simp add: job_inv_def)

lemma invI_evicting: "dr_pc r = Evicting \<Longrightarrow> dj_Phase j = DrainPhaseRunning \<Longrightarrow> evicting r j \<Longrightarrow> job_inv r j"
  by (simp add: job_inv_def)

text \<open>A goroutine that fails: what it still has is lost, or handed on, and the failure is kept.\<close>

lemma evicting_fails:
  assumes "evicting r j" and "err_text e \<noteq> ''''" and "in_hand r' \<subseteq># in_hand r"
    and "dr_listed r' = dr_listed r" "dr_failure r' = dr_failure r" "dr_gone r' = dr_gone r"
    and "set (dr_waiting r') \<union> set (dr_accepted r') \<union> set (dr_pending r') \<subseteq> set (dr_requested r')"
    and "set (dr_requested r) \<subseteq> set (dr_requested r')" "set (dr_requested r') \<subseteq> set (dr_requested r) \<union> set_mset (in_hand r)"
    and "length (dr_active r') + length (dr_waiting r') \<le> drainWorkers"
    and "dr_open r' \<or> dr_work r' = [] \<and> dr_active r' = [] \<and> dr_waiting r' = [] \<and> dr_accepted r' = []"
  shows "evicting (fail e r') j"
proof (rule fail_evicting)
  have "set_mset (in_hand r) \<subseteq> set (pods_to podEvict (dr_listed r))"
    "in_hand r' \<subseteq># mset (pods_to podEvict (dr_listed r))"
    using assms(1,3) by (auto simp: evicting_def evicting_core_def Let_def dest: mset_subset_eqD subset_mset.order_trans)
  with assms show "evicting_core r' j"
    by (auto simp: evicting_def evicting_core_def Let_def)
  show "err_text e' \<noteq> ''''" if "dr_failure r' = Some e'" for e'
    using assms(1,5) that by (auto simp: evicting_def split: option.splits)
qed (rule assms(2))

lemma evicting_remaining:
  assumes "evicting r j"
  shows "0 \<le> dj_Remaining j"
proof -
  have "in_hand r \<subseteq># mset (pods_to podEvict (dr_listed r))"
    "dj_Remaining j = int (length (pods_to podEvict (dr_listed r))) - int (length (dr_gone r))"
    using assms by (auto simp: evicting_def evicting_core_def Let_def)
  with in_hand_counts [OF this(1)] show ?thesis by simp
qed

text \<open>Sorting one pod.\<close>

lemma sorting_next:
  assumes "job_inv r j" and "dr_pc r = Sorting (pod # pods) evictable unmanaged"
    and "dj_Phase j' = dj_Phase j" "dj_Evicted j' = dj_Evicted j"
    and "dj_Skipped j' = dj_Skipped j @ map key (pods_to podSkip [pod])"
    and "evictable' = evictable @ pods_to podEvict [pod]" "unmanaged' = unmanaged @ map key (pods_to podBlock [pod])"
  shows "job_inv (r\<lparr>dr_pc := Sorting pods evictable' unmanaged'\<rparr>) j'"
proof -
  from assms(1,2) obtain sorted where "dr_listed r = sorted @ pod # pods" "evictable = pods_to podEvict sorted"
    "unmanaged = map key (pods_to podBlock sorted)" "dj_Skipped j = map key (pods_to podSkip sorted)"
    by (auto simp: job_inv_def)
  with assms have "dr_listed r = (sorted @ [pod]) @ pods" "evictable' = pods_to podEvict (sorted @ [pod])"
    "unmanaged' = map key (pods_to podBlock (sorted @ [pod]))"
    "dj_Skipped j' = map key (pods_to podSkip (sorted @ [pod]))"
    by (simp_all del: pods_to_simps(3))
  with assms show ?thesis unfolding job_inv_def untouched_def by (simp del: pods_to_simps(2,3))
qed

text \<open>What happens around a drain leaves its job, and every step of the drain advances it.\<close>

lemma around_job:
  assumes "around_step jobID r r'" and "job_of jobID r = Some j" and "job_inv r j"
  shows "job_of jobID r' = Some j" and "job_inv r' j"
  using assms
  by (auto elim!: around_step.cases simp: job_of_def)
    (simp add: job_inv_def untouched_def evicting_def evicting_core_def nothing_lost_def ended_def in_hand_def
        split: drain_pc.splits option.splits)

lemma step_job:
  assumes "drain_step b jobID nodeID r r'" and "job_of jobID r = Some j" and "job_inv r j"
  shows "\<exists>j'. job_of jobID r' = Some j' \<and> job_advances j j' \<and> job_inv r' j'"
  using assms(1)
proof cases
  case start
  then show ?thesis
    using assms(2,3) unfolding start(1)
    by (intro updates_job) (auto simp: job_inv_def job_advances_def phase_step_def untouched_def)
next
  case (cordon_fails e st)
  then show ?thesis
    using assms(2,3) cordon_jobs [OF cordon_fails(3)] unfolding cordon_fails(1)
    by (intro gives_up) (auto simp: job_inv_def)
next
  case (cordon st)
  then show ?thesis
    using assms(2,3) cordon_jobs [OF cordon(3)] unfolding cordon(1)
    by (intro keeps_job) (auto simp: job_inv_def untouched_def)
next
  case (list_fails e st)
  then show ?thesis
    using assms(2,3) list_jobs [OF list_fails(3)] unfolding list_fails(1)
    by (intro gives_up) (auto simp: job_inv_def)
next
  case (lists pods st)
  then show ?thesis
    using assms(2,3) list_jobs [OF lists(3)] unfolding lists(1)
    by (intro keeps_job) (auto simp: job_inv_def untouched_def intro!: exI [of _ "[]"])
next
  case (sort_nameless pod pods evictable unmanaged ref action)
  show ?thesis
    using assms(2) sorting_next [OF assms(3) sort_nameless(2)] sort_nameless(3-) unfolding sort_nameless(1)
    by (intro keeps_job) (simp_all add: Let_def)
next
  case (sort_skip pod pods evictable unmanaged ref)
  show ?thesis
    using assms(2) sorting_next [OF assms(3) sort_skip(2)] sort_skip(3-) unfolding sort_skip(1)
    by (intro updates_job) (simp_all add: Let_def job_advances_def)
next
  case (sort_block pod pods evictable unmanaged ref)
  show ?thesis
    using assms(2) sorting_next [OF assms(3) sort_block(2)] sort_block(3-) unfolding sort_block(1)
    by (intro keeps_job) (simp_all add: Let_def)
next
  case (sort_evict pod pods evictable unmanaged ref)
  show ?thesis
    using assms(2) sorting_next [OF assms(3) sort_evict(2)] sort_evict(3-) unfolding sort_evict(1)
    by (intro keeps_job) (simp_all add: Let_def)
next
  case (refuse evictable unmanaged)
  then show ?thesis
    using assms(2,3) unfolding refuse(1)
    by (intro gives_up) (auto simp: job_inv_def)
next
  case (sorted evictable)
  then show ?thesis
    using assms(2,3) unfolding sorted(1)
    by (intro updates_job) (auto simp: job_inv_def job_advances_def untouched_def evicting_def evicting_core_def
        nothing_lost_def in_hand_def)
next
  case (take p ps)
  with inv_evicting [OF assms(3)] assms(2) show ?thesis
    unfolding take(1) by (intro keeps_job invI_evicting takes_pod) simp_all
next
  case (take_cancelled p ps e)
  note inv = inv_evicting [OF assms(3) take_cancelled(2)]
  have "evicting r' j"
    unfolding take_cancelled(1) using take_cancelled(2-) evicting_hand [OF conjunct2 [OF inv]]
    by (intro evicting_fails [OF conjunct2 [OF inv]]) (auto simp: in_hand_def)
  with inv assms(2) take_cancelled show ?thesis by (intro keeps_job invI_evicting) simp_all
next
  case (evict_fails p e st)
  note inv = inv_evicting [OF assms(3) evict_fails(2)]
  have "evicting r' j"
    unfolding evict_fails(1) using evict_fails(3) evicting_hand [OF conjunct2 [OF inv]] remove1_counts [of p "dr_active r"]
    by (intro evicting_fails [OF conjunct2 [OF inv]]) (auto simp: in_hand_def simp del: length_remove1)
  with inv assms(2) evict_fails on_world_jobs [OF evict_fails(4)] show ?thesis
    by (intro keeps_job invI_evicting) simp_all
next
  case (evict_ok p st)
  with inv_evicting [OF assms(3)] assms(2) on_world_jobs [OF evict_ok(4)] show ?thesis
    unfolding evict_ok(1) by (intro keeps_job invI_evicting pod_accepted) simp_all
next
  case (evict_again p st)
  with inv_evicting [OF assms(3)] assms(2) on_world_jobs [OF evict_again(4)] show ?thesis
    unfolding evict_again(1) by (intro keeps_job invI_evicting pod_waits) simp_all
next
  case (waited p)
  with inv_evicting [OF assms(3)] assms(2) show ?thesis
    unfolding waited(1) by (intro keeps_job invI_evicting pod_waited) simp_all
next
  case (wait_ended p e)
  note inv = inv_evicting [OF assms(3) wait_ended(2)]
  have "evicting r' j"
    unfolding wait_ended(1)
    using wait_ended(3) evicting_hand [OF conjunct2 [OF inv]] remove1_counts [OF wait_ended(3)]
      set_remove1_subset [of p "dr_waiting r"]
    by (intro evicting_fails [OF conjunct2 [OF inv]]) (auto simp: in_hand_def)
  with inv assms(2) wait_ended show ?thesis by (intro keeps_job invI_evicting) simp_all
next
  case (receive p ps)
  with inv_evicting [OF assms(3)] assms(2) show ?thesis
    unfolding receive(1) by (intro keeps_job invI_evicting pod_received) simp_all
next
  case closed
  note inv = inv_evicting [OF assms(3) closed(2)]
  have "evicting r' j"
    unfolding closed(1) using closed(2-) evicting_hand [OF conjunct2 [OF inv]]
    by (intro evicting_pass [OF conjunct2 [OF inv]]) (auto simp: in_hand_def)
  with inv assms(2) closed show ?thesis by (intro keeps_job invI_evicting) simp_all
next
  case (poll_ended e)
  note inv = inv_evicting [OF assms(3) poll_ended(2)]
  have "evicting r' j"
    unfolding poll_ended(1) using poll_ended(2-) evicting_hand [OF conjunct2 [OF inv]]
    by (intro evicting_fails [OF conjunct2 [OF inv]]) (auto simp: in_hand_def)
  with inv assms(2) poll_ended show ?thesis by (intro keeps_job invI_evicting) simp_all
next
  case (poll_fails e st)
  note inv = inv_evicting [OF assms(3) poll_fails(2)]
  have "evicting r' j"
    unfolding poll_fails(1) using evicting_hand [OF conjunct2 [OF inv]]
    by (intro evicting_fails [OF conjunct2 [OF inv]]) (auto simp: in_hand_def split: option.splits)
  with inv assms(2) poll_fails list_jobs [OF poll_fails(5)] show ?thesis
    by (intro keeps_job invI_evicting) simp_all
next
  case (poll pods st)
  note inv = inv_evicting [OF assms(3) poll(2)]
  define gone where "gone = filter (\<lambda>p. p \<notin> set (refs_of pods)) (dr_pending r)"
  define r2 where "r2 = r\<lparr>dr_state := st, dr_pending := filter (\<lambda>p. p \<in> set (refs_of pods)) (dr_pending r),
    dr_gone := dr_gone r @ gone\<rparr>"
  have r': "r' = (if gone \<noteq> [] then on_job b jobID (record_gone (sort (map key gone))) r2 else r2)"
    unfolding poll(1) by (simp add: poll_result_def gone_def r2_def Let_def)
  have job: "evicting r2 (record_gone (sort (map key gone)) j)"
    unfolding r2_def using inv poll(3) gone_def by (intro pods_gone) simp_all
  have same: "ks_drainJobs (dr_state r2) = ks_drainJobs (dr_state r)" "dr_pc r2 = Evicting"
    using list_jobs [OF poll(5)] poll(2) by (simp_all add: r2_def)
  show ?thesis
  proof (cases "gone = []")
    case True
    have "record_gone [] j = j"
      using evicting_remaining [OF conjunct2 [OF inv]] by (simp add: record_gone_def)
    with True job same inv assms(2) show ?thesis
      unfolding r' by (simp only: if_False simp_thms) (intro keeps_job invI_evicting; simp)
  next
    case False
    with job same inv assms(2) show ?thesis
      unfolding r'
      by (simp only: if_True simp_thms) (intro updates_job invI_evicting; simp add: record_gone_def job_advances_def)
  qed
next
  case poll_done
  note inv = inv_evicting [OF assms(3) poll_done(2)]
  have "evicting r' j"
    unfolding poll_done(1) using poll_done(2-) evicting_hand [OF conjunct2 [OF inv]]
    by (intro evicting_pass [OF conjunct2 [OF inv]]) (auto simp: in_hand_def)
  with inv assms(2) poll_done show ?thesis by (intro keeps_job invI_evicting) simp_all
next
  case (fails e)
  note inv = inv_evicting [OF assms(3) fails(2)]
  then show ?thesis
    using assms(2) fails unfolding fails(1) by (intro gives_up) (auto simp: evicting_def)
next
  case succeeds
  note inv = inv_evicting [OF assms(3) succeeds(2)]
  then show ?thesis
    using assms(2) succeeds unfolding succeeds(1)
    by (intro updates_job) (auto simp: job_inv_def job_advances_def phase_step_def ended_def evicting_def
        evicting_core_def nothing_lost_def in_hand_def Let_def)
qed

subsection \<open>Runs\<close>

lemma run_job:
  assumes "map_of (ks_drainJobs st) jobID = Some (new_job jobID nodeID now)"
    and "(run_step b jobID nodeID)\<^sup>*\<^sup>* (new_run st) r"
  obtains j where "job_of jobID r = Some j" and "job_inv r j" and "dj_ID j = jobID" and "dj_NodeID j = nodeID"
proof -
  from assms(2) have "\<exists>j. job_of jobID r = Some j \<and> job_inv r j \<and> dj_ID j = jobID \<and> dj_NodeID j = nodeID"
  proof (induction rule: rtranclp_induct)
    case base
    from assms(1) show ?case
      by (auto simp: job_of_def new_run_def job_inv_def untouched_def new_job_def)
  next
    case (step r1 r2)
    then obtain j where j: "job_of jobID r1 = Some j" "job_inv r1 j" "dj_ID j = jobID" "dj_NodeID j = nodeID" by blast
    from step.hyps(2) show ?case
      unfolding run_step_def
    proof
      assume "drain_step b jobID nodeID r1 r2"
      from step_job [OF this j(1,2)] j(3,4) show ?thesis by (auto simp: job_advances_def)
    next
      assume "around_step jobID r1 r2"
      from around_job [OF this j(1,2)] j(3,4) show ?thesis by auto
    qed
  qed
  with that show ?thesis by blast
qed








lemma job_inv_requests:
  assumes "job_inv r j"
  shows "set (dr_requested r) \<subseteq> set (pods_to podEvict (dr_listed r))"
    and "dr_requested r \<noteq> [] \<Longrightarrow> pods_to podBlock (dr_listed r) = []"
    and "mset (dj_Evicted j) = mset (map key (dr_gone r))" and "set (dr_gone r) \<subseteq> set (dr_requested r)"
  using assms
  by (auto simp: job_inv_def untouched_def evicting_def evicting_core_def ended_def Let_def split: drain_pc.splits)


text \<open>A pod of a listing is the one that a drain deals with when namespace, name and UID agree.\<close>

definition is_pod :: "pod_ref \<Rightarrow> object \<Rightarrow> bool" where
  "is_pod p pod \<longleftrightarrow> stringAt pod [''metadata'', ''name''] = ref_name p \<and> stringAt pod [''metadata'', ''uid''] = ref_uid p
     \<and> (let ns = stringAt pod [''metadata'', ''namespace''] in if ns = '''' then ''default'' else ns) = ref_namespace p"

lemma classifyPod_is_pod: "ref_name p \<noteq> '''' \<Longrightarrow> fst (classifyPod pod) = p \<longleftrightarrow> is_pod p pod"
  by (cases p) (auto simp: classifyPod_def is_pod_def Let_def split: option.splits)

lemma refs_of_is_pod: "ref_name p \<noteq> '''' \<Longrightarrow> p \<in> set (refs_of pods) \<longleftrightarrow> (\<exists>pod \<in> set pods. is_pod p pod)"
  using classifyPod_is_pod [of p] by (force simp: refs_of_def)

lemma pods_to_named: "p \<in> set (pods_to a pods) \<Longrightarrow> ref_name p \<noteq> ''''"
  unfolding pods_to_def by (induction pods) (auto split: if_splits prod.splits)

text \<open>
  What happened before a run reached \<open>r\<close>: the API server accepted the eviction of a pod, and, after that, a
  listing of the node did not have the pod.
\<close>

definition was_accepted :: "'w kube_backend \<Rightarrow> string \<Rightarrow> string \<Rightarrow> 'w drain_run \<Rightarrow> 'w drain_run \<Rightarrow> pod_ref \<Rightarrow> bool" where
  "was_accepted b jobID nodeID r0 r p \<longleftrightarrow> (\<exists>r1 st. (run_step b jobID nodeID)\<^sup>*\<^sup>* r0 r1 \<and> (run_step b jobID nodeID)\<^sup>*\<^sup>* r1 r
     \<and> on_world (evict_try (kb_client b) p) (dr_state r1) = (Inr True, st))"

definition seen_gone :: "'w kube_backend \<Rightarrow> string \<Rightarrow> string \<Rightarrow> 'w drain_run \<Rightarrow> 'w drain_run \<Rightarrow> pod_ref \<Rightarrow> bool" where
  "seen_gone b jobID nodeID r0 r p \<longleftrightarrow> (\<exists>r1 pods st. was_accepted b jobID nodeID r0 r1 p \<and> (run_step b jobID nodeID)\<^sup>*\<^sup>* r1 r
     \<and> listNodePods b nodeID (dr_state r1) = (Inr pods, st) \<and> \<not> (\<exists>pod \<in> set pods. is_pod p pod))"

lemma was_accepted_later:
  "was_accepted b jobID nodeID r0 r p \<Longrightarrow> run_step b jobID nodeID r r' \<Longrightarrow> was_accepted b jobID nodeID r0 r' p"
  unfolding was_accepted_def by (meson rtranclp.rtrancl_into_rtrancl)

lemma seen_gone_later:
  "seen_gone b jobID nodeID r0 r p \<Longrightarrow> run_step b jobID nodeID r r' \<Longrightarrow> seen_gone b jobID nodeID r0 r' p"
  unfolding seen_gone_def by (meson rtranclp.rtrancl_into_rtrancl)

text \<open>A pod comes to the poller by an accepted eviction only, and leaves it by a listing without it only.\<close>

definition with_poller :: "'w drain_run \<Rightarrow> pod_ref set" where
  "with_poller r = set (dr_accepted r) \<union> set (dr_pending r)"

lemma with_poller_named:
  assumes "job_inv r j" and "p \<in> with_poller r"
  shows "ref_name p \<noteq> ''''"
proof -
  have "p \<in> set (dr_requested r)"
    using assms by (auto simp: with_poller_def job_inv_def untouched_def ended_def dest: evicting_hand(1) split: drain_pc.splits)
  with job_inv_requests(1) [OF assms(1)] show ?thesis by (auto dest: pods_to_named)
qed

lemma poll_result_simps [simp]:
  "dr_accepted (poll_result b jobID pods r) = dr_accepted r"
  "dr_pending (poll_result b jobID pods r) = filter (\<lambda>p. p \<in> set (refs_of pods)) (dr_pending r)"
  "dr_gone (poll_result b jobID pods r) = dr_gone r @ filter (\<lambda>p. p \<notin> set (refs_of pods)) (dr_pending r)"
  by (simp_all add: poll_result_def on_job_def Let_def)

lemma step_accepts:
  assumes "drain_step b jobID nodeID r r'" and "p \<in> with_poller r'"
  shows "p \<in> with_poller r \<or> (\<exists>st. on_world (evict_try (kb_client b) p) (dr_state r) = (Inr True, st))"
  using assms by cases (auto simp: with_poller_def on_job_def give_up_def split: if_splits)

lemma step_sees_gone:
  assumes "drain_step b jobID nodeID r r'" and "p \<in> set (dr_gone r')"
  shows "p \<in> set (dr_gone r) \<or> p \<in> with_poller r
    \<and> (\<exists>pods st. listNodePods b nodeID (dr_state r) = (Inr pods, st) \<and> p \<notin> set (refs_of pods))"
  using assms by cases (auto simp: with_poller_def on_job_def give_up_def split: if_splits)

lemma poll_exact:
  assumes "job_of jobID r = Some j" and "job_inv r j" and "listNodePods b nodeID (dr_state r) = (Inr pods, st')"
  shows "\<exists>j'. job_of jobID (poll_result b jobID pods (r\<lparr>dr_state := st'\<rparr>)) = Some j'
    \<and> dj_Evicted j' = dj_Evicted j @ sort (map key (filter (\<lambda>p. \<not> (\<exists>pod \<in> set pods. is_pod p pod)) (dr_pending r)))
    \<and> dr_pending (poll_result b jobID pods (r\<lparr>dr_state := st'\<rparr>)) = filter (\<lambda>p. \<exists>pod \<in> set pods. is_pod p pod) (dr_pending r)"
proof -
  have named: "ref_name p \<noteq> ''''" if "p \<in> set (dr_pending r)" for p
    using that with_poller_named [OF assms(2)] by (simp add: with_poller_def)
  have split: "filter (\<lambda>p. p \<in> set (refs_of pods)) (dr_pending r) = filter (\<lambda>p. \<exists>pod \<in> set pods. is_pod p pod) (dr_pending r)"
    "filter (\<lambda>p. p \<notin> set (refs_of pods)) (dr_pending r) = filter (\<lambda>p. \<not> (\<exists>pod \<in> set pods. is_pod p pod)) (dr_pending r)"
    using refs_of_is_pod [OF named] by (auto intro!: filter_cong)
  have "map_of (ks_drainJobs st') jobID = Some j" using assms(1) list_jobs [OF assms(3)] by (simp add: job_of_def)
  moreover define gone where "gone = sort (map key (filter (\<lambda>p. \<not> (\<exists>pod \<in> set pods. is_pod p pod)) (dr_pending r)))"
  moreover obtain t where
    "map_of (ks_drainJobs (update_job b jobID (record_gone gone) st')) jobID = Some (record_gone gone j\<lparr>dj_UpdatedAt := t\<rparr>)"
    by (rule update_job_lookup [OF calculation(1)])
  ultimately show ?thesis
    using split by (auto simp: poll_result_def on_job_def job_of_def record_gone_def Let_def)
qed

lemma around_poller:
  "around_step jobID r r' \<Longrightarrow> with_poller r' = with_poller r \<and> dr_gone r' = dr_gone r"
  by (auto elim!: around_step.cases simp: with_poller_def)

lemma run_history:
  assumes "map_of (ks_drainJobs st) jobID = Some (new_job jobID nodeID now)"
    and "(run_step b jobID nodeID)\<^sup>*\<^sup>* (new_run st) r"
  shows "(\<forall>p \<in> with_poller r. was_accepted b jobID nodeID (new_run st) r p)
    \<and> (\<forall>p \<in> set (dr_gone r). seen_gone b jobID nodeID (new_run st) r p)"
  using assms(2)
proof (induction rule: rtranclp_induct)
  case base
  show ?case by (simp add: with_poller_def new_run_def)
next
  case (step r1 r2)
  obtain j where j: "job_inv r1 j" by (rule run_job [OF assms(1) step.hyps(1)])
  note named = with_poller_named [OF j]
  have accepted: "was_accepted b jobID nodeID (new_run st) r2 p"
    if "on_world (evict_try (kb_client b) p) (dr_state r1) = (Inr True, st')" for p st'
    unfolding was_accepted_def using that step.hyps by blast
  show ?case
  proof (cases "drain_step b jobID nodeID r1 r2")
    case True
    have "seen_gone b jobID nodeID (new_run st) r2 p"
      if "p \<in> with_poller r1" "listNodePods b nodeID (dr_state r1) = (Inr pods, st')" "p \<notin> set (refs_of pods)" for p pods st'
      unfolding seen_gone_def using that step refs_of_is_pod [OF named [OF that(1)]] by blast
    with step_accepts [OF True] step_sees_gone [OF True] step.IH accepted show ?thesis
      by (meson step.hyps(2) was_accepted_later seen_gone_later)
  next
    case False
    with step.hyps(2) have "around_step jobID r1 r2" by (simp add: run_step_def)
    with around_poller [OF this] step show ?thesis
      using was_accepted_later seen_gone_later by metis
  qed
qed

text \<open>C5: what a drain says is so. The pods recorded as evicted are pods whose eviction the API server accepted and
  that a later listing of the node did not have; and when the poller gets a listing, exactly the pending pods
  that it lacks, by namespace, name and UID, are recorded, and the others stay pending. While a drain runs,
  \<open>Remaining\<close> is the number of evictable pods not yet recorded. A job that succeeded has nothing remaining and
  has seen every evictable pod of its listing go, its \<open>Skipped\<close> are the skipped ones in order, and the node
  had no unmanaged pod; a job that failed has a reason; and the worker has ended exactly when its
  job is finished.\<close>

theorem drain_result_is_true:
  assumes "map_of (ks_drainJobs st) jobID = Some (new_job jobID nodeID now)"
    and "(run_step b jobID nodeID)\<^sup>*\<^sup>* (new_run st) r"
  shows "\<exists>j. job_of jobID r = Some j \<and> dj_NodeID j = nodeID
    \<and> (drainFinished j \<longleftrightarrow> dr_pc r = Finished)
    \<and> mset (dj_Evicted j) = mset (map key (dr_gone r))
    \<and> (\<forall>p \<in> set (dr_gone r). seen_gone b jobID nodeID (new_run st) r p)
    \<and> (\<forall>pods st'. listNodePods b nodeID (dr_state r) = (Inr pods, st') \<longrightarrow>
        (\<exists>j'. job_of jobID (poll_result b jobID pods (r\<lparr>dr_state := st'\<rparr>)) = Some j'
          \<and> dj_Evicted j' = dj_Evicted j @ sort (map key (filter (\<lambda>p. \<not> (\<exists>pod \<in> set pods. is_pod p pod)) (dr_pending r)))
          \<and> dr_pending (poll_result b jobID pods (r\<lparr>dr_state := st'\<rparr>))
            = filter (\<lambda>p. \<exists>pod \<in> set pods. is_pod p pod) (dr_pending r)))
    \<and> (dr_pc r = Evicting \<longrightarrow> 0 \<le> dj_Remaining j
        \<and> dj_Remaining j = int (length (pods_to podEvict (dr_listed r))) - int (length (dj_Evicted j)))
    \<and> (dj_Phase j = DrainPhaseSucceeded \<longrightarrow> dj_Remaining j = 0
        \<and> set (dj_Evicted j) = key ` set (pods_to podEvict (dr_listed r))
        \<and> (\<forall>p \<in> set (pods_to podEvict (dr_listed r)). seen_gone b jobID nodeID (new_run st) r p)
        \<and> set (dr_requested r) = set (pods_to podEvict (dr_listed r))
        \<and> dj_Skipped j = map key (pods_to podSkip (dr_listed r)) \<and> pods_to podBlock (dr_listed r) = [])
    \<and> (dj_Phase j = DrainPhaseFailed \<longrightarrow> dj_Error j \<noteq> '''')"
proof -
  obtain j where j: "job_of jobID r = Some j" "job_inv r j" "dj_NodeID j = nodeID" by (rule run_job [OF assms])
  have finished: "drainFinished j \<longleftrightarrow> dr_pc r = Finished"
    using j(2) by (auto simp: job_inv_def drainFinished_def ended_def split: drain_pc.splits)
  have evicted: "set (dj_Evicted j) = key ` set (dr_gone r)" "length (dj_Evicted j) = length (dr_gone r)"
    using job_inv_requests(3) [OF j(2)] by (metis mset_eq_setD set_map, metis length_map mset_eq_length)
  have run: "dr_pc r = Evicting \<Longrightarrow> evicting r j" using j(2) by (simp add: job_inv_def)
  have over: "ended r j" if "dj_Phase j \<in> {DrainPhaseSucceeded, DrainPhaseFailed}"
    using that finished j(2) by (auto simp: drainFinished_def job_inv_def)
  note seen = conjunct2 [OF run_history [OF assms]]
  note polled = poll_exact [OF j(1,2)]
  have "dr_pc r = Evicting \<longrightarrow> 0 \<le> dj_Remaining j
        \<and> dj_Remaining j = int (length (pods_to podEvict (dr_listed r))) - int (length (dj_Evicted j))"
    using run evicting_remaining [of r j] evicted(2) by (auto simp: evicting_def evicting_core_def Let_def)
  moreover have "dj_Phase j = DrainPhaseSucceeded \<longrightarrow> dj_Remaining j = 0
        \<and> set (dj_Evicted j) = key ` set (pods_to podEvict (dr_listed r))
        \<and> (\<forall>p \<in> set (pods_to podEvict (dr_listed r)). seen_gone b jobID nodeID (new_run st) r p)
        \<and> set (dr_requested r) = set (pods_to podEvict (dr_listed r))
        \<and> dj_Skipped j = map key (pods_to podSkip (dr_listed r)) \<and> pods_to podBlock (dr_listed r) = []"
    using over evicted(1) seen by (auto simp: ended_def)
  moreover have "dj_Phase j = DrainPhaseFailed \<longrightarrow> dj_Error j \<noteq> ''''"
    using over by (auto simp: ended_def)
  ultimately show ?thesis
    using j(1,3) finished job_inv_requests(3) [OF j(2)] seen polled by blast
qed

text \<open>C24: the drain worker refines the life of a job. A job goes from pending to running to succeeded or failed; every
  step of its drain keeps its id, node and start or is one move of that machine, and only adds to
  what a client has already seen as evicted or skipped; what others do leaves the job alone.\<close>

theorem drain_refines_job_life:
  assumes "map_of (ks_drainJobs st) jobID = Some (new_job jobID nodeID now)"
    and "(run_step b jobID nodeID)\<^sup>*\<^sup>* (new_run st) r" and "run_step b jobID nodeID r r'"
  shows "\<exists>j j'. job_of jobID r = Some j \<and> job_of jobID r' = Some j' \<and> job_advances j j'
    \<and> (\<not> drain_step b jobID nodeID r r' \<longrightarrow> j' = j)"
proof -
  obtain j where j: "job_of jobID r = Some j" "job_inv r j" by (rule run_job [OF assms(1,2)])
  show ?thesis
  proof (cases "drain_step b jobID nodeID r r'")
    case True
    from step_job [OF this j] j(1) True show ?thesis by blast
  next
    case False
    with assms(3) have "around_step jobID r r'" by (simp add: run_step_def)
    from around_job [OF this j] j(1) show ?thesis by auto
  qed
qed

subsection \<open>A drain ends\<close>

text \<open>
  What is left for a drain to do once its context has ended and requests fail for it: a number that every
  step decreases.
\<close>

definition left :: "'w drain_run \<Rightarrow> nat" where
  "left r = (case dr_pc r of
       Starting \<Rightarrow> 2 | Cordoning \<Rightarrow> 1 | Listing \<Rightarrow> 1
     | Sorting pods evictable unmanaged \<Rightarrow> 5 * length pods + 4 * length evictable + 5
     | Evicting \<Rightarrow> 4 * length (dr_work r) + 3 * length (dr_waiting r) + 2 * length (dr_active r)
         + length (dr_accepted r) + (if dr_open r then 1 else 0) + (if dr_polled r then 0 else 1) + 1
     | Finished \<Rightarrow> 0)"

lemma do_request_fails:
  assumes "\<And>req w. dead w \<Longrightarrow> \<exists>e w'. rc_Do c req w = (Inl e, w') \<and> dead w'" and "dead w"
  shows "\<exists>e w'. do_request c method path query ct body w = (Inl e, w') \<and> dead w'"
proof (cases "build_request c method path query ct body")
  case (Inr req)
  obtain e w' where "rc_Do c req w = (Inl e, w')" "dead w'" using assms by blast
  with Inr show ?thesis by (simp add: do_request_def)
qed (simp add: do_request_def assms(2))

text \<open>A property of the world under which requests fail, and which requests and the clock keep.\<close>

definition requests_fail :: "'w kube_backend \<Rightarrow> ('w \<Rightarrow> bool) \<Rightarrow> bool" where
  "requests_fail b dead \<longleftrightarrow>
     (\<forall>w. dead w \<longrightarrow> (\<forall>req. \<exists>e w'. rc_Do (kb_client b) req w = (Inl e, w') \<and> dead w') \<and> dead (snd (kb_now b w)))"

lemma request_fails:
  assumes "requests_fail b dead" and "dead w"
  obtains e w' where "do_request (kb_client b) method path query ct body w = (Inl e, w')" and "dead w'"
  using do_request_fails [of dead "kb_client b" w] assms unfolding requests_fail_def by blast

lemma cordon_dead:
  assumes "requests_fail b dead" and "dead (ks_world st)"
    and "kube_CordonNode b c nodeID u st = (x, st')"
  shows "(\<exists>e. x = Inl e) \<and> dead (ks_world st')"
proof -
  obtain e w' where "do_request (kb_client b) ''PATCH'' (''/api/v1/nodes/'' @ PathEscape nodeID) []
      ''application/merge-patch+json'' (Some (cordon_body u)) (ks_world st) = (Inl e, w')" "dead w'"
    using request_fails [OF assms(1,2)] by blast
  note sent = this
  show ?thesis
  proof (cases "ValidateNodeID nodeID")
    case (Inl a)
    show ?thesis using assms(2,3) by (auto simp: Inl kube_CordonNode_def split: if_splits)
  next
    case (Inr _)
    show ?thesis using assms(2,3) sent
      by (auto simp: Inr kube_CordonNode_def send_patch_def on_world_def Patch_def split: if_splits)
  qed
qed

lemma list_dead:
  assumes "requests_fail b dead" and "dead (ks_world st)"
    and "listNodePods b nodeID st = (x, st')"
  shows "(\<exists>e. x = Inl e) \<and> dead (ks_world st')"
proof -
  obtain e w' where "do_request (kb_client b) ''GET'' ''/api/v1/pods''
      [(''fieldSelector'', [''spec.nodeName='' @ nodeID])] '''' None (ks_world st) = (Inl e, w')" "dead w'"
    using request_fails [OF assms(1,2)] by blast
  with assms(3) show ?thesis by (auto simp: listNodePods_def on_world_def GetJSON_def)
qed

lemma evict_dead:
  assumes "requests_fail b dead" and "dead (ks_world st)"
    and "on_world (evict_try (kb_client b) p) st = (x, st')"
  shows "(\<exists>e. x = Inl e) \<and> dead (ks_world st')"
proof -
  obtain e w' where "do_request (kb_client b) ''POST'' (evict_path p) [] ''application/json''
      (Some (evict_payload p)) (ks_world st) = (Inl e, w')" "dead w'"
    using request_fails [OF assms(1,2)] by blast
  with assms(3) show ?thesis by (auto simp: evict_try_def on_world_def Post_def)
qed

lemma update_dead:
  "requests_fail b dead \<Longrightarrow> dead (ks_world st) \<Longrightarrow> dead (ks_world (update_job b jobID f st))"
  by (auto simp: requests_fail_def update_job_def on_world_def split: option.splits prod.splits)

lemma job_dead:
  assumes "requests_fail b dead" and "dead (ks_world (dr_state r))"
  shows "dead (ks_world (dr_state (on_job b jobID f r)))" and "dead (ks_world (dr_state (give_up b jobID msg r)))"
  using update_dead [OF assms] by (simp_all add: on_job_def give_up_def failDrain_def)

lemma left_simps [simp]:
  "left (on_job b jobID f r) = left r"
  "left (give_up b jobID msg r) = 0"
  "left (fail e r) = left r"
  "dr_ctx_Err (on_job b jobID f r) = dr_ctx_Err r"
  "dr_ctx_Err (give_up b jobID msg r) = dr_ctx_Err r"
  by (simp_all add: left_def on_job_def give_up_def split: drain_pc.split)

lemma fail_ctx: "dr_ctx_Err r \<noteq> None \<Longrightarrow> dr_ctx_Err (fail e r) \<noteq> None"
  by (simp add: fail_def)

text \<open>A step with a dead context and dead requests.\<close>

lemma step_left:
  assumes "drain_step b jobID nodeID r r'" and "job_inv r j" and "requests_fail b dead"
    and "dead (ks_world (dr_state r))" and "dr_ctx_Err r \<noteq> None"
  shows "left r' < left r \<and> dead (ks_world (dr_state r')) \<and> dr_ctx_Err r' \<noteq> None"
  using assms(1)
proof cases
  case start
  then show ?thesis using job_dead [OF assms(3)] assms(4,5) by (simp add: left_def [of "_\<lparr>dr_pc := _\<rparr>"] left_def [of r])
next
  case (cordon_fails e st)
  with cordon_dead [OF assms(3,4) cordon_fails(3)] show ?thesis
    using assms(5) by (auto simp: left_def [of r] intro: job_dead [OF assms(3)])
next
  case (cordon st)
  then show ?thesis using cordon_dead [OF assms(3,4) cordon(3)] by simp
next
  case (list_fails e st)
  with list_dead [OF assms(3,4) list_fails(3)] show ?thesis
    using assms(5) by (auto simp: left_def [of r] intro: job_dead [OF assms(3)])
next
  case (lists pods st)
  then show ?thesis using list_dead [OF assms(3,4) lists(3)] by simp
next
  case (sort_skip pod pods evictable unmanaged ref)
  then show ?thesis
    using job_dead [OF assms(3)] assms(4,5) by (simp add: left_def [of "_\<lparr>dr_pc := _\<rparr>"] left_def [of r])
next
  case (sorted evictable)
  with assms(2) have "untouched r j" by (simp add: job_inv_def)
  with sorted show ?thesis
    using job_dead [OF assms(3)] assms(4,5)
    by (simp add: left_def [of "_\<lparr>dr_pc := _, dr_work := _\<rparr>"] left_def [of r] untouched_def)
next
  case (evict_fails p e st)
  with evict_dead [OF assms(3,4) evict_fails(4)] show ?thesis
    using assms(5) remove1_counts [of p "dr_active r"]
    by (auto simp: left_def [of r] left_def [of "_\<lparr>dr_state := _, dr_active := _, dr_requested := _\<rparr>"]
        fail_ctx simp del: length_remove1)
next
  case (evict_ok p st)
  then show ?thesis using evict_dead [OF assms(3,4) evict_ok(4)] by simp
next
  case (evict_again p st)
  then show ?thesis using evict_dead [OF assms(3,4) evict_again(4)] by simp
next
  case (poll_fails e st)
  with list_dead [OF assms(3,4) poll_fails(5)] show ?thesis
    using assms(5) by (auto simp: left_def [of r] left_def [of "_\<lparr>dr_state := _, dr_polled := _\<rparr>"] fail_ctx)
next
  case (poll pods st)
  then show ?thesis using list_dead [OF assms(3,4) poll(5)] by simp
next
  case (refuse evictable unmanaged)
  then show ?thesis using assms(4,5) job_dead [OF assms(3,4)] by (simp add: left_def [of r])
next
  case (take_cancelled p ps e)
  then show ?thesis using assms(4,5) by (simp add: left_def [of r] left_def [of "_\<lparr>dr_work := _\<rparr>"] fail_ctx)
next
  case (wait_ended p e)
  then show ?thesis using assms(4,5) remove1_counts [of p "dr_waiting r"]
    by (simp add: left_def [of r] left_def [of "_\<lparr>dr_waiting := _\<rparr>"] fail_ctx del: length_remove1)
next
  case (waited p)
  then show ?thesis using assms(4,5) remove1_counts [of p "dr_waiting r"] by (simp add: left_def del: length_remove1)
next
  case (poll_ended e)
  then show ?thesis using assms(4,5) by (simp add: left_def [of r] left_def [of "_\<lparr>dr_polled := _\<rparr>"] fail_ctx)
next
  case (fails e)
  then show ?thesis using assms(4,5) job_dead [OF assms(3,4)] by (simp add: left_def [of r])
next
  case succeeds
  then show ?thesis using assms(4,5) job_dead [OF assms(3)] by (simp add: left_def [of "_\<lparr>dr_pc := _\<rparr>"] left_def [of r])
qed (use assms(4,5) in \<open>auto simp: left_def\<close>)

lemma evicting_not_stuck:
  assumes "evicting r j" and "dr_pc r = Evicting"
  shows "\<exists>r'. drain_step b jobID nodeID r r'"
proof -
  have attempt: "\<exists>r'. drain_step b jobID nodeID r r'" if "p \<in> set (dr_active r)" for p
  proof -
    obtain res st where res: "on_world (evict_try (kb_client b) p) (dr_state r) = (res, st)" by fastforce
    then consider e where "res = Inl e" | "res = Inr True" | "res = Inr False" by (cases res) auto
    then show ?thesis using res assms(2) that by cases (blast intro: evict_fails evict_ok evict_again)+
  qed
  show ?thesis
  proof (cases "dr_active r = [] \<and> dr_waiting r = []")
    case False
    then show ?thesis using attempt waited [OF assms(2)] by (metis list.set_intros(1) neq_Nil_conv)
  next
    case idle: True
    show ?thesis
    proof (cases "dr_work r")
      case (Cons p ps)
      have "length (dr_active r) + length (dr_waiting r) < drainWorkers" using idle by (simp add: drainWorkers_def)
      with Cons assms(2) show ?thesis by (cases "dr_ctx_Err r") (blast intro: take take_cancelled)+
    next
      case Nil
      show ?thesis
      proof (cases "dr_polled r")
        case True
        with Nil idle assms(2) show ?thesis by (cases "dr_failure r") (blast intro: fails succeeds)+
      next
        case False
        obtain res st where res: "listNodePods b nodeID (dr_state r) = (res, st)" by fastforce
        show ?thesis
        proof (cases "dr_open r")
          case True
          with False Nil idle assms(2) show ?thesis by (cases "dr_accepted r") (blast intro: receive closed)+
        next
          case closed: False
          show ?thesis
          proof (cases "dr_pending r = []")
            case True
            with False closed assms(2) show ?thesis by (blast intro: poll_done)
          next
            case pending: False
            with False res assms(2) show ?thesis by (cases res) (blast intro: poll_fails poll)+
          qed
        qed
      qed
    qed
  qed
qed

lemma drain_not_stuck:
  assumes "job_inv r j" and "dr_pc r \<noteq> Finished"
  shows "\<exists>r'. drain_step b jobID nodeID r r'"
proof (cases "dr_pc r")
  case Cordoning
  obtain res st where "kube_CordonNode b (prof_ID (kb_profile b)) nodeID True (dr_state r) = (res, st)" by fastforce
  with Cordoning show ?thesis by (cases res) (auto intro: cordon_fails cordon)
next
  case Listing
  obtain res st where "listNodePods b nodeID (dr_state r) = (res, st)" by fastforce
  with Listing show ?thesis by (cases res) (auto intro: list_fails lists)
next
  case (Sorting pods evictable unmanaged)
  show ?thesis
  proof (cases pods)
    case Nil
    with Sorting show ?thesis by (cases "unmanaged = []") (auto intro: refuse sorted)
  next
    case (Cons pod rest)
    obtain ref action where "classifyPod pod = (ref, action)" by fastforce
    with Cons Sorting show ?thesis
      by (cases "ref_name ref = ''''"; cases action) (auto intro: sort_nameless sort_skip sort_block sort_evict)
  qed
next
  case Evicting
  with assms(1) show ?thesis by (auto simp: job_inv_def intro: evicting_not_stuck)
qed (use assms(2) in \<open>auto intro: start\<close>)

lemma steps_left:
  assumes "(drain_step b jobID nodeID ^^ n) r r'" and "requests_fail b dead"
    and "job_of jobID r = Some j" and "job_inv r j" and "dead (ks_world (dr_state r))" and "dr_ctx_Err r \<noteq> None"
  shows "n + left r' \<le> left r \<and> (\<exists>j'. job_of jobID r' = Some j' \<and> job_inv r' j')"
  using assms(1,3-)
proof (induction n arbitrary: r j)
  case (Suc n)
  from Suc.prems(1) obtain r1 where r1: "drain_step b jobID nodeID r r1" "(drain_step b jobID nodeID ^^ n) r1 r'"
    by (metis relpowp_Suc_E2)
  obtain j1 where "job_of jobID r1 = Some j1" "job_inv r1 j1" using step_job [OF r1(1) Suc.prems(2,3)] by blast
  with Suc.IH [OF r1(2)] step_left [OF r1(1) Suc.prems(3) assms(2) Suc.prems(4,5)] show ?case by fastforce
qed auto

text \<open>C6: a drain always ends. The worker is never stuck: as long as its job is unfinished it has a step to make, no
  matter in which order its goroutines ran. And once the context has ended, where requests fail from
  then on, it makes at most \<open>left r\<close> more steps, however these are chosen, and the
  last of them finishes the job.\<close>

theorem drain_always_ends:
  assumes "map_of (ks_drainJobs st) jobID = Some (new_job jobID nodeID now)"
    and "(run_step b jobID nodeID)\<^sup>*\<^sup>* (new_run st) r"
  shows "(dr_pc r = Finished \<or> (\<exists>r'. drain_step b jobID nodeID r r'))
    \<and> (requests_fail b dead \<and> dead (ks_world (dr_state r)) \<and> dr_ctx_Err r \<noteq> None \<longrightarrow>
        (\<forall>n r'. (drain_step b jobID nodeID ^^ n) r r' \<longrightarrow> n \<le> left r \<and>
          ((\<exists>r2. drain_step b jobID nodeID r' r2) \<or> (\<exists>j. job_of jobID r' = Some j \<and> drainFinished j))))"
proof -
  obtain j where j: "job_of jobID r = Some j" "job_inv r j" by (rule run_job [OF assms])
  have "n \<le> left r \<and> ((\<exists>r2. drain_step b jobID nodeID r' r2) \<or> (\<exists>j. job_of jobID r' = Some j \<and> drainFinished j))"
    if dead: "requests_fail b dead" "dead (ks_world (dr_state r))" "dr_ctx_Err r \<noteq> None"
      and steps: "(drain_step b jobID nodeID ^^ n) r r'" for n r'
  proof -
    from steps_left [OF steps dead(1) j dead(2,3)] obtain j'
      where "n + left r' \<le> left r" "job_of jobID r' = Some j'" "job_inv r' j'" by blast
    moreover have "drainFinished j'" if "dr_pc r' = Finished"
      using that \<open>job_inv r' j'\<close> by (auto simp: job_inv_def ended_def drainFinished_def)
    ultimately show ?thesis using drain_not_stuck [of r' j' b jobID nodeID] by auto
  qed
  with drain_not_stuck [OF j(2)] show ?thesis by blast
qed

subsection \<open>A drain of one pod\<close>

text \<open>
  An API server that counts its requests: request 1 lists a pod with a controller on the node, later listings
  are empty, and everything else succeeds.
\<close>

definition lab_listing :: string where
  "lab_listing = ''{'' @ quoted ''items'' @ '':[{'' @ quoted ''metadata'' @ '':{'' @ quoted ''name'' @ '':'' @ quoted ''db-0''
     @ '','' @ quoted ''ownerReferences'' @ '':[{'' @ quoted ''controller'' @ '':true}]}}]}''"

definition lab_backend :: "nat kube_backend" where
  "lab_backend = \<lparr>kb_client = \<lparr>rc_baseURL = empty_url\<lparr>url_Scheme := ''https'', url_Host := ''kube''\<rparr>, rc_bearerToken = ''t'',
       rc_Do = \<lambda>req n. (Inr (200, Inr (if n = 1 then lab_listing else '''')), n + 1), rc_decode_error = ErrorString\<rparr>,
     kb_cluster = demo_cluster, kb_profile = demo_profile, kb_now = \<lambda>n. (0, n), kb_time_Now = \<lambda>n. (0, n), kb_newJobID = \<lambda>n. (''job-1'', n),
     kb_schedule = \<lambda>n. ([], n), kb_drainBackoff = Second, kb_drainMaxBackoff = 15 * Second,
     kb_drainPollInterval = Second, kb_drainTimeout = 5 * Minute\<rparr>"

definition lab_pod :: pod_ref where
  "lab_pod = \<lparr>ref_namespace = ''default'', ref_name = ''db-0'', ref_uid = ''''\<rparr>"

definition lab_item :: object where
  "lab_item = [(''metadata'', VMap [(''name'', VString ''db-0''),
     (''ownerReferences'', VList [VMap [(''controller'', VBool True)]])])]"

definition lab_state :: "nat \<Rightarrow> drain_job \<Rightarrow> nat kube_state" where
  "lab_state n j = \<lparr>ks_world = n, ks_drainJobs = [(''job-1'', j)], ks_workers = []\<rparr>"

definition lab_job :: "drain_phase \<Rightarrow> string list \<Rightarrow> int \<Rightarrow> drain_job" where
  "lab_job phase evicted remaining = (new_job ''job-1'' ''n1'' 0)\<lparr>dj_Phase := phase, dj_Evicted := evicted,
     dj_Remaining := remaining\<rparr>"

text \<open>The run after request \<open>n\<close>, before the pods are known, and with the pod in one place or another.\<close>

definition lab_run :: "nat \<Rightarrow> drain_job \<Rightarrow> drain_pc \<Rightarrow> object list \<Rightarrow> nat drain_run" where
  "lab_run n j pc listed = (new_run (lab_state n j))\<lparr>dr_pc := pc, dr_listed := listed\<rparr>"

definition lab_end :: "nat drain_run" where
  "lab_end = (lab_run 4 (lab_job DrainPhaseSucceeded [''default/db-0''] 0) Finished [lab_item])
     \<lparr>dr_open := False, dr_polled := True, dr_requested := [lab_pod], dr_gone := [lab_pod]\<rparr>"

lemma lab_calls:
  "kube_CordonNode lab_backend (prof_ID (kb_profile lab_backend)) ''n1'' True (lab_state 0 j) = (Inr (), lab_state 1 j)"
  "listNodePods lab_backend ''n1'' (lab_state 1 j) = (Inr [lab_item], lab_state 2 j)"
  "on_world (evict_try (kb_client lab_backend) lab_pod) (lab_state 2 j) = (Inr True, lab_state 3 j)"
  "listNodePods lab_backend ''n1'' (lab_state 3 j) = (Inr [], lab_state 4 j)"
  "classifyPod lab_item = (lab_pod, podEvict)"
  "key lab_pod = ''default/db-0''"
  by code_simp+

lemma lab_update:
  "update_job lab_backend ''job-1'' f (lab_state n j) = lab_state n (f j\<lparr>dj_UpdatedAt := 0\<rparr>)"
  by (simp add: update_job_def lab_state_def on_world_def lab_backend_def UnixMilli_def)

lemmas lab_defs = lab_run_def lab_job_def new_run_def new_job_def on_job_def lab_update record_gone_def UnixMilli_def

lemma lab_drains:
  "(drain_step lab_backend ''job-1'' ''n1'')\<^sup>*\<^sup>* (new_run (lab_state 0 (new_job ''job-1'' ''n1'' 0))) lab_end"
proof -
  let ?step = "drain_step lab_backend ''job-1'' ''n1''"
  let ?run = "lab_job DrainPhaseRunning []"
  let ?ev = "\<lambda>n. lab_run n (?run 1) Evicting [lab_item]"
  have "?step (new_run (lab_state 0 (new_job ''job-1'' ''n1'' 0))) (lab_run 0 (?run 0) Cordoning [])"
    using start [of "new_run (lab_state 0 (new_job ''job-1'' ''n1'' 0))" lab_backend "''job-1''" "''n1''"]
    by (simp add: lab_defs)
  moreover have "?step (lab_run 0 (?run 0) Cordoning []) (lab_run 1 (?run 0) Listing [])"
    using cordon [of "lab_run 0 (?run 0) Cordoning []" lab_backend "''n1''" _ "''job-1''"] lab_calls(1)
    by (simp add: lab_run_def new_run_def)
  moreover have "?step (lab_run 1 (?run 0) Listing []) (lab_run 2 (?run 0) (Sorting [lab_item] [] []) [lab_item])"
    using lists [of "lab_run 1 (?run 0) Listing []" lab_backend "''n1''" _ _ "''job-1''"] lab_calls(2)
    by (simp add: lab_run_def new_run_def)
  moreover have "?step (lab_run 2 (?run 0) (Sorting [lab_item] [] []) [lab_item])
      (lab_run 2 (?run 0) (Sorting [] [lab_pod] []) [lab_item])"
    using sort_evict [of "lab_run 2 (?run 0) (Sorting [lab_item] [] []) [lab_item]" lab_item "[]" "[]" "[]" lab_pod
        lab_backend "''job-1''" "''n1''"] lab_calls(5)
    by (simp add: lab_run_def new_run_def lab_pod_def)
  moreover have "?step (lab_run 2 (?run 0) (Sorting [] [lab_pod] []) [lab_item]) ((?ev 2)\<lparr>dr_work := [lab_pod]\<rparr>)"
    using sorted [of "lab_run 2 (?run 0) (Sorting [] [lab_pod] []) [lab_item]" "[lab_pod]" lab_backend "''job-1''" "''n1''"]
    by (simp add: lab_defs)
  moreover have "?step ((?ev 2)\<lparr>dr_work := [lab_pod]\<rparr>) ((?ev 2)\<lparr>dr_active := [lab_pod]\<rparr>)"
    using take [of "(?ev 2)\<lparr>dr_work := [lab_pod]\<rparr>" lab_pod "[]" lab_backend "''job-1''" "''n1''"]
    by (simp add: lab_run_def new_run_def drainWorkers_def)
  moreover have "?step ((?ev 2)\<lparr>dr_active := [lab_pod]\<rparr>) ((?ev 3)\<lparr>dr_accepted := [lab_pod], dr_requested := [lab_pod]\<rparr>)"
    using evict_ok [of "(?ev 2)\<lparr>dr_active := [lab_pod]\<rparr>" lab_pod lab_backend _ "''job-1''" "''n1''"] lab_calls(3)
    by (simp add: lab_run_def new_run_def)
  moreover have "?step ((?ev 3)\<lparr>dr_accepted := [lab_pod], dr_requested := [lab_pod]\<rparr>)
      ((?ev 3)\<lparr>dr_pending := [lab_pod], dr_requested := [lab_pod]\<rparr>)"
    using receive [of "(?ev 3)\<lparr>dr_accepted := [lab_pod], dr_requested := [lab_pod]\<rparr>" lab_pod "[]"
        lab_backend "''job-1''" "''n1''"]
    by (simp add: lab_run_def new_run_def)
  moreover have "?step ((?ev 3)\<lparr>dr_pending := [lab_pod], dr_requested := [lab_pod]\<rparr>)
      ((?ev 3)\<lparr>dr_open := False, dr_pending := [lab_pod], dr_requested := [lab_pod]\<rparr>)"
    using closed [of "(?ev 3)\<lparr>dr_pending := [lab_pod], dr_requested := [lab_pod]\<rparr>" lab_backend "''job-1''" "''n1''"]
    by (simp add: lab_run_def new_run_def)
  moreover have "?step ((?ev 3)\<lparr>dr_open := False, dr_pending := [lab_pod], dr_requested := [lab_pod]\<rparr>)
      ((lab_run 4 (?run 0\<lparr>dj_Evicted := [''default/db-0'']\<rparr>) Evicting [lab_item])
        \<lparr>dr_open := False, dr_requested := [lab_pod], dr_gone := [lab_pod]\<rparr>)"
    using poll [of "(?ev 3)\<lparr>dr_open := False, dr_pending := [lab_pod], dr_requested := [lab_pod]\<rparr>"
        lab_backend "''n1''" "[]" "lab_state 4 (?run 1)" "''job-1''"] lab_calls(4,6)
    by (simp add: lab_defs refs_of_def poll_result_def Let_def)
  moreover have "?step ((lab_run 4 (?run 0\<lparr>dj_Evicted := [''default/db-0'']\<rparr>) Evicting [lab_item])
        \<lparr>dr_open := False, dr_requested := [lab_pod], dr_gone := [lab_pod]\<rparr>)
      ((lab_run 4 (?run 0\<lparr>dj_Evicted := [''default/db-0'']\<rparr>) Evicting [lab_item])
        \<lparr>dr_open := False, dr_polled := True, dr_requested := [lab_pod], dr_gone := [lab_pod]\<rparr>)"
    using poll_done [of "(lab_run 4 (?run 0\<lparr>dj_Evicted := [''default/db-0'']\<rparr>) Evicting [lab_item])
        \<lparr>dr_open := False, dr_requested := [lab_pod], dr_gone := [lab_pod]\<rparr>" lab_backend "''job-1''" "''n1''"]
    by (simp add: lab_run_def new_run_def)
  moreover have "?step ((lab_run 4 (?run 0\<lparr>dj_Evicted := [''default/db-0'']\<rparr>) Evicting [lab_item])
        \<lparr>dr_open := False, dr_polled := True, dr_requested := [lab_pod], dr_gone := [lab_pod]\<rparr>) lab_end"
    using succeeds [of "(lab_run 4 (?run 0\<lparr>dj_Evicted := [''default/db-0'']\<rparr>) Evicting [lab_item])
        \<lparr>dr_open := False, dr_polled := True, dr_requested := [lab_pod], dr_gone := [lab_pod]\<rparr>"
        lab_backend "''job-1''" "''n1''"]
    by (simp add: lab_defs lab_end_def)
  ultimately show ?thesis by (meson converse_rtranclp_into_rtranclp rtranclp.rtrancl_refl)
qed

lemma lab_runs:
  "map_of (ks_drainJobs (lab_state 0 (new_job ''job-1'' ''n1'' 0))) ''job-1'' = Some (new_job ''job-1'' ''n1'' 0)"
  "(run_step lab_backend ''job-1'' ''n1'')\<^sup>*\<^sup>* (new_run (lab_state 0 (new_job ''job-1'' ''n1'' 0))) lab_end"
proof -
  show "(run_step lab_backend ''job-1'' ''n1'')\<^sup>*\<^sup>* (new_run (lab_state 0 (new_job ''job-1'' ''n1'' 0))) lab_end"
    by (rule rtranclp_mono [THEN predicate2D, OF _ lab_drains]) (auto simp: run_step_def)
qed (simp add: lab_state_def)

lemma lab_job_of: "job_of ''job-1'' lab_end = Some (lab_job DrainPhaseSucceeded [''default/db-0''] 0)"
  by (simp add: job_of_def lab_end_def lab_run_def new_run_def lab_state_def)


theorem drain_result_is_true_witness:
  "\<exists>j. job_of ''job-1'' lab_end = Some j \<and> dj_Phase j = DrainPhaseSucceeded \<and> dj_Remaining j = 0
    \<and> set (dj_Evicted j) = key ` set (pods_to podEvict [lab_item])"
  using drain_result_is_true [OF lab_runs] lab_job_of
  by (auto simp: lab_job_def lab_end_def lab_run_def)

theorem drain_refines_job_life_witness:
  "\<exists>j j'. job_of ''job-1'' lab_end = Some j \<and> job_of ''job-1'' (lab_end\<lparr>dr_ctx_Err := Some deadline_exceeded\<rparr>) = Some j'
    \<and> job_advances j j'"
proof -
  have "run_step lab_backend ''job-1'' ''n1'' lab_end (lab_end\<lparr>dr_ctx_Err := Some deadline_exceeded\<rparr>)"
    unfolding run_step_def by (rule disjI2, rule expire) (simp add: lab_end_def lab_run_def new_run_def)
  from drain_refines_job_life [OF lab_runs this] show ?thesis by blast
qed

text \<open>A backend whose requests all fail, and a drain that has just started.\<close>

definition dead_backend :: "nat kube_backend" where
  "dead_backend = lab_backend\<lparr>kb_client := (kb_client lab_backend)\<lparr>rc_Do := \<lambda>req n. (Inl deadline_exceeded, n)\<rparr>\<rparr>"

theorem drain_always_ends_witness:
  "{n. \<exists>r'. (drain_step dead_backend ''job-1'' ''n1'' ^^ n)
      ((new_run (lab_state 0 (new_job ''job-1'' ''n1'' 0)))\<lparr>dr_ctx_Err := Some deadline_exceeded\<rparr>) r'} \<subseteq> {..2}"
proof -
  let ?r0 = "new_run (lab_state 0 (new_job ''job-1'' ''n1'' 0))"
  have "run_step dead_backend ''job-1'' ''n1'' ?r0 (?r0\<lparr>dr_ctx_Err := Some deadline_exceeded\<rparr>)"
    unfolding run_step_def by (rule disjI2, rule expire) (simp add: new_run_def)
  note run = r_into_rtranclp [of "run_step dead_backend ''job-1'' ''n1''", OF this]
  have "requests_fail dead_backend (\<lambda>_. True)" by (simp add: requests_fail_def dead_backend_def)
  then show ?thesis
    using drain_always_ends [OF lab_runs(1) run, of "\<lambda>_. True"] by (auto simp: left_def new_run_def)
qed

end
