(* ===== verification/Drain_System.thy ===== *)
theory Drain_System
  imports Drain_Run
begin

text \<open>
  The drains of one backend together: \<open>StartDrain\<close> and \<open>DrainStatus\<close> calls, the workers they start, and everything
  else that uses the backend, interleaved in any order on one registry of jobs. \<open>Drain_Run\<close> follows one worker and lets
  others do what leaves its job alone; here it is shown that they do, so that every worker behaves as it does
  there. The ids of new jobs are taken to be new: they are 128 random bits.
\<close>

subsection \<open>The system\<close>

text \<open>The workers by the id of their job, each with its node; a worker's copy of the backend's state is not used.\<close>

record 'w drain_system =
  sy_state :: "'w kube_state"
  sy_runs :: "string \<Rightarrow> (string \<times> 'w drain_run) option"

definition no_drains :: "'w \<Rightarrow> 'w drain_system" where
  "no_drains w = \<lparr>sy_state = new_kube_state w, sy_runs = (\<lambda>_. None)\<rparr>"

definition live :: "'w drain_system \<Rightarrow> string \<Rightarrow> string \<Rightarrow> 'w drain_run \<Rightarrow> bool" where
  "live s i n r \<longleftrightarrow> sy_runs s i = Some (n, r) \<and> dr_pc r \<noteq> Finished"

inductive system_step :: "'w kube_backend \<Rightarrow> 'w drain_system \<Rightarrow> 'w drain_system \<Rightarrow> bool" for b :: "'w kube_backend" where
  start_drain: "kube_StartDrain b c n (sy_state s) = (res, st) \<Longrightarrow> ks_workers st = ks_workers (sy_state s) @ [(i, n)] \<Longrightarrow>
    i \<notin> set (keys (ks_drainJobs (sy_state s))) \<Longrightarrow>
    system_step b s \<lparr>sy_state = st, sy_runs = (sy_runs s)(i \<mapsto> (n, new_run st))\<rparr>"
| no_new_drain: "kube_StartDrain b c n (sy_state s) = (res, st) \<Longrightarrow> ks_workers st = ks_workers (sy_state s) \<Longrightarrow>
    system_step b s (s\<lparr>sy_state := st\<rparr>)"
| poll_drain: "kube_DrainStatus b c n i (sy_state s) = (res, st) \<Longrightarrow> system_step b s (s\<lparr>sy_state := st\<rparr>)"
| other: "ks_drainJobs st = ks_drainJobs (sy_state s) \<Longrightarrow> system_step b s (s\<lparr>sy_state := st\<rparr>)"
| work: "sy_runs s i = Some (n, r) \<Longrightarrow> drain_step b i n (r\<lparr>dr_state := sy_state s\<rparr>) r' \<Longrightarrow>
    system_step b s \<lparr>sy_state = dr_state r', sy_runs = (sy_runs s)(i \<mapsto> (n, r'))\<rparr>"
| deadline: "sy_runs s i = Some (n, r) \<Longrightarrow> dr_ctx_Err r = None \<Longrightarrow>
    system_step b s (s\<lparr>sy_runs := (sy_runs s)(i \<mapsto> (n, r\<lparr>dr_ctx_Err := Some deadline_exceeded\<rparr>))\<rparr>)"

subsection \<open>What each of them does to the registry\<close>

lemma StartDrain_cases:
  assumes "kube_StartDrain b c n st = (res, st')"
  obtains (unchanged) "st' = st"
  | (started) i now where "ks_drainJobs st' = AList.update i (new_job i n now) (pruneDrainJobs now (ks_drainJobs st))"
      "ks_workers st' = ks_workers st @ [(i, n)]" "running_job n (ks_drainJobs st) = None"
proof (cases "unknown_cluster b c \<or> ValidateNodeID n \<noteq> Inr () \<or> running_job n (ks_drainJobs st) \<noteq> None")
  case True
  with assms have "st' = st"
    by (cases "ValidateNodeID n"; cases "running_job n (ks_drainJobs st)") (auto simp: kube_StartDrain_def split: if_splits)
  then show thesis by (rule unchanged)
next
  case False
  obtain now w where now: "kb_now b (ks_world st) = (now, w)" by fastforce
  obtain i w' where i: "kb_newJobID b w = (i, w')" by fastforce
  from False assms now i show thesis
    by (intro started [of i now]) (auto simp: kube_StartDrain_def on_world_def Let_def)
qed

lemma poll_state: "kube_DrainStatus b c n i st = (res, st') \<Longrightarrow> st' = st"
  by (auto simp: kube_DrainStatus_def split: if_splits option.splits)

lemma prune_unfinished:
  "distinct_keys jobs \<Longrightarrow> map_of jobs i = Some j \<Longrightarrow> \<not> drainFinished j \<Longrightarrow> map_of (pruneDrainJobs now jobs) i = Some j"
  by (simp add: pruneDrainJobs_def Let_def map_of_filter_distinct)

text \<open>A worker touches only its own job.\<close>

definition touches :: "string \<Rightarrow> (string \<times> drain_job) list \<Rightarrow> (string \<times> drain_job) list \<Rightarrow> bool" where
  "touches i jobs jobs' \<longleftrightarrow> jobs' = jobs \<or> (\<exists>j. jobs' = AList.update i j jobs)"

lemma touches_refl [simp]: "touches i jobs jobs"
  by (simp add: touches_def)

lemma update_touches [simp]: "ks_drainJobs st = jobs \<Longrightarrow> touches i jobs (ks_drainJobs (update_job b i f st))"
  by (auto simp: touches_def update_job_def on_world_def split: option.splits prod.splits)

lemma drain_step_jobs:
  "drain_step b i n r r' \<Longrightarrow> touches i (ks_drainJobs (dr_state r)) (ks_drainJobs (dr_state r'))"
  by (erule drain_step.cases)
    (simp_all add: on_job_def give_up_def failDrain_def poll_result_def Let_def cordon_jobs list_jobs on_world_jobs)

lemma drain_step_live: "drain_step b i n r r' \<Longrightarrow> dr_pc r \<noteq> Finished"
  by (erule drain_step.cases) simp_all

subsection \<open>The invariant\<close>

text \<open>A run of its own: a worker's steps, started on its new job, with what others do in between.\<close>

definition own_run :: "'w kube_backend \<Rightarrow> string \<Rightarrow> string \<Rightarrow> 'w drain_run \<Rightarrow> bool" where
  "own_run b i n r \<longleftrightarrow> (\<exists>st now. map_of (ks_drainJobs st) i = Some (new_job i n now)
     \<and> (run_step b i n)\<^sup>*\<^sup>* (new_run st) r)"

lemma own_run_job:
  assumes "own_run b i n r"
  obtains j where "job_of i r = Some j" "job_inv r j" "dj_ID j = i" "dj_NodeID j = n"
  using assms unfolding own_run_def by (elim exE conjE run_job) blast

lemma own_run_step: "own_run b i n r \<Longrightarrow> run_step b i n r r' \<Longrightarrow> own_run b i n r'"
  unfolding own_run_def by (blast intro: rtranclp.rtrancl_into_rtrancl)

lemma own_run_elsewhere:
  assumes "own_run b i n (r\<lparr>dr_state := st\<rparr>)" and "map_of (ks_drainJobs st') i = map_of (ks_drainJobs st) i"
  shows "own_run b i n (r\<lparr>dr_state := st'\<rparr>)"
proof -
  have "around_step i (r\<lparr>dr_state := st\<rparr>) (r\<lparr>dr_state := st\<rparr>\<lparr>dr_state := st'\<rparr>)"
    by (rule elsewhere) (simp add: assms(2))
  then have "run_step b i n (r\<lparr>dr_state := st\<rparr>) (r\<lparr>dr_state := st'\<rparr>)" by (simp add: run_step_def)
  with assms(1) show ?thesis by (rule own_run_step)
qed

lemma unfinished_job: "job_inv r j \<Longrightarrow> drainFinished j \<longleftrightarrow> dr_pc r = Finished"
  by (auto simp: job_inv_def ended_def drainFinished_def split: drain_pc.splits)

definition system_ok :: "'w kube_backend \<Rightarrow> 'w drain_system \<Rightarrow> bool" where
  "system_ok b s \<longleftrightarrow> registry_ok (ks_drainJobs (sy_state s))
     \<and> (\<forall>i j. map_of (ks_drainJobs (sy_state s)) i = Some j \<longrightarrow> \<not> drainFinished j \<longrightarrow> (\<exists>r. live s i (dj_NodeID j) r))
     \<and> (\<forall>i n r. live s i n r \<longrightarrow> own_run b i n (r\<lparr>dr_state := sy_state s\<rparr>))"

lemma system_okD:
  assumes "system_ok b s"
  shows "registry_ok (ks_drainJobs (sy_state s))"
    and "map_of (ks_drainJobs (sy_state s)) i = Some j \<Longrightarrow> \<not> drainFinished j \<Longrightarrow> \<exists>r. live s i (dj_NodeID j) r"
    and "live s i n r \<Longrightarrow> own_run b i n (r\<lparr>dr_state := sy_state s\<rparr>)"
  using assms unfolding system_ok_def by blast+

lemma live_job:
  assumes "system_ok b s" and "live s i n r"
  obtains j where "map_of (ks_drainJobs (sy_state s)) i = Some j" "dj_ID j = i" "dj_NodeID j = n" "\<not> drainFinished j"
    "job_inv r j"
proof -
  obtain j where j: "job_of i (r\<lparr>dr_state := sy_state s\<rparr>) = Some j" "job_inv (r\<lparr>dr_state := sy_state s\<rparr>) j"
    "dj_ID j = i" "dj_NodeID j = n"
    by (rule own_run_job [OF system_okD(3) [OF assms]])
  moreover have "\<not> drainFinished j" using unfinished_job [OF j(2)] assms(2) by (simp add: live_def)
  ultimately show thesis using that by (simp add: job_of_def)
qed

lemma live_state [simp]: "live (s\<lparr>sy_state := st\<rparr>) = live s"
  by (simp add: fun_eq_iff live_def)

text \<open>A step that leaves the workers alone and every unfinished job as it is.\<close>

lemma system_ok_other:
  assumes ok: "system_ok b s" and "registry_ok (ks_drainJobs st)"
    and keeps: "\<And>i j. map_of (ks_drainJobs (sy_state s)) i = Some j \<Longrightarrow> \<not> drainFinished j \<Longrightarrow>
      map_of (ks_drainJobs st) i = Some j"
    and new: "\<And>i j. map_of (ks_drainJobs st) i = Some j \<Longrightarrow> \<not> drainFinished j \<Longrightarrow>
      map_of (ks_drainJobs (sy_state s)) i = Some j"
  shows "system_ok b (s\<lparr>sy_state := st\<rparr>)"
proof -
  have "own_run b i n (r\<lparr>dr_state := st\<rparr>)" if l: "live s i n r" for i n r
  proof (rule own_run_elsewhere [OF system_okD(3) [OF ok l]])
    obtain j where "map_of (ks_drainJobs (sy_state s)) i = Some j" "\<not> drainFinished j" by (rule live_job [OF ok l])
    with keeps show "map_of (ks_drainJobs st) i = map_of (ks_drainJobs (sy_state s)) i" by simp
  qed
  then show ?thesis
    using assms(2) system_okD(2) [OF ok] new unfolding system_ok_def by simp
qed

lemma system_ok_start:
  assumes ok: "system_ok b s" and fresh: "i \<notin> set (keys (ks_drainJobs (sy_state s)))"
    and jobs: "ks_drainJobs st = AList.update i (new_job i n now) (pruneDrainJobs now' (ks_drainJobs (sy_state s)))"
    and free: "running_job n (ks_drainJobs (sy_state s)) = None"
  shows "system_ok b \<lparr>sy_state = st, sy_runs = (sy_runs s)(i \<mapsto> (n, new_run st))\<rparr>" (is "system_ok b ?s")
  unfolding system_ok_def
proof (intro conjI allI impI)
  let ?jobs = "ks_drainJobs (sy_state s)"
  have reg: "registry_ok ?jobs" by (rule system_okD(1) [OF ok])
  have old: "map_of ?jobs i = None" using fresh by (simp add: map_of_eq_None_iff)
  have "registry_ok (pruneDrainJobs now' ?jobs)" by (rule registry_ok_prune [OF reg])
  moreover have "running_job n (pruneDrainJobs now' ?jobs) = None"
    using free by (auto simp: running_job_None pruneDrainJobs_def Let_def)
  ultimately show "registry_ok (ks_drainJobs (sy_state ?s))"
    by (simp add: jobs) (rule registry_ok_new, simp_all add: new_job_def)
  have others: "live s k m r" if "live ?s k m r" "k \<noteq> i" for k m r using that by (simp add: live_def)
  show "own_run b k m (r\<lparr>dr_state := sy_state ?s\<rparr>)" if "live ?s k m r" for k m r
  proof (cases "k = i")
    case True
    with that have "m = n" "r = new_run st" by (auto simp: live_def)
    with True show ?thesis
      by (auto simp: own_run_def new_run_def jobs update_conv' intro!: exI [of _ st])
  next
    case False
    from others [OF that this] have l: "live s k m r" .
    obtain j where j: "map_of ?jobs k = Some j" "\<not> drainFinished j" by (rule live_job [OF ok l])
    then have "map_of (ks_drainJobs st) k = Some j"
      using prune_unfinished [OF registry_okD(1) [OF reg]] False by (simp add: jobs update_conv')
    with j own_run_elsewhere [OF system_okD(3) [OF ok l]] show ?thesis by simp
  qed
  show "\<exists>r. live ?s k (dj_NodeID j) r"
    if "map_of (ks_drainJobs (sy_state ?s)) k = Some j" "\<not> drainFinished j" for k j
  proof (cases "k = i")
    case True
    with that show ?thesis by (auto simp: jobs update_conv' live_def new_job_def new_run_def)
  next
    case False
    with that have "map_of ?jobs k = Some j"
      using registry_okD(1) [OF reg]
      by (auto simp: jobs update_conv' pruneDrainJobs_def Let_def map_of_filter_distinct split: option.splits if_splits)
    with system_okD(2) [OF ok] that(2) False show ?thesis by (fastforce simp: live_def)
  qed
qed

lemma system_ok_work:
  assumes ok: "system_ok b s" and run: "sy_runs s i = Some (n, r)"
    and step: "drain_step b i n (r\<lparr>dr_state := sy_state s\<rparr>) r'"
  shows "system_ok b \<lparr>sy_state = dr_state r', sy_runs = (sy_runs s)(i \<mapsto> (n, r'))\<rparr>" (is "system_ok b ?s")
  unfolding system_ok_def
proof (intro conjI allI impI)
  let ?jobs = "ks_drainJobs (sy_state s)"
  have reg: "registry_ok ?jobs" by (rule system_okD(1) [OF ok])
  have l: "live s i n r" using run drain_step_live [OF step] by (simp add: live_def)
  have own: "own_run b i n r'"
    using own_run_step [OF system_okD(3) [OF ok l]] step by (simp add: run_step_def)
  obtain j where j: "map_of ?jobs i = Some j" "dj_ID j = i" "dj_NodeID j = n" "\<not> drainFinished j"
    by (rule live_job [OF ok l])
  obtain j' where j': "job_of i r' = Some j'" "job_inv r' j'" "dj_ID j' = i" "dj_NodeID j' = n"
    by (rule own_run_job [OF own])
  have jobs: "touches i ?jobs (ks_drainJobs (dr_state r'))" using drain_step_jobs [OF step] by simp
  then have others: "map_of (ks_drainJobs (dr_state r')) k = map_of ?jobs k" if "k \<noteq> i" for k
    using that by (auto simp: touches_def update_conv')
  have "ks_drainJobs (dr_state r') = ?jobs \<or> ks_drainJobs (dr_state r') = AList.update i j' ?jobs"
    using jobs j'(1) by (auto simp: touches_def job_of_def update_conv')
  moreover have "registry_ok (AList.update i j' ?jobs)"
    using j j' by (intro registry_ok_change [OF reg j(1)]) simp_all
  ultimately show "registry_ok (ks_drainJobs (sy_state ?s))" using reg by auto
  show "own_run b k m (q\<lparr>dr_state := sy_state ?s\<rparr>)" if "live ?s k m q" for k m q
  proof (cases "k = i")
    case True
    with that own show ?thesis by (simp add: live_def)
  next
    case False
    with that have "live s k m q" by (simp add: live_def)
    from own_run_elsewhere [OF system_okD(3) [OF ok this]] others [OF False] show ?thesis by simp
  qed
  show "\<exists>q. live ?s k (dj_NodeID job) q"
    if "map_of (ks_drainJobs (sy_state ?s)) k = Some job" "\<not> drainFinished job" for k job
  proof (cases "k = i")
    case True
    with that(1) j'(1) have "job = j'" by (simp add: job_of_def)
    with True that(2) j' unfinished_job [OF j'(2)] show ?thesis by (simp add: live_def)
  next
    case False
    with that system_okD(2) [OF ok, of k job] others show ?thesis by (auto simp: live_def)
  qed
qed

lemma system_ok_deadline:
  assumes ok: "system_ok b s" and run: "sy_runs s i = Some (n, r)" and "dr_ctx_Err r = None"
  shows "system_ok b (s\<lparr>sy_runs := (sy_runs s)(i \<mapsto> (n, r\<lparr>dr_ctx_Err := Some deadline_exceeded\<rparr>))\<rparr>)"
    (is "system_ok b ?s")
  unfolding system_ok_def
proof (intro conjI allI impI)
  show "registry_ok (ks_drainJobs (sy_state ?s))" using system_okD(1) [OF ok] by simp
  show "\<exists>q. live ?s k (dj_NodeID job) q"
    if "map_of (ks_drainJobs (sy_state ?s)) k = Some job" "\<not> drainFinished job" for k job
    using that system_okD(2) [OF ok, of k job] run by (cases "k = i") (auto simp: live_def)
  show "own_run b k m (q\<lparr>dr_state := sy_state ?s\<rparr>)" if "live ?s k m q" for k m q
  proof (cases "k = i")
    case True
    with that run have q: "m = n" "q = r\<lparr>dr_ctx_Err := Some deadline_exceeded\<rparr>" "live s i n r"
      by (auto simp: live_def)
    have "around_step i (r\<lparr>dr_state := sy_state s\<rparr>) (r\<lparr>dr_state := sy_state s\<rparr>\<lparr>dr_ctx_Err := Some deadline_exceeded\<rparr>)"
      by (rule expire) (simp add: assms(3))
    then have "run_step b i n (r\<lparr>dr_state := sy_state s\<rparr>) (q\<lparr>dr_state := sy_state s\<rparr>)"
      by (cases r) (simp add: run_step_def q(2))
    from own_run_step [OF system_okD(3) [OF ok q(3)] this] True q(1) show ?thesis by simp
  next
    case False
    with that system_okD(3) [OF ok, of k m q] show ?thesis by (simp add: live_def)
  qed
qed

lemma system_ok_step:
  assumes "system_step b s s'" and ok: "system_ok b s"
  shows "system_ok b s'"
  using assms(1)
proof cases
  case (start_drain c n res st i)
  from start_drain(2) show ?thesis
  proof (cases rule: StartDrain_cases)
    case unchanged
    with start_drain(3) show ?thesis by simp
  next
    case (started k now)
    with start_drain(3) have "k = i" by simp
    with started start_drain(1,4) show ?thesis by (auto intro: system_ok_start [OF ok])
  qed
next
  case (no_new_drain c n res st)
  from no_new_drain(2) show ?thesis
  proof (cases rule: StartDrain_cases)
    case unchanged
    with no_new_drain(1) ok show ?thesis by simp
  next
    case (started k now)
    with no_new_drain(3) show ?thesis by simp
  qed
next
  case (poll_drain c n i res st)
  with poll_state [OF poll_drain(2)] ok show ?thesis by simp
next
  case (other st)
  with system_okD(1) [OF ok] show ?thesis by (auto intro!: system_ok_other [OF ok])
next
  case (work i n r r')
  then show ?thesis by (auto intro: system_ok_work [OF ok])
next
  case (deadline i n r)
  then show ?thesis by (auto intro: system_ok_deadline [OF ok])
qed

lemma system_reachable_ok: "(system_step b)\<^sup>*\<^sup>* (no_drains w) s \<Longrightarrow> system_ok b s"
proof (induction rule: rtranclp_induct)
  case base
  show ?case by (simp add: system_ok_def no_drains_def new_kube_state_def registry_ok_def live_def)
qed (rule system_ok_step)

text \<open>C7: the drains of a backend are isolated. However drains are started, polled and worked on, and whatever else uses
  the backend: the unfinished jobs are exactly those with a worker under way, no node has two, and every
  worker does what it would do as the only one, so that what is shown of a single drain holds of each.\<close>

theorem drains_are_isolated:
  assumes "(system_step b)\<^sup>*\<^sup>* (no_drains w) s"
  shows "(\<forall>i n. (\<exists>j. map_of (ks_drainJobs (sy_state s)) i = Some j \<and> dj_NodeID j = n \<and> \<not> drainFinished j)
        \<longleftrightarrow> (\<exists>r. live s i n r))
    \<and> (\<forall>i i' n r r'. live s i n r \<longrightarrow> live s i' n r' \<longrightarrow> i' = i)
    \<and> (\<forall>i n r. live s i n r \<longrightarrow> (\<exists>st now. map_of (ks_drainJobs st) i = Some (new_job i n now)
          \<and> (run_step b i n)\<^sup>*\<^sup>* (new_run st) (r\<lparr>dr_state := sy_state s\<rparr>)))"
proof -
  note ok = system_reachable_ok [OF assms]
  have "i' = i" if l: "live s i n r" "live s i' n r'" for i i' n r r'
  proof -
    obtain j where "map_of (ks_drainJobs (sy_state s)) i = Some j" "dj_NodeID j = n" "\<not> drainFinished j"
      by (rule live_job [OF ok l(1)])
    moreover obtain j' where "map_of (ks_drainJobs (sy_state s)) i' = Some j'" "dj_NodeID j' = n" "\<not> drainFinished j'"
      by (rule live_job [OF ok l(2)])
    ultimately show ?thesis using registry_okD(3) [OF system_okD(1) [OF ok] map_of_SomeD map_of_SomeD, of i' j' i j] by simp
  qed
  moreover have "\<exists>j. map_of (ks_drainJobs (sy_state s)) i = Some j \<and> dj_NodeID j = n \<and> \<not> drainFinished j"
    if l: "live s i n r" for i n r
    using live_job [OF ok l] by blast
  ultimately show ?thesis
    using system_okD(2) [OF ok] system_okD(3) [OF ok] unfolding own_run_def by blast
qed

definition one_drain :: "(string \<times> string) list drain_system" where
  "one_drain = \<lparr>sy_state = demo_drain, sy_runs = (\<lambda>_. None)(''job-1'' \<mapsto> (''n1'', new_run demo_drain))\<rparr>"

theorem drains_are_isolated_witness:
  "live one_drain ''job-1'' ''n1'' (new_run demo_drain)
   \<and> (\<exists>j. map_of (ks_drainJobs demo_drain) ''job-1'' = Some j \<and> dj_NodeID j = ''n1'' \<and> \<not> drainFinished j)
   \<and> (\<exists>st now. map_of (ks_drainJobs st) ''job-1'' = Some (new_job ''job-1'' ''n1'' now)
        \<and> (run_step demo_backend ''job-1'' ''n1'')\<^sup>*\<^sup>* (new_run st) (new_run demo_drain))"
proof -
  have "system_step demo_backend (no_drains [])
      \<lparr>sy_state = demo_drain, sy_runs = (sy_runs (no_drains []))(''job-1'' \<mapsto> (''n1'', new_run demo_drain))\<rparr>"
    by (rule start_drain [of _ "''lab''" "''n1''" _ "fst (kube_StartDrain demo_backend ''lab'' ''n1'' (new_kube_state []))"])
      (simp_all add: no_drains_def demo_drain_started(3) new_kube_state_def,
       simp add: demo_drain_started(3) [symmetric] demo_drain_def new_kube_state_def)
  then have "(system_step demo_backend)\<^sup>*\<^sup>* (no_drains []) one_drain"
    by (simp add: one_drain_def no_drains_def r_into_rtranclp)
  note isolated = drains_are_isolated [OF this]
  have l: "live one_drain ''job-1'' ''n1'' (new_run demo_drain)" by (simp add: live_def one_drain_def new_run_def)
  have eq: "(new_run demo_drain)\<lparr>dr_state := sy_state one_drain\<rparr> = new_run demo_drain"
    by (simp add: new_run_def one_drain_def)
  have "\<exists>j. map_of (ks_drainJobs (sy_state one_drain)) ''job-1'' = Some j \<and> dj_NodeID j = ''n1'' \<and> \<not> drainFinished j"
    using isolated l by (elim conjE) blast
  moreover from isolated l have "\<exists>st now. map_of (ks_drainJobs st) ''job-1'' = Some (new_job ''job-1'' ''n1'' now)
      \<and> (run_step demo_backend ''job-1'' ''n1'')\<^sup>*\<^sup>* (new_run st) ((new_run demo_drain)\<lparr>dr_state := sy_state one_drain\<rparr>)"
    by (elim conjE) blast
  ultimately show ?thesis using l unfolding eq by (simp add: one_drain_def)
qed

end
