(* ===== verification/Multi.thy ===== *)
theory Multi
  imports Drain_Jobs
begin

text \<open>
  \<open>kubebackend/multi.go\<close>: one backend per cluster, behind the same interface. Every backend has its own registry of
  drain jobs and its own workers; the world outside is one. In the state \<open>multi_state\<close> the registry and
  the workers of a cluster are found under its id.
\<close>

record 'w multi_backend =
  mb_backends :: "(string \<times> 'w kube_backend) list"
  mb_profiles :: "cluster_profile list"

record 'w multi_state =
  ms_world :: 'w
  ms_drainJobs :: "string \<Rightarrow> (string \<times> drain_job) list"
  ms_workers :: "string \<Rightarrow> (string \<times> string) list"

subsection \<open>Construction\<close>

text \<open>The loop of the constructor; \<open>new_backend\<close> is \<open>NewKubeBackend\<close> with its environment.\<close>

definition register :: "(resolved_cluster option \<Rightarrow> go_error + 'w kube_backend) \<Rightarrow> resolved_cluster option \<Rightarrow>
    'w multi_backend \<times> go_error list \<Rightarrow> 'w multi_backend \<times> go_error list" where
  "register new_backend c = (\<lambda>(m, errs). case new_backend c of
       Inl e \<Rightarrow> (m, errs @ [e])
     | Inr kb \<Rightarrow>
         let id' = prof_ID (kb_profile kb)
         in if map_of (mb_backends m) id' \<noteq> None
            then (m, errs @ [ErrorString (''duplicate cluster id '' @ Quote id' @ '' skipped'')])
            else (m\<lparr>mb_backends := AList.update id' kb (mb_backends m), mb_profiles := mb_profiles m @ [kb_profile kb]\<rparr>,
                  errs))"

definition NewMultiClusterBackend :: "(resolved_cluster option \<Rightarrow> go_error + 'w kube_backend) \<Rightarrow>
    resolved_cluster option list \<Rightarrow> 'w multi_backend \<times> go_error list" where
  "NewMultiClusterBackend new_backend clusters =
     fold (register new_backend) clusters (\<lparr>mb_backends = [], mb_profiles = []\<rparr>, [])"

definition Len :: "'w multi_backend \<Rightarrow> nat" where
  "Len m = length (mb_backends m)"

definition new_multi_state :: "'w \<Rightarrow> 'w multi_state" where
  "new_multi_state w = \<lparr>ms_world = w, ms_drainJobs = (\<lambda>_. []), ms_workers = (\<lambda>_. [])\<rparr>"

subsection \<open>Operations\<close>

definition cluster_state :: "string \<Rightarrow> 'w multi_state \<Rightarrow> 'w kube_state" where
  "cluster_state c st = \<lparr>ks_world = ms_world st, ks_drainJobs = ms_drainJobs st c, ks_workers = ms_workers st c\<rparr>"

definition put_cluster :: "string \<Rightarrow> 'w kube_state \<Rightarrow> 'w multi_state \<Rightarrow> 'w multi_state" where
  "put_cluster c ks st = \<lparr>ms_world = ks_world ks, ms_drainJobs = (ms_drainJobs st)(c := ks_drainJobs ks),
     ms_workers = (ms_workers st)(c := ks_workers ks)\<rparr>"

text \<open>Looking up the backend of a cluster, which every operation below starts with, and its call.\<close>

definition dispatch_to :: "'w multi_backend \<Rightarrow> string \<Rightarrow> ('w kube_backend \<Rightarrow> 'w kube_state \<Rightarrow> (go_error + 'a) \<times> 'w kube_state) \<Rightarrow>
    'w multi_state \<Rightarrow> (go_error + 'a) \<times> 'w multi_state" where
  "dispatch_to m clusterID f st = (case map_of (mb_backends m) clusterID of
       None \<Rightarrow> (Inl (Sentinel ErrNotFound), st)
     | Some kb \<Rightarrow> (case f kb (cluster_state clusterID st) of (res, ks) \<Rightarrow> (res, put_cluster clusterID ks st)))"

definition multi_ListClusters :: "'w multi_backend \<Rightarrow> 'w multi_state \<Rightarrow>
    (go_error + cluster_profile list) \<times> 'w multi_state" where
  "multi_ListClusters m st = (Inr (mb_profiles m), st)"

definition multi_LoadSnapshot :: "'w multi_backend \<Rightarrow> string \<Rightarrow> 'w multi_state \<Rightarrow>
    (go_error + cluster_snapshot) \<times> 'w multi_state" where
  "multi_LoadSnapshot m clusterID = dispatch_to m clusterID (\<lambda>kb. kube_LoadSnapshot kb clusterID)"

definition multi_LoadEvents :: "'w multi_backend \<Rightarrow> string \<Rightarrow> string \<Rightarrow> string \<Rightarrow> string \<Rightarrow> int \<Rightarrow> 'w multi_state \<Rightarrow>
    (go_error + cluster_event list) \<times> 'w multi_state" where
  "multi_LoadEvents m clusterID kind objectName namespace limit =
     dispatch_to m clusterID (\<lambda>kb. kube_LoadEvents kb clusterID kind objectName namespace limit)"

definition multi_ScaleWorkload :: "'w multi_backend \<Rightarrow> string \<Rightarrow> string \<Rightarrow> int \<Rightarrow> 'w multi_state \<Rightarrow>
    (go_error + unit) \<times> 'w multi_state" where
  "multi_ScaleWorkload m clusterID workloadID replicas =
     dispatch_to m clusterID (\<lambda>kb. kube_ScaleWorkload kb clusterID workloadID replicas)"

definition multi_RestartWorkload :: "'w multi_backend \<Rightarrow> string \<Rightarrow> string \<Rightarrow> 'w multi_state \<Rightarrow>
    (go_error + unit) \<times> 'w multi_state" where
  "multi_RestartWorkload m clusterID workloadID =
     dispatch_to m clusterID (\<lambda>kb. kube_RestartWorkload kb clusterID workloadID)"

definition multi_CordonNode :: "'w multi_backend \<Rightarrow> string \<Rightarrow> string \<Rightarrow> bool \<Rightarrow> 'w multi_state \<Rightarrow>
    (go_error + unit) \<times> 'w multi_state" where
  "multi_CordonNode m clusterID nodeID unschedulable =
     dispatch_to m clusterID (\<lambda>kb. kube_CordonNode kb clusterID nodeID unschedulable)"

definition multi_StartDrain :: "'w multi_backend \<Rightarrow> string \<Rightarrow> string \<Rightarrow> 'w multi_state \<Rightarrow>
    (go_error + drain_job) \<times> 'w multi_state" where
  "multi_StartDrain m clusterID nodeID = dispatch_to m clusterID (\<lambda>kb. kube_StartDrain kb clusterID nodeID)"

definition multi_DrainStatus :: "'w multi_backend \<Rightarrow> string \<Rightarrow> string \<Rightarrow> string \<Rightarrow> 'w multi_state \<Rightarrow>
    (go_error + drain_job) \<times> 'w multi_state" where
  "multi_DrainStatus m clusterID nodeID jobID = dispatch_to m clusterID (\<lambda>kb. kube_DrainStatus kb clusterID nodeID jobID)"

definition MultiClusterBackend :: "'w multi_backend \<Rightarrow> 'w multi_state cluster_backend" where
  "MultiClusterBackend m = \<lparr>
     ListClusters = multi_ListClusters m, LoadSnapshot = multi_LoadSnapshot m, LoadEvents = multi_LoadEvents m,
     ScaleWorkload = multi_ScaleWorkload m, RestartWorkload = multi_RestartWorkload m,
     CordonNode = multi_CordonNode m, StartDrain = multi_StartDrain m, DrainStatus = multi_DrainStatus m\<rparr>"

subsection \<open>Profiles and routing agree\<close>

definition multi_ok :: "'w multi_backend \<Rightarrow> bool" where
  "multi_ok m \<longleftrightarrow> distinct_keys (mb_backends m) \<and> mb_profiles m = map (\<lambda>(_, kb). kb_profile kb) (mb_backends m)
     \<and> (\<forall>(c, kb) \<in> set (mb_backends m). prof_ID (kb_profile kb) = c)"

lemma update_fresh: "map_of m k = None \<Longrightarrow> AList.update k v m = m @ [(k, v)]"
  by (induction m) (auto split: if_splits)

lemma register_ok:
  assumes "multi_ok m" and "register new_backend c (m, errs) = (m', errs')"
  shows "multi_ok m' \<and> Len m' + length errs' = Suc (Len m + length errs)"
proof (cases "new_backend c")
  case (Inl e)
  with assms show ?thesis by (auto simp: register_def Len_def)
next
  case (Inr kb)
  show ?thesis
  proof (cases "map_of (mb_backends m) (prof_ID (kb_profile kb))")
    case None
    then have "prof_ID (kb_profile kb) \<notin> fst ` set (mb_backends m)" by (simp add: map_of_eq_None_iff)
    with assms Inr None show ?thesis
      by (auto simp: register_def Len_def multi_ok_def update_fresh Let_def)
  next
    case (Some kb')
    with assms Inr show ?thesis by (auto simp: register_def Len_def Let_def)
  qed
qed

lemma NewMultiClusterBackend_ok:
  assumes "NewMultiClusterBackend new_backend clusters = (m, errs)"
  shows "multi_ok m" and "Len m + length errs = length clusters"
proof -
  have "multi_ok m \<and> Len m + length errs = Len m0 + length errs0 + length clusters"
    if "fold (register new_backend) clusters (m0, errs0) = (m, errs)" "multi_ok m0" for m0 errs0
    using that
  proof (induction clusters arbitrary: m0 errs0)
    case (Cons c clusters)
    obtain m1 errs1 where reg: "register new_backend c (m0, errs0) = (m1, errs1)" by fastforce
    with Cons.IH [of m1 errs1] Cons.prems register_ok [OF Cons.prems(2) reg] show ?case by simp
  qed simp
  from this [of "\<lparr>mb_backends = [], mb_profiles = []\<rparr>" "[]"] assms
  show "multi_ok m" "Len m + length errs = length clusters"
    by (simp_all add: NewMultiClusterBackend_def multi_ok_def Len_def)
qed

lemma listed_iff_routed:
  assumes "multi_ok m"
  shows "(\<exists>p \<in> set (mb_profiles m). prof_ID p = c) \<longleftrightarrow> map_of (mb_backends m) c \<noteq> None"
    and "map_of (mb_backends m) c = Some kb \<Longrightarrow> prof_ID (kb_profile kb) = c"
    and "distinct (map prof_ID (mb_profiles m))"
proof -
  have ids: "map prof_ID (mb_profiles m) = keys (mb_backends m)"
    using assms by (auto simp: multi_ok_def)
  show "distinct (map prof_ID (mb_profiles m))" unfolding ids using assms by (simp add: multi_ok_def)
  have "(\<exists>p \<in> set (mb_profiles m). prof_ID p = c) \<longleftrightarrow> c \<in> set (map prof_ID (mb_profiles m))" by auto
  then show "(\<exists>p \<in> set (mb_profiles m). prof_ID p = c) \<longleftrightarrow> map_of (mb_backends m) c \<noteq> None"
    by (simp only: ids) (simp add: map_of_eq_None_iff)
  show "map_of (mb_backends m) c = Some kb \<Longrightarrow> prof_ID (kb_profile kb) = c"
    using assms by (auto simp: multi_ok_def dest!: map_of_SomeD)
qed

lemma NewMultiClusterBackend_fst_ok: "multi_ok (fst (NewMultiClusterBackend new_backend clusters))"
  using NewMultiClusterBackend_ok(1) by (metis prod.collapse)

interpretation multi: documented_backend "MultiClusterBackend (fst (NewMultiClusterBackend new_backend clusters))"
  "\<lambda>_ c. map_of (mb_backends (fst (NewMultiClusterBackend new_backend clusters))) c \<noteq> None"
  for new_backend :: "resolved_cluster option \<Rightarrow> go_error + 'w kube_backend" and clusters
proof
  fix w :: "'w multi_state" and c
  let ?m = "fst (NewMultiClusterBackend new_backend clusters)"
  show "\<exists>e. LoadSnapshot (MultiClusterBackend ?m) c w = (Inl e, w) \<and> err_is e ErrNotFound"
    if "\<not> map_of (mb_backends ?m) c \<noteq> None"
    using that by (simp add: MultiClusterBackend_def multi_LoadSnapshot_def dispatch_to_def)
  show "map_of (mb_backends ?m) (prof_ID p) \<noteq> None"
    if "ListClusters (MultiClusterBackend ?m) w = (Inr ps, w')" "p \<in> set ps" for ps w' p
    using that listed_iff_routed(1) [OF NewMultiClusterBackend_fst_ok, of new_backend clusters "prof_ID p"]
    by (auto simp: MultiClusterBackend_def multi_ListClusters_def)
qed

text \<open>An operation through the fan-out does on a listed cluster what the cluster's own backend does.\<close>

definition through :: "string \<Rightarrow> ('w kube_state \<Rightarrow> 'a \<times> 'w kube_state) \<Rightarrow> 'w multi_state \<Rightarrow> 'a \<times> 'w multi_state" where
  "through c f st = (case f (cluster_state c st) of (res, ks) \<Rightarrow> (res, put_cluster c ks st))"

lemma put_cluster_others:
  "c' \<noteq> c \<Longrightarrow> ms_drainJobs (put_cluster c ks st) c' = ms_drainJobs st c' \<and> ms_workers (put_cluster c ks st) c' = ms_workers st c'"
  "cluster_state c (put_cluster c ks st) = ks"
  by (simp_all add: put_cluster_def cluster_state_def)

text \<open>C25: the fan-out routes exactly the clusters it lists. Every cluster of the kubeconfig is registered or accounted for
  by an error; the listed ids are distinct; each of them names one backend, which knows that id, and
  every operation on it is that backend's own, on the shared world and the cluster's own drain jobs,
  with the other clusters' jobs left alone; any other id is not found, by every operation, and changes nothing.\<close>

theorem multi_routes_listed_clusters:
  assumes "NewMultiClusterBackend new_backend clusters = (m, errs)"
  shows "Len m + length errs = length clusters \<and> Len m = length (mb_profiles m)
    \<and> distinct (map prof_ID (mb_profiles m))
    \<and> (case map_of (mb_backends m) c of
         Some kb \<Rightarrow> kb_profile kb \<in> set (mb_profiles m) \<and> \<not> unknown_cluster kb c
           \<and> LoadSnapshot (MultiClusterBackend m) c = through c (LoadSnapshot (KubeBackend kb) c)
           \<and> LoadEvents (MultiClusterBackend m) c k n ns l = through c (LoadEvents (KubeBackend kb) c k n ns l)
           \<and> ScaleWorkload (MultiClusterBackend m) c w i = through c (ScaleWorkload (KubeBackend kb) c w i)
           \<and> RestartWorkload (MultiClusterBackend m) c w = through c (RestartWorkload (KubeBackend kb) c w)
           \<and> CordonNode (MultiClusterBackend m) c n u = through c (CordonNode (KubeBackend kb) c n u)
           \<and> StartDrain (MultiClusterBackend m) c n = through c (StartDrain (KubeBackend kb) c n)
           \<and> DrainStatus (MultiClusterBackend m) c n j = through c (DrainStatus (KubeBackend kb) c n j)
       | None \<Rightarrow> c \<notin> prof_ID ` set (mb_profiles m)
           \<and> LoadSnapshot (MultiClusterBackend m) c st = (Inl (Sentinel ErrNotFound), st)
           \<and> LoadEvents (MultiClusterBackend m) c k n ns l st = (Inl (Sentinel ErrNotFound), st)
           \<and> ScaleWorkload (MultiClusterBackend m) c w i st = (Inl (Sentinel ErrNotFound), st)
           \<and> RestartWorkload (MultiClusterBackend m) c w st = (Inl (Sentinel ErrNotFound), st)
           \<and> CordonNode (MultiClusterBackend m) c n u st = (Inl (Sentinel ErrNotFound), st)
           \<and> StartDrain (MultiClusterBackend m) c n st = (Inl (Sentinel ErrNotFound), st)
           \<and> DrainStatus (MultiClusterBackend m) c n j st = (Inl (Sentinel ErrNotFound), st))"
proof -
  note ok = NewMultiClusterBackend_ok [OF assms]
  note ops = MultiClusterBackend_def KubeBackend_def multi_LoadSnapshot_def multi_LoadEvents_def multi_ScaleWorkload_def
    multi_RestartWorkload_def multi_CordonNode_def multi_StartDrain_def multi_DrainStatus_def dispatch_to_def
    through_def
  have "Len m = length (mb_profiles m)" using ok(1) by (simp add: Len_def multi_ok_def)
  with ok(2) listed_iff_routed [OF ok(1)] show ?thesis
  proof (cases "map_of (mb_backends m) c")
    case None
    with ok(2) \<open>Len m = _\<close> listed_iff_routed(3) [OF ok(1)] listed_iff_routed(1) [OF ok(1), of c] show ?thesis
      by (auto simp: ops)
  next
    case (Some kb)
    then have "kb_profile kb \<in> set (mb_profiles m)"
      using ok(1) by (force simp: multi_ok_def dest: map_of_SomeD)
    moreover have "\<not> unknown_cluster kb c"
      using listed_iff_routed(2) [OF ok(1) Some] by (simp add: unknown_cluster_def)
    ultimately show ?thesis
      using Some ok(2) \<open>Len m = _\<close> listed_iff_routed(3) [OF ok(1)] by (simp add: ops fun_eq_iff)
  qed
qed

text \<open>Two contexts of one id: the second is skipped with an error.\<close>

definition demo_multi :: "(string \<times> string) list multi_backend \<times> go_error list" where
  "demo_multi = NewMultiClusterBackend
     (\<lambda>c. case c of None \<Rightarrow> Inl (ErrorString ''nil cluster'') | Some _ \<Rightarrow> Inr demo_backend) [Some demo_cluster, Some demo_cluster, None]"

theorem multi_routes_listed_clusters_witness:
  "Len (fst demo_multi) = 1 \<and> length (snd demo_multi) = 2
   \<and> CordonNode (MultiClusterBackend (fst demo_multi)) ''lab'' ''n1'' True
       = through ''lab'' (CordonNode (KubeBackend demo_backend) ''lab'' ''n1'' True)
   \<and> CordonNode (MultiClusterBackend (fst demo_multi)) ''other'' ''n1'' True (new_multi_state [])
       = (Inl (Sentinel ErrNotFound), new_multi_state [])"
proof -
  have id': "prof_ID (kb_profile demo_backend) = ''lab''" by (simp add: demo_backend_def demo_profile_def)
  have m: "mb_backends (fst demo_multi) = [(''lab'', demo_backend)]" and "Len (fst demo_multi) = 1"
    by (simp_all add: demo_multi_def NewMultiClusterBackend_def register_def id' Len_def Let_def)
  moreover note multi_routes_listed_clusters
    [OF prod.collapse [symmetric, of demo_multi, unfolded demo_multi_def], folded demo_multi_def]
  from this [of "''lab''"] this [of "''other''"] have "length (snd demo_multi) = 2"
    "CordonNode (MultiClusterBackend (fst demo_multi)) ''lab'' ''n1'' True
       = through ''lab'' (CordonNode (KubeBackend demo_backend) ''lab'' ''n1'' True)"
    "CordonNode (MultiClusterBackend (fst demo_multi)) ''other'' ''n1'' True (new_multi_state [])
       = (Inl (Sentinel ErrNotFound), new_multi_state [])"
    using calculation by simp_all
  with calculation show ?thesis by simp
qed

end
