(* ===== verification/Go_Conv.thy ===== *)
theory Go_Conv
  imports Float64 Go_Time
begin

text \<open>
  What the gateway's start-up uses of \<open>strconv\<close> and \<open>time\<close> to read numbers and durations from the environment:
  \<open>ParseFloat\<close>, \<open>ParseDuration\<close> and \<open>Duration.String\<close>. \<open>None\<close> is the parser's error.
\<close>

subsection \<open>\<open>strconv.ParseFloat\<close>\<close>

text \<open>An underscore must stand between digits, or between a base prefix and a digit.\<close>

fun underscores_ok :: "bool \<Rightarrow> char \<Rightarrow> string \<Rightarrow> bool" where
  "underscores_ok hex saw [] \<longleftrightarrow> saw \<noteq> CHR ''_''"
| "underscores_ok hex saw (c # cs) \<longleftrightarrow>
     (if is_digit c \<or> hex \<and> lower c \<in> set ''abcdef'' then underscores_ok hex (CHR ''0'') cs
      else if c = CHR ''_'' then saw = CHR ''0'' \<and> underscores_ok hex (CHR ''_'') cs
      else saw \<noteq> CHR ''_'' \<and> underscores_ok hex (CHR ''!'') cs)"

definition sign_of :: "string \<Rightarrow> bool \<times> string" where
  "sign_of s = (case s of [] \<Rightarrow> (False, [])
     | c # cs \<Rightarrow> if c = CHR ''-'' then (True, cs) else if c = CHR ''+'' then (False, cs) else (False, s))"

definition is_hex :: "string \<Rightarrow> bool" where
  "is_hex t \<longleftrightarrow> 3 \<le> length t \<and> hd t = CHR ''0'' \<and> lower (t ! 1) = CHR ''x''"

definition hex_digit_val :: "char \<Rightarrow> nat" where
  "hex_digit_val c = (if is_digit c then digit_val c else of_char (lower c) - 87)"

text \<open>The exponent's digits, of which Go stops counting beyond five.\<close>

definition exponent_val :: "string \<Rightarrow> int" where
  "exponent_val s = foldl (\<lambda>e c. if e < 10000 then 10 * e + int (digit_val c) else e) 0 (filter is_digit s)"

definition exponent_part :: "bool \<Rightarrow> string \<Rightarrow> int option" where
  "exponent_part hex rest = (case rest of
       [] \<Rightarrow> (if hex then None else Some 0)
     | c # cs \<Rightarrow>
         if lower c \<noteq> (if hex then CHR ''p'' else CHR ''e'') then None
         else (case sign_of cs of (neg, ds) \<Rightarrow>
           if ds \<noteq> [] \<and> is_digit (hd ds) \<and> list_all (\<lambda>c. is_digit c \<or> c = CHR ''_'') ds
           then Some (if neg then - exponent_val ds else exponent_val ds) else None))"

definition shift :: "real \<Rightarrow> real \<Rightarrow> int \<Rightarrow> real" where
  "shift b x e = (if 0 \<le> e then x * b ^ nat e else x / b ^ nat (- e))"

text \<open>
  The finite results; a text that reads as an infinity or as NaN gives \<open>None\<close> too, and so does one whose
  value is out of range.
\<close>

definition ParseFloat_finite :: "string \<Rightarrow> real option" where
  "ParseFloat_finite s =
     (let (neg, t) = sign_of s;
          hex = is_hex t;
          t = (if hex then drop 2 t else t);
          mant = takeWhile (\<lambda>c. c = CHR ''_'' \<or> c = CHR ''.'' \<or> is_digit c \<or> hex \<and> lower c \<in> set ''abcdef'') t;
          whole = filter (\<lambda>c. c \<noteq> CHR ''_'') (takeWhile (\<lambda>c. c \<noteq> CHR ''.'') mant);
          frac = filter (\<lambda>c. c \<noteq> CHR ''_'') (drop 1 (dropWhile (\<lambda>c. c \<noteq> CHR ''.'') mant))
      in if whole @ frac = [] \<or> CHR ''.'' \<in> set frac then None
         else if CHR ''_'' \<in> set s \<and> \<not> underscores_ok hex (if hex then CHR ''0'' else CHR ''^'') t then None
         else (case exponent_part hex (drop (length mant) t) of
             None \<Rightarrow> None
           | Some e \<Rightarrow>
               let base = (if hex then 16 else 10 :: nat);
                   m = foldl (\<lambda>n c. base * n + hex_digit_val c) 0 (whole @ frac);
                   x = shift (if hex then 2 else 10) (real m / real base ^ length frac) e;
                   r = f64_round (if neg then - x else x)
               in if \<bar>r\<bar> < 2 ^ 1024 then Some r else None))"

subsection \<open>\<open>time.ParseDuration\<close>\<close>

definition two63 :: int where "two63 = 2 ^ 63"

text \<open>\<open>leadingInt\<close>: the digits at the head of a text, or \<open>None\<close> when they exceed \<open>2^63\<close>.\<close>

fun leadingInt :: "int \<Rightarrow> string \<Rightarrow> (int \<times> string) option" where
  "leadingInt x [] = Some (x, [])"
| "leadingInt x (c # cs) =
     (if \<not> is_digit c then Some (x, c # cs)
      else if x > two63 div 10 then None
      else let x = x * 10 + int (digit_val c) in if x > two63 then None else leadingInt x cs)"

text \<open>\<open>leadingFraction\<close>: digits beyond the 63rd bit are read and ignored.\<close>

fun leadingFraction :: "int \<Rightarrow> int \<Rightarrow> bool \<Rightarrow> string \<Rightarrow> int \<times> int \<times> string" where
  "leadingFraction x scale overflow [] = (x, scale, [])"
| "leadingFraction x scale overflow (c # cs) =
     (if \<not> is_digit c then (x, scale, c # cs)
      else if overflow \<or> x > (two63 - 1) div 10 then leadingFraction x scale True cs
      else let y = x * 10 + int (digit_val c)
           in if y > two63 then leadingFraction x scale True cs else leadingFraction y (scale * 10) False cs)"

definition unitMap :: "(string \<times> int) list" where
  "unitMap = [(''ns'', 1), (''us'', 1000), ([CHR 0xC2, CHR 0xB5, CHR ''s''], 1000),
     ([CHR 0xCE, CHR 0xBC, CHR ''s''], 1000), (''ms'', Millisecond), (''s'', Second), (''m'', Minute), (''h'', Hour)]"

lemma length_leadingInt: "leadingInt x s = Some (v, r) \<Longrightarrow> length r \<le> length s"
  by (induction x s rule: leadingInt.induct) (auto simp: Let_def split: if_splits)

lemma length_leadingFraction: "leadingFraction x scale overflow s = (v, u, r) \<Longrightarrow> length r \<le> length s"
  by (induction x scale overflow s rule: leadingFraction.induct) (auto simp: Let_def split: if_splits)

text \<open>One number with its unit: its nanoseconds and the rest of the text.\<close>

definition duration_part :: "string \<Rightarrow> (int \<times> string) option" where
  "duration_part s =
     (if s = [] \<or> \<not> (hd s = CHR ''.'' \<or> is_digit (hd s)) then None
      else case leadingInt 0 s of None \<Rightarrow> None | Some (v, s1) \<Rightarrow>
        let pre = (length s1 \<noteq> length s);
            dot = (s1 \<noteq> [] \<and> hd s1 = CHR ''.'');
            (f, scale, s2) = (if dot then leadingFraction 0 1 False (tl s1) else (0, 1, s1));
            post = (dot \<and> length s2 \<noteq> length (tl s1));
            u = takeWhile (\<lambda>c. c \<noteq> CHR ''.'' \<and> \<not> is_digit c) s2
        in if \<not> pre \<and> \<not> post then None
           else if u = [] then None
           else case map_of unitMap u of None \<Rightarrow> None | Some unit' \<Rightarrow>
             if v > two63 div unit' then None
             else let v = v * unit';
                      v = (if f > 0 then v + \<lfloor>f64_round (f64_round (of_int f) * f64_round (of_int unit' / of_int scale))\<rfloor> else v)
               in if v > two63 then None else Some (v, drop (length u) s2))"

lemma duration_part_shorter: "duration_part s = Some (v, r) \<Longrightarrow> length r < length s"
proof -
  assume part: "duration_part s = Some (v, r)"
  then obtain v1 s1 f scale s2 where 1: "leadingInt 0 s = Some (v1, s1)"
    "(if s1 \<noteq> [] \<and> hd s1 = CHR ''.'' then leadingFraction 0 1 False (tl s1) else (0, 1, s1)) = (f, scale, s2)"
    and u: "takeWhile (\<lambda>c. c \<noteq> CHR ''.'' \<and> \<not> is_digit c) s2 \<noteq> []"
    and r: "r = drop (length (takeWhile (\<lambda>c. c \<noteq> CHR ''.'' \<and> \<not> is_digit c) s2)) s2"
    unfolding duration_part_def Let_def by (auto split: if_splits option.splits prod.splits)
  have "length s2 \<le> length s1" using 1(2) by (auto dest: length_leadingFraction split: if_splits)
  moreover have "length r < length s2" using u r by (cases s2) auto
  ultimately show ?thesis using length_leadingInt [OF 1(1)] by simp
qed

text \<open>The loop over the parts. Go adds them in a \<open>uint64\<close>, where two parts of \<open>2^63\<close> sum to zero.\<close>

function duration_sum :: "int \<Rightarrow> string \<Rightarrow> int option" where
  "duration_sum d s = (if s = [] then Some d else
     (case duration_part s of None \<Rightarrow> None | Some (v, r) \<Rightarrow>
        let d = (d + v) mod 2 ^ 64 in if d > two63 then None else duration_sum d r))"
  by auto
termination by (relation "measure (length o snd)") (auto dest: duration_part_shorter)

declare duration_sum.simps [simp del]

definition ParseDuration :: "string \<Rightarrow> duration option" where
  "ParseDuration s =
     (case sign_of s of (neg, t) \<Rightarrow>
        if t = ''0'' then Some 0
        else if t = [] then None
        else (case duration_sum 0 t of
            None \<Rightarrow> None
          | Some d \<Rightarrow> if neg then Some (- d) else if d > two63 - 1 then None else Some d))"

subsection \<open>\<open>Duration.String\<close>\<close>

text \<open>\<open>fmtFrac\<close>: the last \<open>prec\<close> digits of \<open>v\<close> as a fraction without trailing zeros, and the rest of \<open>v\<close>.\<close>

definition fmt_frac :: "int \<Rightarrow> nat \<Rightarrow> string \<times> int" where
  "fmt_frac v prec =
     (let low = v mod 10 ^ prec; ds = rev (dropWhile (\<lambda>c. c = CHR ''0'') (rev (pad prec low)))
      in (if low = 0 then '''' else ''.'' @ ds, v div 10 ^ prec))"

definition Duration_String :: "duration \<Rightarrow> string" where
  "Duration_String d =
     (let u = \<bar>d\<bar>;
          body =
            (if u = 0 then ''0s''
             else if u < 1000 then show_int u @ ''ns''
             else if u < 1000000 then (let (f, w) = fmt_frac u 3 in show_int w @ f @ [CHR 0xC2, CHR 0xB5, CHR ''s''])
             else if u < Second then (let (f, w) = fmt_frac u 6 in show_int w @ f @ ''ms'')
             else let (f, w) = fmt_frac u 9; s = show_int (w mod 60) @ f @ ''s'';
                      m = w div 60; h = m div 60
                  in if m = 0 then s
                     else if h = 0 then show_int (m mod 60) @ ''m'' @ s
                     else show_int h @ ''h'' @ show_int (m mod 60) @ ''m'' @ s)
      in if d < 0 then ''-'' @ body else body)"

lemma Duration_String_examples:
  "Duration_String (15 * Minute) = ''15m0s''" "Duration_String (36 * Hour) = ''36h0m0s''"
  by (simp_all add: Duration_String_def fmt_frac_def Let_def show_int_def show_nat.simps digit_def char_of_def bit_0)

lemma conversion_examples:
  "ParseDuration ''1h30m'' = Some (90 * Minute)"
  "ParseDuration ''10'' = None"
  "ParseFloat_finite ''2.5e1'' = Some 25"
  "ParseFloat_finite ''_1'' = None"
  by code_simp+

end
