(* ===== verification/Command.thy ===== *)
theory Command
  imports Gateway SampleBackend Multi Go_Conv
begin

text \<open>
  \<open>cmd/clusterorbit-gateway/main.go\<close>: how the command configures the gateway from its environment. \<open>env\<close> is
  \<open>os.Getenv\<close>. Files, certificates and the YAML decoder are parameters, as in \<open>Kubeconfig\<close> and
  \<open>Rest_Client\<close>. What \<open>main\<close> does up to the point where it listens is the function \<open>startup\<close>, the rest \<open>serve\<close>; an error is the
  message it dies with. Its log lines are not modelled.
\<close>

subsection \<open>Reading the environment\<close>

definition envOrDefault :: "(string \<Rightarrow> string) \<Rightarrow> string \<Rightarrow> string \<Rightarrow> string" where
  "envOrDefault env key fallback = (if env key \<noteq> '''' then env key else fallback)"

definition splitCSV :: "string \<Rightarrow> string list" where
  "splitCSV raw = filter (\<lambda>v. v \<noteq> '''') (map TrimSpace (Split raw (CHR '','')))"

definition want :: "string \<Rightarrow> string \<Rightarrow> string \<Rightarrow> go_error" where
  "want key raw what = ErrorString (key @ ''='' @ Quote raw @ '': want '' @ what)"

definition envInt :: "(string \<Rightarrow> string) \<Rightarrow> string \<Rightarrow> go_error + int" where
  "envInt env key =
     (let raw = TrimSpace (env key)
      in if raw = '''' then Inr 0
         else (case Atoi raw of
             None \<Rightarrow> Inl (want key raw ''a non-negative integer'')
           | Some n \<Rightarrow> if n < 0 then Inl (want key raw ''a non-negative integer'') else Inr n))"

definition envFloat :: "(string \<Rightarrow> string) \<Rightarrow> string \<Rightarrow> go_error + real" where
  "envFloat env key =
     (let raw = TrimSpace (env key)
      in if raw = '''' then Inr 0
         else (case ParseFloat_finite raw of
             None \<Rightarrow> Inl (want key raw ''a non-negative number'')
           | Some f \<Rightarrow> if f < 0 then Inl (want key raw ''a non-negative number'') else Inr f))"

definition envBool :: "(string \<Rightarrow> string) \<Rightarrow> string \<Rightarrow> go_error + bool" where
  "envBool env key =
     (let raw = ToLower (TrimSpace (env key))
      in if raw \<in> {''1'', ''true'', ''yes'', ''on''} then Inr True
         else if raw \<in> {'''', ''0'', ''false'', ''no'', ''off''} then Inr False
         else Inl (want key raw ''true or false''))"

subsection \<open>Tokens, policies, approvals, limiter\<close>

text \<open>The loop that keeps the first of equal values.\<close>

definition add_new :: "string \<Rightarrow> string list \<Rightarrow> string list" where
  "add_new t out = (if t \<noteq> '''' \<and> t \<notin> set out then out @ [t] else out)"

definition collectTokens :: "(string \<Rightarrow> string) \<Rightarrow> string list" where
  "collectTokens env =
     (let candidates = [TrimSpace (env ''CLUSTERORBIT_GATEWAY_TOKEN'')] @ splitCSV (env ''CLUSTERORBIT_GATEWAY_TOKENS'')
      in fold add_new candidates [])"

definition buildScalePolicy :: "(string \<Rightarrow> string) \<Rightarrow> go_error + scale_policy option \<times> string" where
  "buildScalePolicy env =
     (case envInt env ''CLUSTERORBIT_GATEWAY_POLICY_MAX_REPLICAS'' of
        Inl e \<Rightarrow> Inl e
      | Inr maxr \<Rightarrow>
          let namespaces = splitCSV (env ''CLUSTERORBIT_GATEWAY_POLICY_NAMESPACES'')
          in if maxr = 0 \<and> length namespaces = 0 then Inr (None, ''off'')
             else Inr (Some \<lparr>MaxReplicas = maxr, AllowedNamespaces = namespaces\<rparr>,
               Join ((if maxr > 0 then [''max='' @ show_int maxr] else [])
                 @ (if length namespaces > 0 then [''ns='' @ show_int (int (length namespaces))] else [])) '',''))"

definition buildNodePolicy :: "(string \<Rightarrow> string) \<Rightarrow> go_error + node_policy option \<times> string" where
  "buildNodePolicy env =
     (let allowed = splitCSV (env ''CLUSTERORBIT_GATEWAY_POLICY_NODES'');
          protected = splitCSV (env ''CLUSTERORBIT_GATEWAY_POLICY_PROTECTED_NODES'')
      in case envBool env ''CLUSTERORBIT_GATEWAY_POLICY_DISABLE_DRAIN'' of
           Inl e \<Rightarrow> Inl e
         | Inr disableDrain \<Rightarrow>
             if length allowed = 0 \<and> length protected = 0 \<and> \<not> disableDrain then Inr (None, ''off'')
             else Inr (Some \<lparr>AllowedNodes = allowed, ProtectedNodes = protected, DisableDrain = disableDrain\<rparr>,
               Join ((if length allowed > 0 then [''allow='' @ show_int (int (length allowed))] else [])
                 @ (if length protected > 0 then [''protected='' @ show_int (int (length protected))] else [])
                 @ (if disableDrain then [''drain=off''] else [])) '',''))"

text \<open>The loop over the operations to gate.\<close>

fun required_ops :: "string list \<Rightarrow> string list \<Rightarrow> go_error + string list" where
  "required_ops required [] = Inr required"
| "required_ops required (op # rest) =
     (let op = ToLower op
      in if op \<in> {OpScale, OpRestart, OpCordon, OpDrain} then
           required_ops (if op \<notin> set required then required @ [op] else required) rest
         else Inl (ErrorString (''CLUSTERORBIT_GATEWAY_POLICY_REQUIRE_APPROVAL: unknown op '' @ Quote op
           @ '' (want scale, restart, cordon or drain)'')))"

definition buildApprovalPolicy :: "(string \<Rightarrow> string) \<Rightarrow> string list \<Rightarrow> go_error + approval_store option \<times> string" where
  "buildApprovalPolicy env toks =
     (case required_ops [] (splitCSV (env ''CLUSTERORBIT_GATEWAY_POLICY_REQUIRE_APPROVAL'')) of
        Inl e \<Rightarrow> Inl e
      | Inr required \<Rightarrow>
          if length required = 0 then Inr (None, ''off'')
          else if length toks < 2 then
            Inl (ErrorString (''CLUSTERORBIT_GATEWAY_POLICY_REQUIRE_APPROVAL needs >=2 distinct tokens (CLUSTERORBIT_GATEWAY_TOKEN/_TOKENS), have ''
              @ show_int (int (length toks))))
          else
            let raw = TrimSpace (env ''CLUSTERORBIT_GATEWAY_POLICY_APPROVAL_TTL'');
                store = (\<lambda>d. (Some (NewApprovalStore d required),
                  ''ops='' @ show_int (int (length required)) @ '' ttl='' @ Duration_String d));
                bad = Inl (want ''CLUSTERORBIT_GATEWAY_POLICY_APPROVAL_TTL'' raw ''a positive Go duration'')
            in if raw = '''' then Inr (store (15 * Minute))
               else (case ParseDuration raw of
                   None \<Rightarrow> bad
                 | Some d \<Rightarrow> if d \<le> 0 then bad else Inr (store d)))"

definition buildLimiter :: "(string \<Rightarrow> string) \<Rightarrow> go_error + rate_limiter option" where
  "buildLimiter env =
     (case envFloat env ''CLUSTERORBIT_GATEWAY_RATE_LIMIT_RPS'' of
        Inl e \<Rightarrow> Inl e
      | Inr rps \<Rightarrow> (case envFloat env ''CLUSTERORBIT_GATEWAY_RATE_LIMIT_BURST'' of
          Inl e \<Rightarrow> Inl e
        | Inr burst \<Rightarrow>
            if (rps > 0) \<noteq> (burst > 0) then
              Inl (ErrorString ''CLUSTERORBIT_GATEWAY_RATE_LIMIT_RPS and _BURST must both be set to enable rate limiting'')
            else Inr (NewRateLimiter rps burst)))"

subsection \<open>The backend\<close>

datatype 'w chosen_backend = ChoseSample | ChoseKube "'w kube_backend" | ChoseMulti "'w multi_backend"

text \<open>
  What start-up takes from outside: the operating system's name, the file system, the YAML decoder, the constructor of
  a cluster's backend, the loader of the server's certificate, the PEM parser, and opening the audit log.
\<close>

record 'w platform =
  os_GOOS :: string
  os_ReadFile :: "string \<Rightarrow> go_error + string"
  yaml_Unmarshal :: "string \<Rightarrow> go_error + raw_kubeconfig"
  new_KubeBackend :: "resolved_cluster option \<Rightarrow> go_error + 'w kube_backend"
  tls_LoadX509KeyPair :: "string \<Rightarrow> string \<Rightarrow> go_error + string \<times> string"
  x509_AppendCertsFromPEM :: "string \<Rightarrow> bool"
  os_OpenAppend :: "string \<Rightarrow> go_error option"

definition buildBackend :: "'w platform \<Rightarrow> (string \<Rightarrow> string) \<Rightarrow> string \<Rightarrow> 'w chosen_backend \<times> string" where
  "buildBackend os env mode =
     (if mode \<noteq> ''kube'' then (ChoseSample, ''sample'')
      else
        let path = ResolvePath (os_GOOS os) env
        in if path = '''' then (ChoseSample, ''sample (kube fallback: no kubeconfig path)'')
           else (case LoadFile (os_ReadFile os) (yaml_Unmarshal os) path of
               Inl _ \<Rightarrow> (ChoseSample, ''sample (kube fallback: load failed)'')
             | Inr doc \<Rightarrow>
                 let ctxName = TrimSpace (env EnvVarContext)
                 in if ctxName \<noteq> '''' then
                      (case Resolve (os_ReadFile os) (Some doc) ctxName of
                         Inl _ \<Rightarrow> (ChoseSample, ''sample (kube fallback: resolve failed)'')
                       | Inr cluster \<Rightarrow> (case new_KubeBackend os (Some cluster) of
                           Inl _ \<Rightarrow> (ChoseSample, ''sample (kube fallback: client init failed)'')
                         | Inr backend \<Rightarrow> (ChoseKube backend,
                             ''kube ('' @ res_ContextName cluster @ '' @ '' @ APIServerHost cluster @ '')'')))
                    else
                      let (clusters, _) = ResolveAll (os_ReadFile os) (Some doc)
                      in if length clusters = 0 then (ChoseSample, ''sample (kube fallback: no contexts)'')
                         else
                           let (mb, _) = NewMultiClusterBackend (new_KubeBackend os) (map Some clusters)
                           in if Len mb = 0 then (ChoseSample, ''sample (kube fallback: all inits failed)'')
                              else (ChoseMulti mb, ''kube-multi ('' @ show_int (int (Len mb)) @ '' clusters)'')))"

subsection \<open>TLS and the audit log\<close>

record server_tls =
  stls_Certificate :: "string \<times> string"
  stls_MinVersion :: int
  stls_RequireAndVerifyClientCert :: bool
  stls_ClientCAs :: "string option"

definition buildTLS :: "'w platform \<Rightarrow> (string \<Rightarrow> string) \<Rightarrow> go_error + server_tls option \<times> string" where
  "buildTLS os env =
     (let certFile = env ''CLUSTERORBIT_GATEWAY_TLS_CERT''; keyFile = env ''CLUSTERORBIT_GATEWAY_TLS_KEY''
      in if certFile = '''' \<and> keyFile = '''' then Inr (None, ''off'')
         else if certFile = '''' \<or> keyFile = '''' then
           Inl (ErrorString ''both CLUSTERORBIT_GATEWAY_TLS_CERT and _KEY must be set'')
         else (case tls_LoadX509KeyPair os certFile keyFile of
             Inl e \<Rightarrow> Inl (Errorf ''load server keypair: '' e '''')
           | Inr cert \<Rightarrow>
               let cfg = \<lparr>stls_Certificate = cert, stls_MinVersion = 0x0303, stls_RequireAndVerifyClientCert = False,
                          stls_ClientCAs = None\<rparr>;
                   clientCA = env ''CLUSTERORBIT_GATEWAY_CLIENT_CA''
               in if clientCA \<noteq> '''' then
                    (case os_ReadFile os clientCA of
                       Inl e \<Rightarrow> Inl (Errorf ''read client CA: '' e '''')
                     | Inr caBytes \<Rightarrow>
                         if \<not> x509_AppendCertsFromPEM os caBytes then
                           Inl (ErrorString (''client CA '' @ Quote clientCA @ '' did not parse as PEM''))
                         else Inr (Some (cfg\<lparr>stls_RequireAndVerifyClientCert := True, stls_ClientCAs := Some caBytes\<rparr>),
                           ''mtls''))
                  else Inr (Some cfg, ''tls'')))"

datatype audit_sink = NoAudit | AuditStdout | AuditFile string

definition buildAuditSink :: "'w platform \<Rightarrow> (string \<Rightarrow> string) \<Rightarrow> audit_sink \<times> string" where
  "buildAuditSink os env =
     (let dest = TrimSpace (env ''CLUSTERORBIT_GATEWAY_AUDIT_LOG'')
      in if dest = ''off'' then (NoAudit, ''off'')
         else if dest = '''' then (AuditStdout, ''stdout'')
         else (case os_OpenAppend os dest of
             Some _ \<Rightarrow> (AuditStdout, ''stdout (file open failed)'')
           | None \<Rightarrow> (AuditFile dest, ''file:'' @ dest)))"

subsection \<open>Labels\<close>

definition authLabel :: "string list \<Rightarrow> string" where
  "authLabel toks = (if length toks = 0 then ''none'' else if length toks = 1 then ''single-token''
     else show_int (int (length toks)) @ ''-tokens'')"

definition rateLabel :: "rate_limiter option \<Rightarrow> string" where
  "rateLabel rl = (if rl = None then ''off'' else ''on'')"

definition trustProxyLabel :: "bool \<Rightarrow> string list \<Rightarrow> string" where
  "trustProxyLabel trust toks = (if \<not> trust then ''off'' else if length toks > 0 then ''on (unused with token auth)''
     else ''on'')"

subsection \<open>\<open>main\<close>, up to listening\<close>

record 'w gateway =
  gw_Addr :: string
  gw_Backend :: "'w chosen_backend"
  gw_Tokens :: "string list"
  gw_Limiter :: "rate_limiter option"
  gw_TrustForwardedFor :: bool
  gw_ScalePolicy :: "scale_policy option"
  gw_NodePolicy :: "node_policy option"
  gw_Approvals :: "approval_store option"
  gw_Audit :: audit_sink
  gw_TLS :: "server_tls option"
  gw_Timeouts :: "duration \<times> duration \<times> duration \<times> duration"
  gw_Banner :: string

definition startupBanner :: string where
  "startupBanner = ''ClusterOrbit gateway''"

definition startup :: "'w platform \<Rightarrow> (string \<Rightarrow> string) \<Rightarrow> go_error + 'w gateway" where
  "startup os env =
     (let addr = envOrDefault env ''CLUSTERORBIT_GATEWAY_ADDR'' '':8080'';
          mode = envOrDefault env ''CLUSTERORBIT_GATEWAY_MODE'' ''sample'';
          (backend, backendLabel) = buildBackend os env mode;
          toks = collectTokens env
      in case buildLimiter env of Inl e \<Rightarrow> Inl (Errorf ''gateway: '' e '''') | Inr limiter \<Rightarrow>
         (case envBool env ''CLUSTERORBIT_GATEWAY_TRUST_PROXY'' of Inl e \<Rightarrow> Inl (Errorf ''gateway: '' e '''') | Inr trustProxy \<Rightarrow>
         (case buildScalePolicy env of Inl e \<Rightarrow> Inl (Errorf ''gateway: '' e '''') | Inr (policy, policyLabel) \<Rightarrow>
         (case buildNodePolicy env of Inl e \<Rightarrow> Inl (Errorf ''gateway: '' e '''') | Inr (nodePolicy, nodePolicyLabel) \<Rightarrow>
         (case buildApprovalPolicy env toks of Inl e \<Rightarrow> Inl (Errorf ''gateway: '' e '''') | Inr (approvals, approvalLabel) \<Rightarrow>
         let (auditSink, auditLabel) = buildAuditSink os env
         in case buildTLS os env of Inl e \<Rightarrow> Inl (Errorf ''gateway: TLS setup: '' e '''') | Inr (tlsCfg, tlsLabel) \<Rightarrow>
              Inr \<lparr>gw_Addr = addr, gw_Backend = backend, gw_Tokens = toks, gw_Limiter = limiter,
                gw_TrustForwardedFor = trustProxy, gw_ScalePolicy = policy, gw_NodePolicy = nodePolicy,
                gw_Approvals = approvals, gw_Audit = auditSink, gw_TLS = tlsCfg,
                gw_Timeouts = (10 * Second, 30 * Second, 60 * Second, 120 * Second),
                gw_Banner = startupBanner @ '' listening on '' @ addr @ '' (auth='' @ authLabel toks
                  @ '' backend='' @ backendLabel @ '' tls='' @ tlsLabel @ '' rate='' @ rateLabel limiter
                  @ '' trustProxy='' @ trustProxyLabel trustProxy toks @ '' audit='' @ auditLabel
                  @ '' policy='' @ policyLabel @ '' nodePolicy='' @ nodePolicyLabel
                  @ '' approval='' @ approvalLabel @ '')'' @ [CHR 0x0A]\<rparr>)))))"

text \<open>The server that serves a chosen backend \<open>b\<close>, and its state before the first request.\<close>

definition gateway_server :: "('w gateway) \<Rightarrow> (string \<Rightarrow> string) \<Rightarrow> 'v cluster_backend \<Rightarrow> 'v server" where
  "gateway_server g Sum256 b = \<lparr>srv_Backend = b, srv_Tokens = gw_Tokens g, srv_Token = '''',
     srv_TrustForwardedFor = gw_TrustForwardedFor g, srv_AuditSink = (gw_Audit g \<noteq> NoAudit),
     srv_ScalePolicy = gw_ScalePolicy g, srv_NodePolicy = gw_NodePolicy g, srv_Sum256 = Sum256\<rparr>"

definition gateway_state :: "'w gateway \<Rightarrow> 'v \<Rightarrow> 'v state" where
  "gateway_state g v = \<lparr>st_Limiter = gw_Limiter g, st_Approvals = gw_Approvals g, st_Audit = [], st_World = v\<rparr>"

subsection \<open>\<open>main\<close>, from listening to the end of the process\<close>

text \<open>
  What ends \<open>main\<close>'s wait: \<open>ListenAndServe\<close> or \<open>ListenAndServeTLS\<close> returned, or a signal came and \<open>Shutdown\<close> returned
  within its 20 seconds or failed. Which of them happens is up to \<open>net/http\<close> and the outside, the argument
  \<open>listen\<close>: it gets the configured server and whether it is to listen with TLS. \<open>log.Fatal\<close> ends the process at
  once, without the deferred closing of the audit file; a return from \<open>main\<close> closes it.
\<close>

datatype serve_error = ErrServerClosed | ServeError string

datatype main_wakes = ServeReturned "serve_error option" | Signalled "go_error option"

datatype process_end = Fatal string | Returned "string option"

definition serve :: "('w gateway \<Rightarrow> bool \<Rightarrow> main_wakes) \<Rightarrow> 'w gateway \<Rightarrow> process_end" where
  "serve listen g =
     (let closes = (case gw_Audit g of AuditFile path \<Rightarrow> Some path | _ \<Rightarrow> None)
      in case listen g (gw_TLS g \<noteq> None) of
        ServeReturned err \<Rightarrow>
          (case err of Some (ServeError m) \<Rightarrow> Fatal m | Some ErrServerClosed \<Rightarrow> Returned closes | None \<Rightarrow> Returned closes)
      | Signalled err \<Rightarrow> Returned closes)"

definition gateway_main :: "'w platform \<Rightarrow> (string \<Rightarrow> string) \<Rightarrow> ('w gateway \<Rightarrow> bool \<Rightarrow> main_wakes) \<Rightarrow> process_end" where
  "gateway_main os env listen = (case startup os env of Inl e \<Rightarrow> Fatal (err_text e) | Inr g \<Rightarrow> serve listen g)"

subsection \<open>What is configured is in force\<close>

lemma fold_add_new:
  "distinct out \<Longrightarrow> '''' \<notin> set out \<Longrightarrow>
    distinct (fold add_new ts out) \<and> '''' \<notin> set (fold add_new ts out)
    \<and> set (fold add_new ts out) = set out \<union> (set ts - {''''})"
  by (induction ts arbitrary: out) (auto simp: add_new_def)

lemma collectTokens_set:
  "distinct (collectTokens env)" "'''' \<notin> set (collectTokens env)"
  "set (collectTokens env) = insert (TrimSpace (env ''CLUSTERORBIT_GATEWAY_TOKEN''))
     (set (splitCSV (env ''CLUSTERORBIT_GATEWAY_TOKENS''))) - {''''}"
proof -
  let ?ts = "TrimSpace (env ''CLUSTERORBIT_GATEWAY_TOKEN'') # splitCSV (env ''CLUSTERORBIT_GATEWAY_TOKENS'')"
  have toks: "collectTokens env = fold add_new ?ts []" by (simp add: collectTokens_def)
  have all: "distinct (fold add_new ?ts []) \<and> '''' \<notin> set (fold add_new ?ts [])
      \<and> set (fold add_new ?ts []) = set [] \<union> (set ?ts - {''''})"
    by (rule fold_add_new) simp_all
  show "distinct (collectTokens env)" unfolding toks using all by (rule conjunct1)
  show "'''' \<notin> set (collectTokens env)" unfolding toks using all by (elim conjE)
  show "set (collectTokens env) = insert (TrimSpace (env ''CLUSTERORBIT_GATEWAY_TOKEN''))
      (set (splitCSV (env ''CLUSTERORBIT_GATEWAY_TOKENS''))) - {''''}"
    unfolding toks using all by (elim conjE) (simp only: list.set Un_empty_left)
qed

lemma required_ops_set:
  "required_ops required vs = Inr required' \<Longrightarrow>
    set required' = set required \<union> ToLower ` set vs
    \<and> ToLower ` set vs \<subseteq> {OpScale, OpRestart, OpCordon, OpDrain}"
proof (induction vs arbitrary: required)
  case (Cons v vs)
  then have v: "ToLower v \<in> {OpScale, OpRestart, OpCordon, OpDrain}"
    and "required_ops (if ToLower v \<notin> set required then required @ [ToLower v] else required) vs = Inr required'"
    by (auto simp: Let_def split: if_splits)
  from Cons.IH [OF this(2)] v show ?case by (simp split: if_splits) blast
qed simp

definition gated_ops :: "(string \<Rightarrow> string) \<Rightarrow> string set" where
  "gated_ops env = ToLower ` set (splitCSV (env ''CLUSTERORBIT_GATEWAY_POLICY_REQUIRE_APPROVAL''))"

lemma approvals_gated:
  assumes "buildApprovalPolicy env toks = Inr (s, label)"
  shows "gated_ops env \<subseteq> {OpScale, OpRestart, OpCordon, OpDrain}"
    and "Requires s op \<longleftrightarrow> op \<in> gated_ops env \<or> op = OpDrain \<and> OpCordon \<in> gated_ops env"
    and "s \<noteq> None \<Longrightarrow> 2 \<le> length toks"
    and "s = Some store \<Longrightarrow> reqs store = [] \<and> 0 < ttl store"
proof -
  from assms obtain required where req: "required_ops [] (splitCSV (env ''CLUSTERORBIT_GATEWAY_POLICY_REQUIRE_APPROVAL'')) = Inr required"
    by (auto simp: buildApprovalPolicy_def split: sum.splits)
  note set_req = required_ops_set [OF req, folded gated_ops_def]
  then show "gated_ops env \<subseteq> {OpScale, OpRestart, OpCordon, OpDrain}" by simp
  have cases: "required = [] \<and> s = None \<or> 2 \<le> length toks
      \<and> (\<exists>store. s = Some store \<and> ops store = required \<and> reqs store = [] \<and> 0 < ttl store)"
    using assms req
    by (auto simp: buildApprovalPolicy_def NewApprovalStore_def Let_def split: if_splits option.splits)
  then show "Requires s op \<longleftrightarrow> op \<in> gated_ops env \<or> op = OpDrain \<and> OpCordon \<in> gated_ops env"
    using set_req by (auto simp: Requires_def)
  show "s \<noteq> None \<Longrightarrow> 2 \<le> length toks" using cases by auto
  show "s = Some store \<Longrightarrow> reqs store = [] \<and> 0 < ttl store" using cases by auto
qed

text \<open>What the policy variables say of a namespace and of a node: an empty list allows all.\<close>

definition in_list :: "string \<Rightarrow> string list \<Rightarrow> bool" where
  "in_list x allowed \<longleftrightarrow> allowed = [] \<or> x \<in> set allowed"

definition node_allowed :: "(string \<Rightarrow> string) \<Rightarrow> string \<Rightarrow> bool" where
  "node_allowed env n \<longleftrightarrow> n \<notin> set (splitCSV (env ''CLUSTERORBIT_GATEWAY_POLICY_PROTECTED_NODES''))
     \<and> in_list n (splitCSV (env ''CLUSTERORBIT_GATEWAY_POLICY_NODES''))"

lemma splitCSV_nonempty [simp]: "'''' \<notin> set (splitCSV raw)"
  by (simp add: splitCSV_def)

lemma scale_policy_exact:
  assumes "buildScalePolicy env = Inr (p, label)"
  shows "EvaluateNamespace p ns = '''' \<longleftrightarrow> in_list ns (splitCSV (env ''CLUSTERORBIT_GATEWAY_POLICY_NAMESPACES''))"
    and "Evaluate p ns n = '''' \<longleftrightarrow> in_list ns (splitCSV (env ''CLUSTERORBIT_GATEWAY_POLICY_NAMESPACES''))
      \<and> (case envInt env ''CLUSTERORBIT_GATEWAY_POLICY_MAX_REPLICAS'' of Inl _ \<Rightarrow> False | Inr m \<Rightarrow> m = 0 \<or> n \<le> m)"
proof -
  from assms obtain m where m: "envInt env ''CLUSTERORBIT_GATEWAY_POLICY_MAX_REPLICAS'' = Inr m"
    by (auto simp: buildScalePolicy_def split: sum.splits)
  then have "0 \<le> m" by (auto simp: envInt_def Let_def split: if_splits option.splits)
  let ?ns = "splitCSV (env ''CLUSTERORBIT_GATEWAY_POLICY_NAMESPACES'')"
  have "p = None \<and> m = 0 \<and> ?ns = [] \<or> p = Some \<lparr>MaxReplicas = m, AllowedNamespaces = ?ns\<rparr>"
    using assms m by (auto simp: buildScalePolicy_def Let_def split: if_splits)
  moreover have "ns \<noteq> '''' \<and> ns \<in> set ?ns \<longleftrightarrow> ns \<in> set ?ns" using splitCSV_nonempty by metis
  ultimately show "EvaluateNamespace p ns = '''' \<longleftrightarrow> in_list ns ?ns"
    and "Evaluate p ns n = '''' \<longleftrightarrow> in_list ns ?ns
      \<and> (case envInt env ''CLUSTERORBIT_GATEWAY_POLICY_MAX_REPLICAS'' of Inl _ \<Rightarrow> False | Inr m \<Rightarrow> m = 0 \<or> n \<le> m)"
    using m \<open>0 \<le> m\<close> scale_gates_exact [of p ns n] by (auto simp: in_list_def)
qed

lemma node_policy_exact:
  assumes "buildNodePolicy env = Inr (p, label)"
  shows "EvaluateCordon p n False = ''''"
    and "n \<noteq> '''' \<Longrightarrow> EvaluateCordon p n True = '''' \<longleftrightarrow> node_allowed env n"
    and "n \<noteq> '''' \<Longrightarrow> EvaluateDrain p n = '''' \<longleftrightarrow> node_allowed env n
      \<and> envBool env ''CLUSTERORBIT_GATEWAY_POLICY_DISABLE_DRAIN'' = Inr False"
  using assms node_gates_exact [of p n]
  by (auto simp: buildNodePolicy_def node_allowed_def in_list_def Let_def split: sum.splits if_splits)

lemma buildLimiter_Inr:
  assumes "buildLimiter env = Inr l"
  obtains rps burst where "envFloat env ''CLUSTERORBIT_GATEWAY_RATE_LIMIT_RPS'' = Inr rps"
    and "envFloat env ''CLUSTERORBIT_GATEWAY_RATE_LIMIT_BURST'' = Inr burst"
    and "0 < rps \<longleftrightarrow> 0 < burst" and "l = NewRateLimiter rps burst"
  using assms by (auto simp: buildLimiter_def split: sum.splits if_splits)

lemma buildTLS_Inr:
  assumes "buildTLS os env = Inr (t, label)"
  shows "t = None \<longleftrightarrow> env ''CLUSTERORBIT_GATEWAY_TLS_CERT'' = '''' \<and> env ''CLUSTERORBIT_GATEWAY_TLS_KEY'' = ''''"
    and "t = Some cfg \<Longrightarrow> stls_MinVersion cfg = 0x0303
      \<and> (stls_RequireAndVerifyClientCert cfg \<longleftrightarrow> env ''CLUSTERORBIT_GATEWAY_CLIENT_CA'' \<noteq> '''')"
  using assms by (auto simp: buildTLS_def Let_def split: if_splits sum.splits)

lemma startup_Inr:
  assumes "startup os env = Inr g"
  obtains a b c d where "buildLimiter env = Inr (gw_Limiter g)"
    and "envBool env ''CLUSTERORBIT_GATEWAY_TRUST_PROXY'' = Inr (gw_TrustForwardedFor g)"
    and "buildScalePolicy env = Inr (gw_ScalePolicy g, a)" and "buildNodePolicy env = Inr (gw_NodePolicy g, b)"
    and "buildApprovalPolicy env (gw_Tokens g) = Inr (gw_Approvals g, c)" and "buildTLS os env = Inr (gw_TLS g, d)"
    and "gw_Tokens g = collectTokens env"
    and "gw_Backend g = fst (buildBackend os env (envOrDefault env ''CLUSTERORBIT_GATEWAY_MODE'' ''sample''))"
  using assms by (auto simp: startup_def Let_def split: sum.splits prod.splits)

text \<open>
  \<open>main\<close> listens at most once, on a gateway that its environment configures, and without TLS only when neither
  a certificate nor a key is set: its outcome depends on \<open>listen\<close> at that point only.
\<close>

lemma main_listens_as_configured:
  assumes "\<And>g tls. startup os env = Inr g \<Longrightarrow>
      tls \<longleftrightarrow> \<not> (env ''CLUSTERORBIT_GATEWAY_TLS_CERT'' = '''' \<and> env ''CLUSTERORBIT_GATEWAY_TLS_KEY'' = '''') \<Longrightarrow>
      listen g tls = listen' g tls"
  shows "gateway_main os env listen = gateway_main os env listen'"
proof (cases "startup os env")
  case (Inr g)
  obtain d where "buildTLS os env = Inr (gw_TLS g, d)" by (rule startup_Inr [OF Inr])
  then have "listen g (gw_TLS g \<noteq> None) = listen' g (gw_TLS g \<noteq> None)" using Inr by (intro assms) (auto simp: buildTLS_Inr(1))
  with Inr show ?thesis by (simp add: gateway_main_def serve_def)
qed (simp add: gateway_main_def)

text \<open>Once it listens, \<open>main\<close> fails only with an error of \<open>net/http\<close> other than \<open>ErrServerClosed\<close>; a signal never makes it
  fail, even when the graceful shutdown does. When \<open>main\<close> returns, it closes its audit file.\<close>

lemma main_end:
  assumes "startup os env = Inr g"
  shows "gateway_main os env listen = Fatal m \<longleftrightarrow> listen g (gw_TLS g \<noteq> None) = ServeReturned (Some (ServeError m))"
    and "gateway_main os env listen = Returned c \<Longrightarrow> c = (case gw_Audit g of AuditFile path \<Rightarrow> Some path | _ \<Rightarrow> None)"
  using assms by (simp_all add: gateway_main_def serve_def Let_def
      split: main_wakes.splits option.splits serve_error.splits)

text \<open>C26: what the environment sets is in force in a gateway that starts. The accepted tokens are exactly the
  distinct non-blank ones of both variables; the rate limiter is on exactly when a rate is set, with that rate
  and burst; exactly the named operations need approval (and drain when cordon does), every name was one
  of the four, and then there are two tokens at least; a workload may be restarted or scaled exactly in the
  listed namespaces (all, when none is listed), and scaled up to the replica ceiling, if it is not zero; a node
  may be cordoned and drained exactly when it is not protected and, if nodes are listed, listed, and drained
  only while \<open>DISABLE_DRAIN\<close> is off; uncordoning is always allowed. Connections are encrypted exactly when
  a certificate or a key is set, and then never below TLS 1.2, with client certificates required
  exactly when a client CA is set; a client CA without certificate and key has no effect.\<close>

theorem configured_controls_are_on:
  assumes "startup os env = Inr g"
  shows "distinct (gw_Tokens g) \<and> set (gw_Tokens g) = insert (TrimSpace (env ''CLUSTERORBIT_GATEWAY_TOKEN''))
        (set (splitCSV (env ''CLUSTERORBIT_GATEWAY_TOKENS''))) - {''''}
    \<and> (\<exists>rps burst. envFloat env ''CLUSTERORBIT_GATEWAY_RATE_LIMIT_RPS'' = Inr rps
        \<and> envFloat env ''CLUSTERORBIT_GATEWAY_RATE_LIMIT_BURST'' = Inr burst
        \<and> (case gw_Limiter g of None \<Rightarrow> rps \<le> 0 | Some l \<Rightarrow> 0 < rps \<and> 0 < burst \<and> rate l = rps \<and> capacity l = burst))
    \<and> gated_ops env \<subseteq> {OpScale, OpRestart, OpCordon, OpDrain}
    \<and> (\<forall>op. Requires (gw_Approvals g) op \<longleftrightarrow> op \<in> gated_ops env \<or> op = OpDrain \<and> OpCordon \<in> gated_ops env)
    \<and> (gw_Approvals g \<noteq> None \<longrightarrow> 2 \<le> card (set (gw_Tokens g)))
    \<and> (\<forall>ns. EvaluateNamespace (gw_ScalePolicy g) ns = '''' \<longleftrightarrow>
        in_list ns (splitCSV (env ''CLUSTERORBIT_GATEWAY_POLICY_NAMESPACES'')))
    \<and> (\<forall>ns i. Evaluate (gw_ScalePolicy g) ns i = '''' \<longleftrightarrow>
        in_list ns (splitCSV (env ''CLUSTERORBIT_GATEWAY_POLICY_NAMESPACES''))
        \<and> (case envInt env ''CLUSTERORBIT_GATEWAY_POLICY_MAX_REPLICAS'' of Inl _ \<Rightarrow> False | Inr m \<Rightarrow> m = 0 \<or> i \<le> m))
    \<and> (\<forall>n. EvaluateCordon (gw_NodePolicy g) n False = '''')
    \<and> (\<forall>n. n \<noteq> '''' \<longrightarrow> (EvaluateCordon (gw_NodePolicy g) n True = '''' \<longleftrightarrow>
          n \<notin> set (splitCSV (env ''CLUSTERORBIT_GATEWAY_POLICY_PROTECTED_NODES''))
          \<and> in_list n (splitCSV (env ''CLUSTERORBIT_GATEWAY_POLICY_NODES'')))
        \<and> (EvaluateDrain (gw_NodePolicy g) n = '''' \<longleftrightarrow>
          EvaluateCordon (gw_NodePolicy g) n True = ''''
          \<and> envBool env ''CLUSTERORBIT_GATEWAY_POLICY_DISABLE_DRAIN'' = Inr False))
    \<and> (case gw_TLS g of
         None \<Rightarrow> env ''CLUSTERORBIT_GATEWAY_TLS_CERT'' = '''' \<and> env ''CLUSTERORBIT_GATEWAY_TLS_KEY'' = ''''
       | Some cfg \<Rightarrow> \<not> (env ''CLUSTERORBIT_GATEWAY_TLS_CERT'' = '''' \<and> env ''CLUSTERORBIT_GATEWAY_TLS_KEY'' = '''')
           \<and> stls_MinVersion cfg = 0x0303
           \<and> (stls_RequireAndVerifyClientCert cfg \<longleftrightarrow> env ''CLUSTERORBIT_GATEWAY_CLIENT_CA'' \<noteq> ''''))"
proof -
  obtain a b c d where g: "buildLimiter env = Inr (gw_Limiter g)"
    "buildScalePolicy env = Inr (gw_ScalePolicy g, a)" "buildNodePolicy env = Inr (gw_NodePolicy g, b)"
    "buildApprovalPolicy env (gw_Tokens g) = Inr (gw_Approvals g, c)" "buildTLS os env = Inr (gw_TLS g, d)"
    "gw_Tokens g = collectTokens env"
    by (rule startup_Inr [OF assms])
  obtain rps burst where l: "envFloat env ''CLUSTERORBIT_GATEWAY_RATE_LIMIT_RPS'' = Inr rps"
    "envFloat env ''CLUSTERORBIT_GATEWAY_RATE_LIMIT_BURST'' = Inr burst" "0 < rps \<longleftrightarrow> 0 < burst"
    "gw_Limiter g = NewRateLimiter rps burst"
    by (rule buildLimiter_Inr [OF g(1)])
  then have limiter: "\<exists>rps burst. envFloat env ''CLUSTERORBIT_GATEWAY_RATE_LIMIT_RPS'' = Inr rps
      \<and> envFloat env ''CLUSTERORBIT_GATEWAY_RATE_LIMIT_BURST'' = Inr burst
      \<and> (case gw_Limiter g of None \<Rightarrow> rps \<le> 0 | Some l \<Rightarrow> 0 < rps \<and> 0 < burst \<and> rate l = rps \<and> capacity l = burst)"
    by (intro exI [of _ rps] exI [of _ burst]) (auto simp: NewRateLimiter_def)
  note scale = allI [OF scale_policy_exact(1) [OF g(2)]] allI [OF allI [OF scale_policy_exact(2) [OF g(2)]]]
  have node: "\<forall>n. n \<noteq> '''' \<longrightarrow> (EvaluateCordon (gw_NodePolicy g) n True = '''' \<longleftrightarrow>
        n \<notin> set (splitCSV (env ''CLUSTERORBIT_GATEWAY_POLICY_PROTECTED_NODES''))
        \<and> in_list n (splitCSV (env ''CLUSTERORBIT_GATEWAY_POLICY_NODES'')))
      \<and> (EvaluateDrain (gw_NodePolicy g) n = '''' \<longleftrightarrow>
        EvaluateCordon (gw_NodePolicy g) n True = ''''
        \<and> envBool env ''CLUSTERORBIT_GATEWAY_POLICY_DISABLE_DRAIN'' = Inr False)"
    using node_policy_exact(2,3) [OF g(3)] by (simp add: node_allowed_def)
  have tls: "case gw_TLS g of
      None \<Rightarrow> env ''CLUSTERORBIT_GATEWAY_TLS_CERT'' = '''' \<and> env ''CLUSTERORBIT_GATEWAY_TLS_KEY'' = ''''
    | Some cfg \<Rightarrow> \<not> (env ''CLUSTERORBIT_GATEWAY_TLS_CERT'' = '''' \<and> env ''CLUSTERORBIT_GATEWAY_TLS_KEY'' = '''')
        \<and> stls_MinVersion cfg = 0x0303
        \<and> (stls_RequireAndVerifyClientCert cfg \<longleftrightarrow> env ''CLUSTERORBIT_GATEWAY_CLIENT_CA'' \<noteq> '''')"
    using buildTLS_Inr [OF g(5)] by (auto split: option.split)
  have "2 \<le> card (set (gw_Tokens g))" if "gw_Approvals g \<noteq> None"
    using approvals_gated(3) [OF g(4) that] collectTokens_set(1) [of env] by (simp add: g(6) distinct_card)
  then have two: "gw_Approvals g \<noteq> None \<longrightarrow> 2 \<le> card (set (gw_Tokens g))" by (rule impI)
  show ?thesis
    by (intro conjI collectTokens_set(1,3) [of env, folded g(6)] limiter approvals_gated(1) [OF g(4)]
        allI [OF approvals_gated(2) [OF g(4)]] two scale allI [OF node_policy_exact(1) [OF g(3)]] node tls)
qed

text \<open>The README has the client CA enable mutual TLS; on its own it leaves the gateway on plain HTTP.\<close>

lemma client_ca_alone_is_plain:
  assumes "startup os env = Inr g" and "env ''CLUSTERORBIT_GATEWAY_TLS_CERT'' = ''''"
    and "env ''CLUSTERORBIT_GATEWAY_TLS_KEY'' = ''''" and "env ''CLUSTERORBIT_GATEWAY_CLIENT_CA'' \<noteq> ''''"
  shows "gw_TLS g = None"
proof -
  obtain d where "buildTLS os env = Inr (gw_TLS g, d)" by (rule startup_Inr [OF assms(1)])
  with assms(2,3) show ?thesis by (simp add: buildTLS_Inr(1))
qed

text \<open>An environment given by a list, and a platform whose files hold \<open>demo_doc\<close>'s clusters.\<close>

definition env_of :: "(string \<times> string) list \<Rightarrow> string \<Rightarrow> string" where
  "env_of m key = (case map_of m key of None \<Rightarrow> '''' | Some v \<Rightarrow> v)"

definition demo_env :: "string \<Rightarrow> string" where
  "demo_env = env_of [(''CLUSTERORBIT_GATEWAY_TOKENS'', ''a,b,a''),
     (''CLUSTERORBIT_GATEWAY_POLICY_REQUIRE_APPROVAL'', ''cordon''),
     (''CLUSTERORBIT_GATEWAY_POLICY_DISABLE_DRAIN'', ''yes'')]"

definition demo_platform :: "(string \<times> string) list platform" where
  "demo_platform = \<lparr>os_GOOS = ''linux'', os_ReadFile = \<lambda>_. Inl (ErrorString ''no such file''),
     yaml_Unmarshal = \<lambda>_. Inl (ErrorString ''not YAML''), new_KubeBackend = \<lambda>_. Inr demo_backend,
     tls_LoadX509KeyPair = \<lambda>c k. Inr (c, k), x509_AppendCertsFromPEM = \<lambda>_. True, os_OpenAppend = \<lambda>_. None\<rparr>"

text \<open>White space is told from other text by its first and last bytes.\<close>

definition graphic :: "char \<Rightarrow> bool" where
  "graphic c \<longleftrightarrow> (of_char c :: nat) \<in> {33..126}"

lemma white_spaces_not_graphic:
  "\<forall>w \<in> set white_spaces. w \<noteq> [] \<and> \<not> graphic (hd w) \<and> \<not> graphic (last w)"
  by (simp add: white_spaces_def graphic_def)

lemma trims_nothing:
  assumes "s = '''' \<or> graphic (hd s) \<and> graphic (last s)"
  shows "TrimSpace s = s"
proof -
  have "\<not> HasPrefix s w \<and> \<not> HasSuffix s w" if w: "w \<in> set white_spaces" and s: "s \<noteq> ''''" for w
  proof -
    have "w \<noteq> []" "\<not> graphic (hd w)" "\<not> graphic (last w)" using white_spaces_not_graphic w by auto
    moreover have "hd (take (length w) s) = hd s" if "w \<noteq> []" using that s by simp
    moreover have "last (drop (length s - length w) s) = last s" if "w \<noteq> []" using that s by (simp add: last_drop)
    ultimately show ?thesis using assms s unfolding HasPrefix_def HasSuffix_def by metis
  qed
  then have "find (HasPrefix s) white_spaces = None \<and> find (HasSuffix s) white_spaces = None" if "s \<noteq> ''''"
    using that by (auto simp: find_None_iff)
  then show ?thesis by (cases s) (auto simp: TrimSpace_def Let_def)
qed

lemma demo_starts:
  obtains g where "startup demo_platform demo_env = Inr g" and "gw_Tokens g = [''a'', ''b'']" and "gw_Limiter g = None"
    and "gw_TrustForwardedFor g = False" and "gw_ScalePolicy g = None"
    and "gw_NodePolicy g = Some \<lparr>AllowedNodes = [], ProtectedNodes = [], DisableDrain = True\<rparr>"
    and "gw_Approvals g = Some (NewApprovalStore (15 * Minute) [OpCordon])" and "gw_Audit g = AuditStdout"
    and "gated_ops demo_env = {OpCordon}"
proof -
  have words: "splitCSV ''a,b,a'' = [''a'', ''b'', ''a'']" "splitCSV ''cordon'' = [''cordon'']" "splitCSV '''' = []"
    "TrimSpace '''' = ''''" "ToLower (TrimSpace ''yes'') = ''yes''" "ToLower '''' = ''''" "ToLower ''cordon'' = OpCordon"
    by (simp_all add: splitCSV_def trims_nothing graphic_def ToLower_def lower_def less_eq_char_def OpCordon_def)
  have "demo_env ''CLUSTERORBIT_GATEWAY_TOKENS'' = ''a,b,a''" "demo_env ''CLUSTERORBIT_GATEWAY_TOKEN'' = ''''"
    "demo_env ''CLUSTERORBIT_GATEWAY_POLICY_REQUIRE_APPROVAL'' = ''cordon''"
    "demo_env ''CLUSTERORBIT_GATEWAY_POLICY_DISABLE_DRAIN'' = ''yes''" "demo_env ''CLUSTERORBIT_GATEWAY_TRUST_PROXY'' = ''''"
    by (simp_all add: demo_env_def env_of_def)
  then have read: "collectTokens demo_env = [''a'', ''b'']"
    "splitCSV (demo_env ''CLUSTERORBIT_GATEWAY_POLICY_REQUIRE_APPROVAL'') = [''cordon'']"
    "envBool demo_env ''CLUSTERORBIT_GATEWAY_POLICY_DISABLE_DRAIN'' = Inr True"
    "envBool demo_env ''CLUSTERORBIT_GATEWAY_TRUST_PROXY'' = Inr False"
    by (simp_all add: words collectTokens_def add_new_def envBool_def)
  have unset: "demo_env ''CLUSTERORBIT_GATEWAY_RATE_LIMIT_RPS'' = ''''" "demo_env ''CLUSTERORBIT_GATEWAY_RATE_LIMIT_BURST'' = ''''"
    "demo_env ''CLUSTERORBIT_GATEWAY_POLICY_MAX_REPLICAS'' = ''''" "demo_env ''CLUSTERORBIT_GATEWAY_POLICY_NAMESPACES'' = ''''"
    "demo_env ''CLUSTERORBIT_GATEWAY_POLICY_NODES'' = ''''" "demo_env ''CLUSTERORBIT_GATEWAY_POLICY_PROTECTED_NODES'' = ''''"
    "demo_env ''CLUSTERORBIT_GATEWAY_POLICY_APPROVAL_TTL'' = ''''" "demo_env ''CLUSTERORBIT_GATEWAY_TLS_CERT'' = ''''"
    "demo_env ''CLUSTERORBIT_GATEWAY_TLS_KEY'' = ''''" "demo_env ''CLUSTERORBIT_GATEWAY_AUDIT_LOG'' = ''''"
    by (simp_all add: demo_env_def env_of_def)
  have gated: "gated_ops demo_env = {OpCordon}" by (simp add: gated_ops_def read words)
  have limiter: "buildLimiter demo_env = Inr None"
    by (simp add: buildLimiter_def envFloat_def unset words NewRateLimiter_def)
  have scale: "buildScalePolicy demo_env = Inr (None, ''off'')"
    by (simp add: buildScalePolicy_def envInt_def unset words Let_def)
  obtain label where node: "buildNodePolicy demo_env
      = Inr (Some \<lparr>AllowedNodes = [], ProtectedNodes = [], DisableDrain = True\<rparr>, label)"
    by (simp add: buildNodePolicy_def read(3) unset words Let_def)
  obtain label' where gate: "buildApprovalPolicy demo_env [''a'', ''b'']
      = Inr (Some (NewApprovalStore (15 * Minute) [OpCordon]), label')"
    by (simp add: buildApprovalPolicy_def read(2) words unset Let_def)
  have sink: "buildAuditSink demo_platform demo_env = (AuditStdout, ''stdout'')"
    by (simp add: buildAuditSink_def unset words)
  have tls: "buildTLS demo_platform demo_env = Inr (None, ''off'')" by (simp add: buildTLS_def unset)
  obtain backend label'' where backend:
    "buildBackend demo_platform demo_env (envOrDefault demo_env ''CLUSTERORBIT_GATEWAY_MODE'' ''sample'') = (backend, label'')"
    by fastforce
  show ?thesis
    by (rule that [OF _ _ _ _ _ _ _ _ gated],
        simp add: startup_def read(1,4) limiter scale node gate sink tls backend Let_def) simp_all
qed

theorem configured_controls_are_on_witness:
  "\<exists>g. startup demo_platform demo_env = Inr g \<and> distinct (gw_Tokens g) \<and> gw_Tokens g = [''a'', ''b'']
    \<and> Requires (gw_Approvals g) OpDrain \<and> \<not> Requires (gw_Approvals g) OpScale
    \<and> EvaluateDrain (gw_NodePolicy g) ''n1'' \<noteq> ''''"
proof -
  obtain g where g: "startup demo_platform demo_env = Inr g" "gw_Tokens g = [''a'', ''b'']" "gated_ops demo_env = {OpCordon}"
    "gw_NodePolicy g = Some \<lparr>AllowedNodes = [], ProtectedNodes = [], DisableDrain = True\<rparr>"
    by (rule demo_starts)
  from configured_controls_are_on [OF g(1)] g show ?thesis by (auto simp: ops_distinct EvaluateDrain_def)
qed

subsection \<open>The backend that serves\<close>

lemma Len_zero:
  assumes "NewMultiClusterBackend new_backend clusters = (m, errs)"
  shows "Len m = 0 \<longleftrightarrow> (\<forall>c \<in> set clusters. \<exists>e. new_backend c = Inl e)"
proof -
  have "mb_backends m = [] \<longleftrightarrow> mb_backends m0 = [] \<and> (\<forall>c \<in> set clusters. \<exists>e. new_backend c = Inl e)"
    if "fold (register new_backend) clusters (m0, errs0) = (m, errs)" for m0 errs0
    using that
  proof (induction clusters arbitrary: m0 errs0)
    case (Cons c clusters)
    obtain m1 errs1 where reg: "register new_backend c (m0, errs0) = (m1, errs1)" by fastforce
    then have "mb_backends m1 = [] \<longleftrightarrow> mb_backends m0 = [] \<and> (\<exists>e. new_backend c = Inl e)"
      by (cases "new_backend c") (auto simp: register_def Let_def update_fresh split: if_splits)
    with Cons.IH [of m1 errs1] Cons.prems reg show ?case by auto
  qed auto
  from this [of "\<lparr>mb_backends = [], mb_profiles = []\<rparr>" "[]"] assms show ?thesis
    by (simp add: NewMultiClusterBackend_def Len_def)
qed

text \<open>C27: the gateway serves what its banner says. The label starts with \<open>sample\<close> exactly when fixture data is
  served; that happens when the mode is not \<open>kube\<close>, when there is no readable kubeconfig, when the
  pinned context does not resolve to a backend, or when, without one, no context of the kubeconfig does; a
  pinned context serves the backend of the cluster it resolves to; otherwise all contexts that
  give a backend are served, with their number in the label, and at least one.\<close>

theorem backend_is_as_labelled:
  "(case buildBackend os env mode of
      (ChoseSample, label) \<Rightarrow> HasPrefix label ''sample''
        \<and> (mode \<noteq> ''kube'' \<or> ResolvePath (os_GOOS os) env = ''''
           \<or> (case LoadFile (os_ReadFile os) (yaml_Unmarshal os) (ResolvePath (os_GOOS os) env) of
                Inl _ \<Rightarrow> True
              | Inr doc \<Rightarrow>
                  if TrimSpace (env EnvVarContext) \<noteq> '''' then
                    (case Resolve (os_ReadFile os) (Some doc) (TrimSpace (env EnvVarContext)) of
                       Inl _ \<Rightarrow> True | Inr c \<Rightarrow> \<exists>e. new_KubeBackend os (Some c) = Inl e)
                  else (\<forall>c \<in> set (fst (ResolveAll (os_ReadFile os) (Some doc))). \<exists>e. new_KubeBackend os (Some c) = Inl e)))
    | (ChoseKube kb, label) \<Rightarrow> mode = ''kube'' \<and> HasPrefix label ''kube (''
        \<and> (\<exists>doc c. LoadFile (os_ReadFile os) (yaml_Unmarshal os) (ResolvePath (os_GOOS os) env) = Inr doc
            \<and> Resolve (os_ReadFile os) (Some doc) (TrimSpace (env EnvVarContext)) = Inr c
            \<and> new_KubeBackend os (Some c) = Inr kb)
    | (ChoseMulti m, label) \<Rightarrow> mode = ''kube'' \<and> TrimSpace (env EnvVarContext) = '''' \<and> 0 < Len m
        \<and> label = ''kube-multi ('' @ show_int (int (Len m)) @ '' clusters)''
        \<and> (\<exists>doc. LoadFile (os_ReadFile os) (yaml_Unmarshal os) (ResolvePath (os_GOOS os) env) = Inr doc
            \<and> m = fst (NewMultiClusterBackend (new_KubeBackend os) (map Some (fst (ResolveAll (os_ReadFile os) (Some doc)))))))"
proof -
  have none: "\<forall>c \<in> set cs. \<exists>e. new_KubeBackend os (Some c) = Inl e"
    if "NewMultiClusterBackend (new_KubeBackend os) (map Some cs) = (m, errs)" "Len m = 0" for m errs cs
    using Len_zero [OF that(1)] that(2) by simp
  show ?thesis
    by (auto simp: buildBackend_def Let_def HasPrefix_def dest: none split: sum.splits prod.splits)
qed

text \<open>A kubeconfig of two contexts, of which one names a cluster that is not there.\<close>

definition lab_platform :: "(string \<times> string) list platform" where
  "lab_platform = demo_platform\<lparr>os_ReadFile := demo_file(''/etc/kube/config'' := Inr ''yaml''),
     yaml_Unmarshal := \<lambda>_. Inr \<lparr>raw_CurrentContext = ''lab'', raw_Contexts = doc_Contexts demo_doc,
       raw_Clusters = [\<lparr>rw_Name = ''k3s'', rw_Server = ''https://10.0.0.1:6443'', rw_CertificateAuthority = '''',
         rw_CertificateAuthorityData = '''', rw_InsecureSkipTLSVerify = False\<rparr>],
       raw_Users = [\<lparr>ru_Name = ''ops'', ru_Token = ''abc'', ru_TokenFile = '''', ru_ClientCertificate = ''ops.crt'',
         ru_ClientCertificateData = '''', ru_ClientKey = ''/etc/ops.key'', ru_ClientKeyData = '''', ru_Exec = True,
         ru_AuthProvider = False\<rparr>]\<rparr>\<rparr>"

definition lab_env :: "string \<Rightarrow> string" where
  "lab_env = env_of [(EnvVarKubeconfig, ''/etc/kube/config'')]"

lemma lab_kubeconfig:
  "LoadFile (os_ReadFile lab_platform) (yaml_Unmarshal lab_platform) ''/etc/kube/config'' = Inr demo_doc"
  "fst (ResolveAll (os_ReadFile lab_platform) (Some demo_doc)) = [demo_cluster]"
proof -
  have "Dir ''/etc/kube/config'' = ''/etc/kube''" by code_simp
  then show "LoadFile (os_ReadFile lab_platform) (yaml_Unmarshal lab_platform) ''/etc/kube/config'' = Inr demo_doc"
    by (simp add: LoadFile_def ParseDocument_def lab_platform_def demo_doc_def decodeBase64_def)
  have "readRef (os_ReadFile lab_platform) demo_doc ''ops.crt'' = Inr ''cert''"
    "readRef (os_ReadFile lab_platform) demo_doc ''/etc/ops.key'' = Inr ''key''" by code_simp+
  then show "fst (ResolveAll (os_ReadFile lab_platform) (Some demo_doc)) = [demo_cluster]"
    by (simp add: ResolveAll_def Resolve_def demo_doc_def demo_cluster_def inline_or_file_def resolveUser_def Let_def)
qed

theorem backend_is_as_labelled_witness:
  "\<exists>m. buildBackend lab_platform lab_env ''kube'' = (ChoseMulti m, ''kube-multi (1 clusters)'') \<and> 0 < Len m"
proof -
  have env: "lab_env EnvVarKubeconfig = ''/etc/kube/config''" "lab_env EnvVarContext = ''''"
    "ResolvePath goos lab_env = ''/etc/kube/config''" for goos
    by (simp_all add: lab_env_def env_of_def EnvVarKubeconfig_def EnvVarContext_def ResolvePath_def)
  obtain m errs where m: "NewMultiClusterBackend (new_KubeBackend lab_platform) [Some demo_cluster] = (m, errs)"
    by fastforce
  then have len: "Len m = 1"
    by (auto simp: NewMultiClusterBackend_def register_def Let_def lab_platform_def demo_platform_def Len_def)
  have "show_int 1 = ''1''" by code_simp
  then have "buildBackend lab_platform lab_env ''kube'' = (ChoseMulti m, ''kube-multi (1 clusters)'')"
    using lab_kubeconfig m len
    by (cases "ResolveAll (os_ReadFile lab_platform) (Some demo_doc)")
      (simp add: buildBackend_def env Let_def trims_nothing)
  with backend_is_as_labelled [where os = lab_platform and env = lab_env and mode = "''kube''"] show ?thesis by auto
qed

end
