(* ===== verification/Enforcement.thy ===== *)
theory Enforcement
  imports Command
begin

text \<open>
  What a gateway that was configured from its environment enforces for as long as it runs: from the environment
  variables through the policies and the approval store to the calls its backend receives. \<open>serving\<close> are the
  states that a server reaches by any sequence of requests, one after the other. Its mutations either conform to the
  policy directly or were parked when they did; for the latter, the store keeps what it captured.
\<close>

subsection \<open>What the store keeps of parked mutations\<close>

lemma update_subset: "set (AList.update k v m) \<subseteq> insert (k, v) (set m)"
  by (induction m) auto

definition stored :: "(pending_request \<Rightarrow> bool) \<Rightarrow> approval_store \<Rightarrow> bool" where
  "stored P a \<longleftrightarrow> (\<forall>(k, p) \<in> set (reqs a). P p)"

lemma stored_lookup: "stored P a \<Longrightarrow> map_of (reqs a) k = Some p \<Longrightarrow> P p"
  by (auto simp: stored_def dest!: map_of_SomeD)

lemma stored_update: "stored P a \<Longrightarrow> P q \<Longrightarrow> stored P (a\<lparr>reqs := AList.update k q (reqs a)\<rparr>)"
  using update_subset [of k q "reqs a"] by (auto simp: stored_def)

text \<open>The operations that require approval are those of \<open>gates\<close>, and the store's requests have the property.\<close>

definition upholds :: "(pending_request \<Rightarrow> bool) \<Rightarrow> string list option \<Rightarrow> 'w state \<Rightarrow> bool" where
  "upholds P gates st \<longleftrightarrow> map_option ops (st_Approvals st) = gates
     \<and> (case st_Approvals st of None \<Rightarrow> True | Some a \<Rightarrow> stored P a)"

lemma upholds_cong: "st_Approvals st' = st_Approvals st \<Longrightarrow> upholds P gates st' = upholds P gates st"
  by (simp add: upholds_def)

lemma upholds_simps [simp]:
  "upholds P gates (audit s ora r e st) = upholds P gates st"
  "upholds P gates (st\<lparr>st_World := w\<rparr>) = upholds P gates st"
  "upholds P gates (st\<lparr>st_Approvals := Some a\<rparr>) = (gates = Some (ops a) \<and> stored P a)"
  by (auto simp: upholds_def)

lemma ops_of_store [simp]:
  "ops (sweepLocked now clk a) = ops a"
  "ops (snd (Park clk k op c t n who a)) = ops a"
  "ops (snd (List_for clk c a)) = ops a"
  "ops (snd (Get clk k a)) = ops a"
  "ops (snd (Approve clk k who a)) = ops a"
  "ops (snd (Reject clk k why a)) = ops a"
  "ops (snd (Complete clk k result why a)) = ops a"
  by (simp_all add: sweepLocked_def Park_def List_for_def Get_def Approve_def Reject_def Complete_def Let_def
      split: option.split)

text \<open>A property of what a parked request captured, kept by every operation on the store.\<close>

locale captured_property =
  fixes P :: "pending_request \<Rightarrow> bool"
  assumes by_mutation: "same_mutation p q \<Longrightarrow> P p \<Longrightarrow> P q"
begin

lemma expired: "P p \<Longrightarrow> P (expireLocked t1 t2 p)"
  using by_mutation [of p "expireLocked t1 t2 p"] expire_evolves [of p t1 t2] by (simp add: evolves_def)

lemma moved: "P p \<Longrightarrow> P (p\<lparr>pr_Phase := ph\<rparr>)" "P p \<Longrightarrow> P (p\<lparr>pr_UpdatedAt := t\<rparr>)" "P p \<Longrightarrow> P (p\<lparr>pr_Approver := x\<rparr>)"
  "P p \<Longrightarrow> P (p\<lparr>pr_Reason := x\<rparr>)" "P p \<Longrightarrow> P (p\<lparr>pr_ResultID := x\<rparr>)"
  by (auto intro: by_mutation [of p] simp: same_mutation_def)

lemma stored_sweep_loop: "(\<forall>(k, p) \<in> set m. P p) \<Longrightarrow> (\<forall>(k, p) \<in> set (sweep_loop c clk m). P p)"
  by (induction c clk m rule: sweep_loop.induct) (auto simp: Let_def expired)

lemma stored_sweep: "stored P a \<Longrightarrow> stored P (sweepLocked now clk a)"
  using stored_sweep_loop by (simp add: stored_def sweepLocked_def Let_def)

lemma stored_Park:
  "stored P a \<Longrightarrow> P (fst (Park clk k op c t n who a)) \<Longrightarrow> stored P (snd (Park clk k op c t n who a))"
  by (simp add: Park_def Let_def stored_update stored_sweep)

lemma stored_List: "stored P a \<Longrightarrow> stored P (snd (List_for clk c a))"
  by (simp add: List_for_def Let_def stored_sweep)

lemma stored_Get: "stored P a \<Longrightarrow> stored P (snd (Get clk k a))"
  by (auto simp: Get_def Let_def intro!: stored_update expired dest: stored_lookup split: option.split)

lemma stored_Approve: "stored P a \<Longrightarrow> stored P (snd (Approve clk k who a))"
  by (auto simp: Approve_def Let_def intro!: stored_update expired moved dest: stored_lookup split: option.split)

lemma stored_Reject: "stored P a \<Longrightarrow> stored P (snd (Reject clk k why a))"
  by (auto simp: Reject_def Let_def intro!: stored_update expired moved dest: stored_lookup split: option.split)

lemma stored_Complete: "stored P a \<Longrightarrow> stored P (snd (Complete clk k result why a))"
  by (auto simp: Complete_def Let_def intro!: stored_update moved dest: stored_lookup split: option.split)

lemma store_results:
  "Get clk k a = (x, a') \<Longrightarrow> ops a' = ops a \<and> (stored P a \<longrightarrow> stored P a')"
  "List_for clk c a = (xs, a') \<Longrightarrow> ops a' = ops a \<and> (stored P a \<longrightarrow> stored P a')"
  "Approve clk k who a = (y, a') \<Longrightarrow> ops a' = ops a \<and> (stored P a \<longrightarrow> stored P a')"
  "Reject clk k why a = (y, a') \<Longrightarrow> ops a' = ops a \<and> (stored P a \<longrightarrow> stored P a')"
  "Complete clk k result why a = (y, a') \<Longrightarrow> ops a' = ops a \<and> (stored P a \<longrightarrow> stored P a')"
  using stored_Get [of a clk k] ops_of_store(4) [of clk k a] stored_List [of a clk c] ops_of_store(3) [of clk c a]
    stored_Approve [of a clk k who] ops_of_store(5) [of clk k who a] stored_Reject [of a clk k why]
    ops_of_store(6) [of clk k why a] stored_Complete [of a clk k result why] ops_of_store(7) [of clk k result why a]
  by (simp_all del: ops_of_store)

text \<open>The handlers that park nothing.\<close>

lemma upholds_finish:
  "upholds P gates st \<Longrightarrow> upholds P gates (snd (finish_approval s rid q ora r st))"
  by (auto simp: finish_approval_def Let_def upholds_def dest!: store_results split: prod.splits sum.splits option.splits)

lemma upholds_Approve:
  "upholds P gates st \<Longrightarrow> upholds P gates (snd (handleApprove s c rid ora r st))"
  by (auto simp: handleApprove_def Let_def dest!: store_results intro!: upholds_finish
      split: prod.split sum.split option.split) (auto simp: upholds_def)

lemma upholds_Reject:
  "upholds P gates st \<Longrightarrow> upholds P gates (snd (handleReject s c rid ora r st))"
  by (auto simp: handleReject_def Let_def dest!: store_results split: prod.split sum.split option.split)
    (auto simp: upholds_def)

lemma upholds_read:
  assumes "upholds P gates st"
  shows "upholds P gates (snd (handleRead s c sub ora r st))"
proof -
  have "upholds P gates (snd (handleGetApproval c rid ora r st))" for rid
    using assms
    by (auto simp: handleGetApproval_def Let_def upholds_def dest!: store_results split: prod.splits option.splits)
  moreover have "upholds P gates (snd (handleListApprovals c ora r st))"
    using assms by (auto simp: handleListApprovals_def Let_def upholds_def dest!: store_results split: prod.splits option.splits)
  moreover have "upholds P gates (snd (handleDrainStatus s c n j ora r st))"
    "upholds P gates (snd (handleSnapshot s c ora r st))" "upholds P gates (snd (handleEvents s c ora r st))" for n j
    using assms
    by (auto simp: handleDrainStatus_def handleSnapshot_def handleEvents_def Let_def split: prod.splits sum.splits)
  ultimately show ?thesis using assms by (auto simp: handleRead_def Let_def split: option.splits prod.splits)
qed

end

subsection \<open>Mutations within the policy\<close>

text \<open>The policies of the server let the mutation pass.\<close>

fun conforms :: "'w server \<Rightarrow> mutation_call \<Rightarrow> bool" where
  "conforms s (CallScale c t n) \<longleftrightarrow> (case ParseWorkloadID t of Inl _ \<Rightarrow> False
     | Inr (_, ns, _) \<Rightarrow> 0 \<le> n \<and> Evaluate (srv_ScalePolicy s) ns n = '''')"
| "conforms s (CallRestart c t) \<longleftrightarrow> admits_restart s t"
| "conforms s (CallCordon c t u) \<longleftrightarrow> admits_cordon s t u"
| "conforms s (CallDrain c t) \<longleftrightarrow> admits_drain s t"

definition conforming :: "'w server \<Rightarrow> pending_request \<Rightarrow> bool" where
  "conforming s p \<longleftrightarrow> (case captured_call p of None \<Rightarrow> True | Some call \<Rightarrow> conforms s call)"

interpretation captured: captured_property "conforming s" for s
  by unfold_locales (simp add: conforming_def captured_call_same)

lemma inline_conforms: "inline_allowed s a r call \<Longrightarrow> conforms s call"
  by (cases call) (auto elim!: admits_scale_cases simp: body_replicas_def)

lemma parked_fields:
  "captured_call (fst (Park clk k op c t n who a)) =
     (if op = OpScale then map_option (CallScale c t) n else if op = OpRestart then Some (CallRestart c t)
      else if op = OpCordon then Some (CallCordon c t True) else if op = OpDrain then Some (CallDrain c t) else None)"
  by (simp add: Park_def captured_call_def Let_def)

lemma upholds_parked:
  assumes "upholds (conforming s) gates st"
    and "st_Approvals st' = (if parks then Some (snd (Park clk k op c t n who (the (st_Approvals st)))) else st_Approvals st)"
    and "parks \<Longrightarrow> Requires (st_Approvals st) op"
    and "\<And>a. parks \<Longrightarrow> conforming s (fst (Park clk k op c t n who a))"
  shows "upholds (conforming s) gates st'"
proof (cases parks)
  case True
  then obtain a where "st_Approvals st = Some a"
    using assms(3) by (auto simp: Requires_def split: option.splits)
  with True assms(1,2,4) show ?thesis by (auto simp: upholds_def intro: captured.stored_Park)
qed (use assms(1,2) upholds_cong in auto)

lemma upholds_mutation:
  assumes "upholds (conforming s) gates st"
  shows "upholds (conforming s) gates (snd (handleScale s c t ora r st))"
    and "upholds (conforming s) gates (snd (handleRestart s c t ora r st))"
    and "upholds (conforming s) gates (snd (handleCordon s c t u ora r st))"
    and "upholds (conforming s) gates (snd (handleStartDrain s c t ora r st))"
proof -
  note ops = ops_distinct ops_distinct [symmetric]
  show "upholds (conforming s) gates (snd (handleScale s c t ora r st))"
    by (rule upholds_parked [OF assms scale.approvals_after_run])
      (auto elim!: admits_scale_cases simp: conforming_def parked_fields body_replicas_def)
  show "upholds (conforming s) gates (snd (handleRestart s c t ora r st))"
    by (rule upholds_parked [OF assms restart.approvals_after_run]) (auto simp: conforming_def parked_fields ops)
  show "upholds (conforming s) gates (snd (handleCordon s c t u ora r st))"
    by (rule upholds_parked [OF assms cordon.approvals_after_run]) (auto simp: conforming_def parked_fields ops)
  show "upholds (conforming s) gates (snd (handleStartDrain s c t ora r st))"
    by (rule upholds_parked [OF assms drain.approvals_after_run]) (auto simp: conforming_def parked_fields ops)
qed

lemma upholds_scoped:
  "upholds (conforming s) gates st \<Longrightarrow> upholds (conforming s) gates (snd (handleClusterScoped s ora r st))"
  by (simp add: handleClusterScoped_def handleMutation_def handleWorkloadMutation_def handleNodeMutation_def
      handleApprovalAction_def Let_def upholds_mutation captured.upholds_Approve captured.upholds_Reject
      captured.upholds_read split: prod.splits option.splits)

lemma upholds_Handler:
  assumes "upholds (conforming s) gates st"
  shows "upholds (conforming s) gates (snd (Handler s ora r st))"
proof -
  have root: "upholds (conforming s) gates (snd (handleRoot s ora r st'))" if "upholds (conforming s) gates st'" for st'
    using that by (auto simp: handleRoot_def Let_def split: prod.splits sum.splits)
  have "upholds (conforming s) gates (snd (authMiddleware s next ora r st))"
    if "\<And>st'. upholds (conforming s) gates st' \<Longrightarrow> upholds (conforming s) gates (snd (next ora r st'))" for "next"
  proof (cases rule: authMiddleware_cases [of s r ora st "next"])
    case (served st')
    with that [of st'] assms show ?thesis using upholds_cong [of st' st] by simp
  qed (use assms in \<open>simp_all add: upholds_def\<close>)
  with root upholds_scoped [of s] assms show ?thesis by (simp add: Handler_def split: route.split)
qed

subsection \<open>Serving requests\<close>

text \<open>The states after any sequence of requests, each with any readings of clock, random bytes and map order.\<close>

inductive serving :: "'w server \<Rightarrow> 'w state \<Rightarrow> 'w state \<Rightarrow> bool" for s :: "'w server" and st0 :: "'w state" where
  listening: "serving s st0 st0"
| request: "serving s st0 st \<Longrightarrow> serving s st0 (snd (Handler s ora r st))"

lemma serving_invariant:
  assumes "srv_Backend s = recorded b" and "serving s st0 st"
    and "upholds (conforming s) gates st0" and "\<forall>call \<in> set (call_log st0). conforms s call"
  shows "upholds (conforming s) gates st \<and> (\<forall>call \<in> set (call_log st). conforms s call)"
  using assms(2)
proof induction
  case listening
  with assms(3,4) show ?case by simp
next
  case (request st ora r)
  have "\<forall>call \<in> set (call_log (snd (Handler s ora r st))). conforms s call"
  proof (cases "call_log (snd (Handler s ora r st)) = call_log st")
    case False
    then obtain call where call: "call_log (snd (Handler s ora r st)) = call_log st @ [call]"
      "inline_allowed s (st_Approvals st) r call \<or> approval_allowed s ora r (st_Approvals st) call"
      using mutation_outcome(3) [OF assms(1) False] by (auto simp: outcome_ok_def)
    have "conforms s call" if approved: "approval_allowed s ora r (st_Approvals st) call"
    proof -
      obtain a k p where "st_Approvals st = Some a" "map_of (reqs a) k = Some p" "captured_call p = Some call"
        using approved by (auto simp: approval_allowed_def approvable_def)
      with request.IH have "conforming s p" by (auto simp: upholds_def intro: stored_lookup)
      with \<open>captured_call p = Some call\<close> show ?thesis by (simp add: conforming_def)
    qed
    with call inline_conforms request.IH show ?thesis by auto
  qed (use request.IH in simp)
  with upholds_Handler request.IH show ?case by blast
qed

subsection \<open>From the environment to the backend\<close>

text \<open>What the environment variables say of a mutation.\<close>

definition namespace_allowed :: "(string \<Rightarrow> string) \<Rightarrow> string \<Rightarrow> bool" where
  "namespace_allowed env t = (case ParseWorkloadID t of Inl _ \<Rightarrow> False
     | Inr (_, ns, _) \<Rightarrow> in_list ns (splitCSV (env ''CLUSTERORBIT_GATEWAY_POLICY_NAMESPACES'')))"

fun allowed_by :: "(string \<Rightarrow> string) \<Rightarrow> mutation_call \<Rightarrow> bool" where
  "allowed_by env (CallScale c t n) \<longleftrightarrow> namespace_allowed env t \<and> 0 \<le> n
     \<and> (case envInt env ''CLUSTERORBIT_GATEWAY_POLICY_MAX_REPLICAS'' of Inl _ \<Rightarrow> False | Inr m \<Rightarrow> m = 0 \<or> n \<le> m)"
| "allowed_by env (CallRestart c t) \<longleftrightarrow> namespace_allowed env t"
| "allowed_by env (CallCordon c t u) \<longleftrightarrow> ValidateNodeID t = Inr () \<and> (u \<longrightarrow> node_allowed env t)"
| "allowed_by env (CallDrain c t) \<longleftrightarrow> ValidateNodeID t = Inr () \<and> node_allowed env t
     \<and> envBool env ''CLUSTERORBIT_GATEWAY_POLICY_DISABLE_DRAIN'' = Inr False"

fun needs_approval :: "(string \<Rightarrow> string) \<Rightarrow> mutation_call \<Rightarrow> bool" where
  "needs_approval env (CallScale c t n) \<longleftrightarrow> OpScale \<in> gated_ops env"
| "needs_approval env (CallRestart c t) \<longleftrightarrow> OpRestart \<in> gated_ops env"
| "needs_approval env (CallCordon c t u) \<longleftrightarrow> u \<and> OpCordon \<in> gated_ops env"
| "needs_approval env (CallDrain c t) \<longleftrightarrow> OpDrain \<in> gated_ops env \<or> OpCordon \<in> gated_ops env"

lemma ValidateNodeID_named: "ValidateNodeID n = Inr u \<Longrightarrow> n \<noteq> ''''"
  by (auto simp: ValidateNodeID_def dest: isDNS1123Subdomain_nonempty split: if_splits)

lemma conforms_allowed:
  assumes "startup os env = Inr g" and "conforms (gateway_server g Sum256 b) call"
  shows "allowed_by env call"
proof -
  obtain a c where policies: "buildScalePolicy env = Inr (gw_ScalePolicy g, a)" "buildNodePolicy env = Inr (gw_NodePolicy g, c)"
    by (rule startup_Inr [OF assms(1)])
  have server: "srv_ScalePolicy (gateway_server g Sum256 b) = gw_ScalePolicy g"
    "srv_NodePolicy (gateway_server g Sum256 b) = gw_NodePolicy g"
    by (simp_all add: gateway_server_def)
  show ?thesis
    using assms(2)
    by (cases call) (auto simp: server namespace_allowed_def admits_restart_def admits_cordon_def admits_drain_def
        scale_policy_exact [OF policies(1)] node_policy_exact [OF policies(2)] ValidateNodeID_named split: sum.splits)
qed

lemma Requires_by_ops: "map_option ops a = map_option ops a' \<Longrightarrow> Requires a op = Requires a' op"
  by (cases a; cases a') (simp_all add: Requires_def)

lemma inline_needs_none:
  assumes "startup os env = Inr g" and "map_option ops a = map_option ops (gw_Approvals g)"
    and "inline_allowed s a r call"
  shows "\<not> needs_approval env call"
proof -
  obtain c where "buildApprovalPolicy env (gw_Tokens g) = Inr (gw_Approvals g, c)"
    by (rule startup_Inr [OF assms(1)])
  note gates = approvals_gated(2) [OF this, folded Requires_by_ops [OF assms(2)]]
  from assms(3) show ?thesis by (cases call) (auto simp: gates)
qed

lemma configured_start:
  assumes "startup os env = Inr g"
  shows "upholds (conforming s) (map_option ops (gw_Approvals g)) (gateway_state g w)"
proof -
  obtain c where c: "buildApprovalPolicy env (gw_Tokens g) = Inr (gw_Approvals g, c)"
    by (rule startup_Inr [OF assms])
  show ?thesis
    using approvals_gated(4) [OF c] by (cases "gw_Approvals g") (auto simp: upholds_def gateway_state_def stored_def)
qed

text \<open>C3: configuration is enforced, from the environment to the cluster, as long as the gateway runs. Whatever requests a
  gateway that started has served, every mutation its backend was ever asked for, directly or after an
  approval, is one that the policy variables allow. And whatever request comes next, it makes the
  backend mutate at most once, only with a configured token if there are any, and a mutation whose operation
  the environment names for approval only by a second person's approval of that very mutation.\<close>

theorem configuration_is_enforced:
  assumes "startup os env = Inr g" and "s = gateway_server g Sum256 (recorded b)"
    and "serving s (gateway_state g (w, [])) st"
  shows "(\<forall>call \<in> set (call_log st). allowed_by env call)
    \<and> (call_log (snd (Handler s ora r st)) = call_log st
      \<or> (\<exists>call. call_log (snd (Handler s ora r st)) = call_log st @ [call] \<and> allowed_by env call
          \<and> (gw_Tokens g = [] \<or> Header_Get r AuthHeader \<in> set (gw_Tokens g))
          \<and> (needs_approval env call \<longrightarrow> approval_allowed s ora r (st_Approvals st) call)))"
proof -
  have backend: "srv_Backend s = recorded b" and toks: "acceptedTokens s = gw_Tokens g"
    by (simp_all add: assms(2) gateway_server_def acceptedTokens_def)
  have all: "upholds (conforming s) (map_option ops (gw_Approvals g)) st' \<and> (\<forall>call \<in> set (call_log st'). allowed_by env call)"
    if "serving s (gateway_state g (w, [])) st'" for st'
    using serving_invariant [OF backend that configured_start [OF assms(1)]] conforms_allowed [OF assms(1)] assms(2)
    by (auto simp: gateway_state_def)
  note here = all [OF assms(3)] and after = all [OF serving.request [OF assms(3)], of ora r]
  show ?thesis
  proof (cases "call_log (snd (Handler s ora r st)) = call_log st")
    case False
    then obtain call where call: "call_log (snd (Handler s ora r st)) = call_log st @ [call]"
      "inline_allowed s (st_Approvals st) r call \<or> approval_allowed s ora r (st_Approvals st) call"
      using mutation_outcome(3) [OF backend False] by (auto simp: outcome_ok_def)
    have "map_option ops (st_Approvals st) = map_option ops (gw_Approvals g)" using here by (simp add: upholds_def)
    then have "needs_approval env call \<longrightarrow> approval_allowed s ora r (st_Approvals st) call"
      using inline_needs_none [OF assms(1)] call(2) by blast
    moreover have "gw_Tokens g = [] \<or> Header_Get r AuthHeader \<in> set (gw_Tokens g)"
      using mutation_outcome(1) [OF backend False] by (auto simp: authenticated_def toks)
    ultimately show ?thesis using here after call(1) by auto
  qed (use here in simp)
qed

text \<open>Alice's cordon is parked, and Bob's approval performs it.\<close>

definition enforced_server :: "(time \<times> mutation_call list) server" where
  "enforced_server = \<lparr>srv_Backend = recorded SampleBackend, srv_Tokens = [''a'', ''b''], srv_Token = '''',
     srv_TrustForwardedFor = False, srv_AuditSink = True, srv_ScalePolicy = None,
     srv_NodePolicy = Some \<lparr>AllowedNodes = [], ProtectedNodes = [], DisableDrain = True\<rparr>, srv_Sum256 = (\<lambda>s. s)\<rparr>"

definition enforced_state :: "(time \<times> mutation_call list) state" where
  "enforced_state = \<lparr>st_Limiter = None, st_Approvals = Some (NewApprovalStore (15 * Minute) [OpCordon]), st_Audit = [],
     st_World = (0, [])\<rparr>"

definition after_cordon :: "(time \<times> mutation_call list) state" where
  "after_cordon = snd (Handler enforced_server demo_readings
     (demo_request ''a'' ''POST'' ''/v1/clusters/c/nodes/n1/cordon'') enforced_state)"

definition approval_request :: request where
  "approval_request = demo_request ''b'' ''POST''
     (''/v1/clusters/c/approvals/'' @ randomApprovalID ''random12byte'' @ ''/approve'')"

lemma parked_first: "call_log after_cordon = []"
  unfolding after_cordon_def by code_simp

lemma approved_then:
  "call_log (snd (Handler enforced_server demo_readings approval_request after_cordon)) = [CallCordon ''c'' ''n1'' True]"
  unfolding after_cordon_def approval_request_def by code_simp

theorem configuration_is_enforced_witness:
  "\<exists>g. startup demo_platform demo_env = Inr g
    \<and> call_log (snd (Handler enforced_server demo_readings approval_request after_cordon)) = [CallCordon ''c'' ''n1'' True]
    \<and> allowed_by demo_env (CallCordon ''c'' ''n1'' True) \<and> needs_approval demo_env (CallCordon ''c'' ''n1'' True)
    \<and> approval_allowed enforced_server demo_readings approval_request (st_Approvals after_cordon) (CallCordon ''c'' ''n1'' True)"
proof -
  obtain g where g: "startup demo_platform demo_env = Inr g" "gw_Tokens g = [''a'', ''b'']" "gw_Limiter g = None"
    "gw_TrustForwardedFor g = False" "gw_ScalePolicy g = None"
    "gw_NodePolicy g = Some \<lparr>AllowedNodes = [], ProtectedNodes = [], DisableDrain = True\<rparr>"
    "gw_Approvals g = Some (NewApprovalStore (15 * Minute) [OpCordon])" "gw_Audit g = AuditStdout"
    "gated_ops demo_env = {OpCordon}"
    by (rule demo_starts)
  have server: "enforced_server = gateway_server g (\<lambda>s. s) (recorded SampleBackend)"
    by (simp add: enforced_server_def gateway_server_def g)
  have state: "enforced_state = gateway_state g (0, [])"
    by (simp add: enforced_state_def gateway_state_def g)
  have "serving enforced_server (gateway_state g (0, [])) after_cordon"
    unfolding after_cordon_def state by (rule serving.request [OF serving.listening])
  from configuration_is_enforced [OF g(1) server this, of demo_readings approval_request] show ?thesis
    using g(1,9) by (auto simp: parked_first approved_then)
qed

end
