(* ===== verification/Audit_Log.thy ===== *)
theory Audit_Log
  imports Server Json
begin

text \<open>
  \<open>jsonSink\<close> of \<open>cmd/clusterorbit-gateway/main.go\<close>: the audit log as text. Every entry is encoded by
  \<open>encoding/json\<close> with the tags of \<open>AuditEntry\<close> (\<open>api/handlers.go\<close>) and ends in a line break. The log can be read
  back line by line with the decoder of \<open>Json\<close>, whatever clients put into paths, names or error texts.
\<close>

subsection \<open>Strings\<close>

text \<open>\<open>encoding/json\<close> writes these characters as they are; \<open><\<close>, \<open>>\<close> and \<open>&\<close> are escaped for HTML.\<close>

definition html_safe :: "char \<Rightarrow> bool" where
  "html_safe c \<longleftrightarrow> 0x20 \<le> byte c \<and> byte c < 0x80 \<and> c \<notin> {CHR 0x22, CHR 0x5C, CHR 0x26, CHR 0x3C, CHR 0x3E}"

definition escape_ascii :: "char \<Rightarrow> string" where
  "escape_ascii c =
     (if html_safe c then [c]
      else if c \<in> {CHR 0x5C, CHR 0x22} then [CHR 0x5C, c]
      else if c = CHR 0x08 then [CHR 0x5C, CHR ''b'']
      else if c = CHR 0x0C then [CHR 0x5C, CHR ''f'']
      else if c = CHR 0x0A then [CHR 0x5C, CHR ''n'']
      else if c = CHR 0x0D then [CHR 0x5C, CHR ''r'']
      else if c = CHR 0x09 then [CHR 0x5C, CHR ''t'']
      else CHR 0x5C # ''u00'' @ hex_byte c)"

text \<open>An encoded rune: invalid bytes are replaced, and the line and paragraph separators escaped.\<close>

definition escape_rune :: "string \<Rightarrow> string" where
  "escape_rune r =
     (if r = [CHR 0xE2, CHR 0x80, CHR 0xA8] then CHR 0x5C # ''u2028''
      else if r = [CHR 0xE2, CHR 0x80, CHR 0xA9] then CHR 0x5C # ''u2029'' else r)"

function append_string :: "string \<Rightarrow> string" where
  "append_string [] = []"
| "append_string (c # cs) =
     (if byte c < 0x80 then escape_ascii c @ append_string cs
      else let n = rune_len (c # cs) in
        if n = 0 then (CHR 0x5C # ''ufffd'') @ append_string cs
        else escape_rune (take n (c # cs)) @ append_string (drop (n - 1) cs))"
  by pat_completeness auto
termination by (relation "measure length") auto

text \<open>What a reader sees of a string: its bytes, with those that are no part of an encoded rune replaced.\<close>

function to_valid :: "string \<Rightarrow> string" where
  "to_valid [] = []"
| "to_valid (c # cs) = (let n = rune_len (c # cs) in
     if n = 0 then rune_error @ to_valid cs else take n (c # cs) @ to_valid (drop (n - 1) cs))"
  by pat_completeness auto
termination by (relation "measure length") auto

declare append_string.simps(2) [simp del] to_valid.simps(2) [simp del]

lemma rune_len_ascii: "byte c < 0x80 \<Longrightarrow> rune_len (c # cs) = 1"
  by (simp add: rune_len_def)

lemma parse_string_ascii:
  assumes "0x20 \<le> byte c" "byte c < 0x80" "c \<noteq> CHR 0x22" "c \<noteq> CHR 0x5C"
  shows "parse_string (c # s) = map_option (apfst ((#) c)) (parse_string s)"
proof -
  have "(@) [c] = (#) c" by (simp add: fun_eq_iff)
  with assms show ?thesis by (simp add: rune_len_ascii parse_string.simps [of "c # s"])
qed

lemma parse_string_escape:
  "e \<noteq> CHR ''u'' \<Longrightarrow> parse_string (CHR 0x5C # e # s)
    = (case simple_escape e of None \<Rightarrow> None | Some t \<Rightarrow> map_option (apfst ((#) t)) (parse_string s))"
  "parse_string (CHR 0x5C # CHR ''u'' # s)
    = (case unicode_escape s of None \<Rightarrow> None | Some (t, n) \<Rightarrow> map_option (apfst ((@) t)) (parse_string (drop n s)))"
  by (simp_all add: parse_string.simps [of "CHR 0x5C # x" for x])

lemma hex_val_digit: "i < 16 \<Longrightarrow> hex_val (hex_digit i) = Some i"
  by (cases "i < 10") (simp_all add: hex_digit_def hex_val_def Let_def of_char_of take_bit_nat_eq_self)

lemma unicode_escape_byte:
  assumes "byte c < 0x80"
  shows "unicode_escape (''00'' @ hex_byte c @ s) = Some ([c], 4)"
proof -
  have "hex_val CHR ''0'' = Some 0" by (simp add: hex_val_def)
  moreover have "byte c div 16 * 16 + byte c mod 16 = byte c" by simp
  ultimately show ?thesis
    using assms by (simp add: unicode_escape_def hex4_def hex_byte_def hex_val_digit encode_rune_def)
qed

lemma unicode_escape_examples:
  "unicode_escape (''fffd'' @ s) = Some (rune_error, 4)"
  "unicode_escape (''2028'' @ s) = Some ([CHR 0xE2, CHR 0x80, CHR 0xA8], 4)"
  "unicode_escape (''2029'' @ s) = Some ([CHR 0xE2, CHR 0x80, CHR 0xA9], 4)"
proof -
  have "hex_val CHR ''f'' = Some 15" "hex_val CHR ''d'' = Some 13" "hex_val CHR ''2'' = Some 2" "hex_val CHR ''0'' = Some 0"
    "hex_val CHR ''8'' = Some 8" "hex_val CHR ''9'' = Some 9"
    by (simp_all add: hex_val_def)
  then have "hex4 (''fffd'' @ s) = Some 0xFFFD" "hex4 (''2028'' @ s) = Some 0x2028" "hex4 (''2029'' @ s) = Some 0x2029"
    by (simp_all add: hex4_def)
  moreover have "encode_rune 0xFFFD = rune_error" "encode_rune 0x2028 = [CHR 0xE2, CHR 0x80, CHR 0xA8]"
    "encode_rune 0x2029 = [CHR 0xE2, CHR 0x80, CHR 0xA9]"
    by (simp_all add: encode_rune_def rune_error_def char_of_eq_iff)
  ultimately show "unicode_escape (''fffd'' @ s) = Some (rune_error, 4)"
    "unicode_escape (''2028'' @ s) = Some ([CHR 0xE2, CHR 0x80, CHR 0xA8], 4)"
    "unicode_escape (''2029'' @ s) = Some ([CHR 0xE2, CHR 0x80, CHR 0xA9], 4)"
    by (simp_all add: unicode_escape_def)
qed

text \<open>Reading back one escaped character, and one rune.\<close>

lemma parse_escape_ascii:
  assumes "byte c < 0x80"
  shows "parse_string (escape_ascii c @ s) = map_option (apfst ((#) c)) (parse_string s)"
proof (cases "html_safe c")
  case True
  with parse_string_ascii [of c s] show ?thesis by (simp add: escape_ascii_def html_safe_def)
next
  case False
  have "(@) [c] = (#) c" by (simp add: fun_eq_iff)
  with False unicode_escape_byte [OF assms, of s] show ?thesis
    by (auto simp: escape_ascii_def parse_string_escape simple_escape_def hex_byte_def)
qed

text \<open>The length that the first byte of an encoding announces.\<close>

definition lead_len :: "nat \<Rightarrow> nat" where
  "lead_len b = (if b < 0x80 then 1 else if b < 0xC2 then 0 else if b < 0xE0 then 2
     else if b < 0xF0 then 3 else if b < 0xF5 then 4 else 0)"

lemma lead_len_1: "lead_len b = 1 \<longleftrightarrow> b < 0x80"
  by (simp add: lead_len_def)

lemma rune_len_Cons:
  "rune_len (c # cs) =
     (if lead_len (byte c) = 0 \<or> length cs < lead_len (byte c) - 1 then 0
      else if lead_len (byte c) = 1 then 1
      else if second_ok (byte c) (byte (hd cs)) \<and> list_all continuation (take (lead_len (byte c) - 2) (tl cs))
      then lead_len (byte c) else 0)"
  unfolding rune_len_def list.case Let_def lead_len_def [symmetric] by (rule refl)

lemma rune_len_multi:
  assumes "0x80 \<le> byte c" "rune_len (c # cs) = n" "0 < n"
  obtains d ds m where "cs = d # ds" "n = Suc (Suc m)" "m \<le> length ds" "second_ok (byte c) (byte d)"
    "list_all continuation (take m ds)" "lead_len (byte c) = n"
proof -
  have n: "lead_len (byte c) = n" "n - 1 \<le> length cs" "second_ok (byte c) (byte (hd cs))"
    "list_all continuation (take (n - 2) (tl cs))" "n \<noteq> 1"
    using assms lead_len_1 [of "byte c"] by (auto simp: rune_len_Cons split: if_splits)
  then obtain m where m: "n = Suc (Suc m)" using assms(3) by (cases n; cases "n - 1") auto
  with n(2) obtain d ds where "cs = d # ds" by (cases cs) auto
  with n m that show thesis by simp
qed

lemma rune_len_take:
  assumes "0x80 \<le> byte c" "rune_len (c # cs) = n" "0 < n"
  shows "n \<le> Suc (length cs)" and "rune_len (take n (c # cs) @ s) = n"
proof -
  obtain d ds m where m: "cs = d # ds" "n = Suc (Suc m)" "m \<le> length ds" "second_ok (byte c) (byte d)"
    "list_all continuation (take m ds)" "lead_len (byte c) = n"
    by (rule rune_len_multi [OF assms])
  then show "n \<le> Suc (length cs)" by simp
  show "rune_len (take n (c # cs) @ s) = n" using m by (simp add: rune_len_Cons)
qed

lemma parse_rune:
  assumes "0x80 \<le> byte c" "rune_len (c # cs) = n" "0 < n"
  shows "parse_string (escape_rune (take n (c # cs)) @ s) = map_option (apfst ((@) (take n (c # cs)))) (parse_string s)"
proof -
  obtain m where m: "n = Suc m" using assms(3) by (cases n) auto
  have c: "c \<noteq> CHR 0x22" "c \<noteq> CHR 0x5C" using assms(1) by auto
  have "parse_string (take n (c # cs) @ s) = map_option (apfst ((@) (take n (c # cs)))) (parse_string s)"
    using rune_len_take [OF assms] c assms(1) m
    by (simp add: parse_string.simps [of "c # take m cs @ s"])
  then show ?thesis
    using unicode_escape_examples(2,3) [of s] by (simp add: escape_rune_def parse_string_escape)
qed

lemma parse_append_string: "parse_string (append_string s @ CHR 0x22 # r) = Some (to_valid s, r)"
proof (induction s rule: append_string.induct)
  case (2 c cs)
  show ?case
  proof (cases "byte c < 0x80")
    case True
    with 2 show ?thesis by (simp add: append_string.simps(2) to_valid.simps(2) parse_escape_ascii rune_len_ascii)
  next
    case False
    with 2 parse_rune [of c cs "rune_len (c # cs)"] unicode_escape_examples(1) show ?thesis
      by (simp add: append_string.simps(2) to_valid.simps(2) Let_def parse_string_escape)
  qed
qed (simp add: parse_string_quote)

text \<open>No escaped text has a control character.\<close>

lemma rune_bytes:
  assumes "0x80 \<le> byte c" "x \<in> set (take (rune_len (c # cs)) (c # cs))"
  shows "0x80 \<le> byte x"
proof -
  have "0 < rune_len (c # cs)" using assms(2) by (cases "rune_len (c # cs)") auto
  then obtain d ds m where m: "cs = d # ds" "rune_len (c # cs) = Suc (Suc m)" "second_ok (byte c) (byte d)"
    "list_all continuation (take m ds)"
    by (rule rune_len_multi [OF assms(1) refl])
  have "0x80 \<le> byte d" using m(3) by (simp add: second_ok_def Let_def split: if_splits)
  moreover have "0x80 \<le> byte y" if "continuation y" for y
    using that by (simp add: continuation_def)
  ultimately show ?thesis using assms m by (auto simp: list_all_iff)
qed

lemma escape_ascii_printable:
  assumes "byte c < 0x80" "x \<in> set (escape_ascii c)"
  shows "0x20 \<le> byte x"
proof -
  have "0x20 \<le> byte (hex_digit i)" if "i < 16" for i
    using that by (simp add: hex_digit_def of_char_of take_bit_nat_eq_self)
  then have "0x20 \<le> byte y" if "y \<in> set (hex_byte c)" for y
    using that assms(1) by (auto simp: hex_byte_def)
  moreover have "x \<in> set (hex_byte c) \<or> x \<in> set ''bfnrtu0'' \<or> x \<in> {CHR 0x5C, CHR 0x22} \<or> x = c \<and> html_safe c"
    using assms(2) by (simp add: escape_ascii_def split: if_splits) blast+
  moreover have "\<forall>x \<in> set (CHR 0x5C # CHR 0x22 # ''bfnrtu0''). 0x20 \<le> byte x" by simp
  ultimately show ?thesis by (auto simp: html_safe_def)
qed

lemma append_string_printable: "x \<in> set (append_string s) \<Longrightarrow> 0x20 \<le> byte x"
proof (induction s rule: append_string.induct)
  case (2 c cs)
  show ?case
  proof (cases "byte c < 0x80")
    case True
    with 2 escape_ascii_printable show ?thesis by (auto simp: append_string.simps(2))
  next
    case False
    then have "0x20 \<le> byte y" if "y \<in> set (escape_rune (take (rune_len (c # cs)) (c # cs)))" for y
      using that rune_bytes [of c y cs] by (auto simp: escape_rune_def split: if_splits)
    with 2 False show ?thesis by (auto simp: append_string.simps(2) Let_def split: if_splits)
  qed
qed simp

subsection \<open>Entries\<close>

datatype field = FString string | FInt int

fun field_text :: "field \<Rightarrow> string" where
  "field_text (FString s) = CHR 0x22 # append_string s @ [CHR 0x22]"
| "field_text (FInt i) = show_int i"

definition omitempty :: "string \<Rightarrow> string \<Rightarrow> (string \<times> field) list" where
  "omitempty name s = (if s = '''' then [] else [(name, FString s)])"

text \<open>The fields of \<open>AuditEntry\<close>, with the names and the \<open>omitempty\<close> of their tags.\<close>

definition entry_fields :: "audit_entry \<Rightarrow> (string \<times> field) list" where
  "entry_fields e =
     [(''timestamp'', FString (audit_Timestamp e)), (''identity'', FString (audit_Identity e)),
      (''method'', FString (audit_Method e)), (''path'', FString (audit_Path e))]
     @ omitempty ''clusterId'' (audit_ClusterID e) @ omitempty ''workloadId'' (audit_WorkloadID e)
     @ (case audit_Replicas e of None \<Rightarrow> [] | Some n \<Rightarrow> [(''replicas'', FInt n)])
     @ [(''status'', FInt (audit_Status e))]
     @ omitempty ''error'' (audit_Error e) @ omitempty ''approvalId'' (audit_ApprovalID e)"

definition member_text :: "string \<times> field \<Rightarrow> string" where
  "member_text m = CHR 0x22 # fst m @ [CHR 0x22, CHR '':''] @ field_text (snd m)"

definition encode_entry :: "audit_entry \<Rightarrow> string" where
  "encode_entry e = ''{'' @ Join (map member_text (entry_fields e)) '','' @ ''}''"

text \<open>
  \<open>jsonSink\<close>: what has been written, after one more entry. The mutex makes an entry one write; write errors
  are ignored by the code and do not happen here.
\<close>

definition jsonSink :: "string \<Rightarrow> audit_entry \<Rightarrow> string" where
  "jsonSink written e = written @ encode_entry e @ [CHR 0x0A]"

subsection \<open>Reading the log\<close>

definition js_string :: "string \<Rightarrow> (string \<times> js) list \<Rightarrow> string" where
  "js_string name ms = (case map_of ms name of Some (JsString s) \<Rightarrow> s | _ \<Rightarrow> '''')"

definition js_int :: "string \<Rightarrow> (string \<times> js) list \<Rightarrow> int option" where
  "js_int name ms = (case map_of ms name of Some (JsNumber x) \<Rightarrow> Some \<lfloor>x\<rfloor> | _ \<Rightarrow> None)"

definition read_entry :: "(string \<times> js) list \<Rightarrow> audit_entry" where
  "read_entry ms = \<lparr>audit_Timestamp = js_string ''timestamp'' ms, audit_Identity = js_string ''identity'' ms,
     audit_Method = js_string ''method'' ms, audit_Path = js_string ''path'' ms,
     audit_ClusterID = js_string ''clusterId'' ms, audit_WorkloadID = js_string ''workloadId'' ms,
     audit_Replicas = js_int ''replicas'' ms, audit_Status = the (js_int ''status'' ms),
     audit_Error = js_string ''error'' ms, audit_ApprovalID = js_string ''approvalId'' ms\<rparr>"

definition read_line :: "string \<Rightarrow> audit_entry option" where
  "read_line l = (case parse_json l of Some (JsObject ms) \<Rightarrow> Some (read_entry ms) | _ \<Rightarrow> None)"

definition read_log :: "string \<Rightarrow> audit_entry option list" where
  "read_log written = map read_line (butlast (Split written (CHR 0x0A)))"

text \<open>An entry with the invalid bytes of its texts replaced.\<close>

definition valid_entry :: "audit_entry \<Rightarrow> audit_entry" where
  "valid_entry e = \<lparr>audit_Timestamp = to_valid (audit_Timestamp e), audit_Identity = to_valid (audit_Identity e),
     audit_Method = to_valid (audit_Method e), audit_Path = to_valid (audit_Path e),
     audit_ClusterID = to_valid (audit_ClusterID e), audit_WorkloadID = to_valid (audit_WorkloadID e),
     audit_Replicas = audit_Replicas e, audit_Status = audit_Status e,
     audit_Error = to_valid (audit_Error e), audit_ApprovalID = to_valid (audit_ApprovalID e)\<rparr>"

fun field_js :: "field \<Rightarrow> js" where
  "field_js (FString s) = JsString (to_valid s)"
| "field_js (FInt i) = JsNumber (of_int i)"

lemma parse_field:
  assumes "x \<in> {CHR '','', CHR ''}''}"
  shows "parse_value (Suc n) d (field_text f @ x # r) = Some (field_js f, x # r)"
proof (cases f)
  case (FString s)
  then show ?thesis by (simp add: parse_value_head parse_append_string)
next
  case (FInt i)
  then show ?thesis using parse_value_show [of "x # r" n d i] assms by (auto simp: is_digit_def less_eq_char_def)
qed

lemma parse_member:
  assumes "list_all plain name" and "0 < n"
  shows "parse_members (Suc n) d (member_text (name, f) @ CHR ''}'' # r) = Some ([(name, field_js f)], r)"
    and "parse_members (Suc n) d (member_text (name, f) @ CHR '','' # r)
      = map_option (apfst ((#) (name, field_js f))) (parse_members n d r)"
proof -
  have val: "parse_value n d (field_text f @ x # r) = Some (field_js f, x # r)" if "x \<in> {CHR '','', CHR ''}''}" for x
    using parse_field [OF that, of "n - 1"] assms(2) by simp
  show "parse_members (Suc n) d (member_text (name, f) @ CHR ''}'' # r) = Some ([(name, field_js f)], r)"
    "parse_members (Suc n) d (member_text (name, f) @ CHR '','' # r)
      = map_option (apfst ((#) (name, field_js f))) (parse_members n d r)"
    using parse_string_plain [OF assms(1)] val by (simp_all add: member_text_def parse_Suc(3) token_def)
qed

lemma parse_fields:
  assumes "fs \<noteq> []" and "\<forall>(name, f) \<in> set fs. list_all plain name" and "length fs < n"
  shows "parse_members n d (Join (map member_text fs) '','' @ CHR ''}'' # r) = Some (map (apsnd field_js) fs, r)"
  using assms
proof (induction fs arbitrary: n)
  case (Cons m fs)
  obtain k where n: "n = Suc k" "0 < k" using Cons.prems(3) by (cases n) auto
  obtain name f where m: "m = (name, f)" by fastforce
  have name: "list_all plain name" using Cons.prems(2) m by simp
  show ?case
  proof (cases fs)
    case Nil
    then show ?thesis by (simp add: m n(1) parse_member(1) [OF name n(2)])
  next
    case (Cons m' fs')
    define rest where "rest = Join (map member_text fs) '','' @ CHR ''}'' # r"
    have "parse_members k d rest = Some (map (apsnd field_js) fs, r)"
      unfolding rest_def using Cons Cons.IH [of k] Cons.prems n by simp
    moreover have "Join (map member_text (m # fs)) '','' @ CHR ''}'' # r = member_text m @ CHR '','' # rest"
      using Cons by (simp add: rest_def)
    ultimately show ?thesis unfolding m n(1) by (simp add: parse_member(2) [OF name n(2)])
  qed
qed simp

lemma field_names: "\<forall>(name, f) \<in> set (entry_fields e). list_all plain name"
  by (auto simp: entry_fields_def omitempty_def plain_def split: if_splits option.splits)

lemma length_text: "length fs < length (Join (map member_text fs) '','') + 1"
  by (induction fs rule: induct_list012) (simp_all add: member_text_def)

lemma parse_entry: "parse_json (encode_entry e) = Some (JsObject (map (apsnd field_js) (entry_fields e)))"
proof -
  let ?fs = "entry_fields e"
  have fs: "?fs \<noteq> []" by (simp add: entry_fields_def)
  define n where "n = 2 * length (encode_entry e) + 1"
  have "length ?fs < n" using length_text [of ?fs] by (simp add: n_def encode_entry_def)
  then have members: "parse_members n 1 (Join (map member_text ?fs) '','' @ ''}'') = Some (map (apsnd field_js) ?fs, [])"
    using parse_fields [OF fs field_names, of n 1 "[]"] by simp
  have "token (CHR ''}'') (Join (map member_text ?fs) '','' @ ''}'') = None"
    by (simp add: entry_fields_def member_text_def token_def)
  then have "parse_value (Suc n) 0 (encode_entry e) = Some (JsObject (map (apsnd field_js) ?fs), [])"
    using members by (simp add: encode_entry_def parse_value_head max_nesting_def)
  then show ?thesis using parse_json_fuel [of "encode_entry e" "Suc n"] by (simp add: n_def)
qed

lemma map_of_field:
  "map_of (map (apsnd field_js) (omitempty name s)) = (if s = '''' then Map.empty else [name \<mapsto> JsString (to_valid s)])"
  by (simp add: omitempty_def)

lemma read_entry_fields: "read_entry (map (apsnd field_js) (entry_fields e)) = valid_entry e"
  by (simp add: read_entry_def valid_entry_def entry_fields_def js_string_def js_int_def map_of_field map_add_def
      split: option.split)

lemma read_line_entry: "read_line (encode_entry e) = Some (valid_entry e)"
  by (simp add: read_line_def parse_entry read_entry_fields)

lemma entry_one_line: "CHR 0x0A \<notin> set (encode_entry e)"
proof -
  have int: "CHR 0x0A \<notin> set (show_int i)" for i
    using show_nat_digits [of "nat i"] show_nat_digits [of "nat (- i)"]
    by (auto simp: show_int_def list_all_iff is_digit_def less_eq_char_def)
  have field: "CHR 0x0A \<notin> set (field_text f)" for f
    using append_string_printable [of "CHR 0x0A"] int by (cases f) auto
  have members: "CHR 0x0A \<notin> set (member_text m)" if m: "m \<in> set (entry_fields e)" for m
  proof -
    obtain name f where nf: "m = (name, f)" by fastforce
    from m nf field_names [of e] have "list_all plain name" by auto
    moreover have "\<not> plain (CHR 0x0A)" by (simp add: plain_def)
    ultimately have "CHR 0x0A \<notin> set name" unfolding list_all_iff by blast
    then show ?thesis by (simp add: nf member_text_def field)
  qed
  have "CHR 0x0A \<notin> set (Join (map member_text ms) '','')" if "set ms \<subseteq> set (entry_fields e)" for ms
    using that by (induction ms rule: induct_list012) (auto dest: members)
  then show ?thesis by (simp add: encode_entry_def)
qed

lemma Split_line: "c \<notin> set l \<Longrightarrow> Split (l @ c # r) c = l # Split r c"
  by (induction l) (auto split: list.split)

text \<open>C28: the audit log cannot be forged. Whatever texts the entries carry, control characters, quotes, line breaks and
  invalid UTF-8 included, the written log has one line per entry, and reading the lines back gives exactly the
  entries in order, up to the replacement of bytes that are no UTF-8.\<close>

theorem audit_log_reads_back:
  "read_log (foldl jsonSink '''' entries) = map (\<lambda>e. Some (valid_entry e)) entries"
proof -
  have written: "foldl jsonSink w es = w @ concat (map (\<lambda>e. encode_entry e @ [CHR 0x0A]) es)" for w es
    by (induction es arbitrary: w) (simp_all add: jsonSink_def)
  have "Split (concat (map (\<lambda>e. encode_entry e @ [CHR 0x0A]) es)) (CHR 0x0A) = map encode_entry es @ ['''']" for es
    by (induction es) (simp_all add: Split_line entry_one_line)
  then show ?thesis by (simp add: read_log_def written read_line_entry)
qed

end
